(* ===== verification/DB_Prelude.thy ===== *)
theory DB_Prelude
  imports Main "HOL-Library.Word" "HOL-Library.Monad_Syntax"
begin

text \<open>
  Shared vocabulary of the development: bytes and pages, the return codes of
  \<^verbatim>\<open>dberror.h\<close>, the encoding of by-reference arguments, and the list lemmas
  that the page-file and frame-arena proofs of the component theories share.

  \<^item> A \<^verbatim>\<open>char\<close> is a \<open>byte\<close> (an 8-bit word), a page buffer a list of bytes.
  \<^item> A C pointer argument that the callee tests against \<^verbatim>\<open>NULL\<close> is an
    \<open>option\<close>: \<open>None\<close> is \<^verbatim>\<open>NULL\<close>, \<open>Some x\<close> a pointer to an object with
    contents \<open>x\<close>. A callee returns the contents after the call in the same
    shape; \<open>pointee\<close> reads them back at a call site that passed an address.
  \<^item> \<open>sm_defs\<close>, \<open>bm_defs\<close> collect the defining equations of the storage and
    buffer operations, so that \<open>simp add: sm_defs\<close> runs an operation.
\<close>

unbundle bit_operations_syntax

named_theorems sm_defs
named_theorems bm_defs
named_theorems db_intros

type_synonym byte = "8 word"
type_synonym page = "byte list"

datatype RC =
    RC_OK
  | RC_FILE_NOT_FOUND
  | RC_FILE_HANDLE_NOT_INIT
  | RC_WRITE_FAILED
  | RC_READ_NON_EXISTING_PAGE
  | RC_BM_NULL_FRAME
  | RC_BM_NULL_BUFFER
  | RC_BM_NULL_PGFILE
  | RC_BM_NULL_PAGE
  | RC_RM_LARGE_SCHEMA
  | RC_RM_LARGE_RECORD
  | RC_RM_INSERT_FAILED
  | RC_RM_DELETE_FAILED
  | RC_RM_UPDATE_FAILED
  | RC_RM_NO_MORE_TUPLES

definition PAGE_SIZE :: nat where
  "PAGE_SIZE = 4096"

definition emptyPage :: page where
  "emptyPage = replicate PAGE_SIZE 0"

definition pointee :: "'a \<Rightarrow> 'a option \<Rightarrow> 'a" where
  "pointee d p = (case p of None \<Rightarrow> d | Some x \<Rightarrow> x)"

definition put_block :: "nat \<Rightarrow> page \<Rightarrow> page list \<Rightarrow> page list" where
  "put_block n buf bs =
     (if n < length bs then bs[n := buf]
      else bs @ replicate (n - length bs) emptyPage @ [buf])"

definition get_block :: "nat \<Rightarrow> page list \<Rightarrow> page \<Rightarrow> page" where
  "get_block n bs buf = (if n < length bs then bs ! n else buf)"

subsection \<open>Pages\<close>

lemma PAGE_SIZE_pos [simp]: "0 < PAGE_SIZE"
  by (simp add: PAGE_SIZE_def)

lemma length_emptyPage [simp]: "length emptyPage = PAGE_SIZE"
  by (simp add: emptyPage_def)

lemma pointee_simps [simp]:
  "pointee d None = d"
  "pointee d (Some x) = x"
  by (simp_all add: pointee_def)

subsection \<open>Lists read and updated by index\<close>

lemma nth_list_update_if:
  "fs[a := g] ! b = (if a = b \<and> a < length fs then g else fs ! b)"
  by (cases "a < length fs") (auto simp: nth_list_update list_update_beyond)

lemma map_sel_update_same: "sel g = sel (fs ! a) \<Longrightarrow> map sel (fs[a := g]) = map sel fs"
  by (metis list_update_id map_update)

lemma in_tl_set: "a \<in> set (tl xs) \<Longrightarrow> a \<in> set xs"
  by (cases xs) auto

lemma not_last_butlast: "distinct xs \<Longrightarrow> a \<in> set (butlast xs) \<Longrightarrow> a \<noteq> last xs \<and> a \<in> set xs"
  by (cases xs rule: rev_cases) auto

lemma not_hd_tl: "distinct xs \<Longrightarrow> a \<in> set (tl xs) \<Longrightarrow> a \<noteq> hd xs \<and> a \<in> set xs"
  by (cases xs) auto

lemma remove1_split: "distinct (as @ v # bs) \<Longrightarrow> remove1 v (as @ v # bs) = as @ bs"
  by (simp add: remove1_append)

lemma find_None_set: "find P xs = None \<longleftrightarrow> (\<forall>x \<in> set xs. \<not> P x)"
  by (auto simp: find_None_iff)

lemma find_Some_set: "find P xs = Some a \<Longrightarrow> a \<in> set xs \<and> P a"
  by (auto simp: find_Some_iff)

subsection \<open>Block writes and reads on a list of pages\<close>

lemma length_put_block:
  "length (put_block n buf bs) = max (Suc n) (length bs)"
  by (auto simp: put_block_def)

lemma put_block_nth_same [simp]: "put_block n buf bs ! n = buf"
  by (auto simp: put_block_def nth_append)

lemma put_block_nth_other:
  "m \<noteq> n \<Longrightarrow> m < length bs \<Longrightarrow> put_block n buf bs ! m = bs ! m"
  by (auto simp: put_block_def nth_append)

lemma put_block_nth_hole:
  "length bs \<le> m \<Longrightarrow> m < n \<Longrightarrow> put_block n buf bs ! m = emptyPage"
  by (auto simp: put_block_def nth_append)

lemma get_put_block [simp]: "get_block n (put_block n buf bs) old = buf"
  by (simp add: get_block_def length_put_block max_def)

lemma put_block_in_range:
  "n < length bs \<Longrightarrow> put_block n buf bs = bs[n := buf]"
  by (simp add: put_block_def)

lemma put_block_at_end:
  "put_block (length bs) buf bs = bs @ [buf]"
  by (simp add: put_block_def)

lemma set_put_block:
  "set (put_block n buf bs) \<subseteq> insert buf (insert emptyPage (set bs))"
proof (cases "n < length bs")
  case True
  then show ?thesis
    using set_update_subset_insert [of bs n buf] by (auto simp: put_block_def)
next
  case False
  then show ?thesis
    by (auto simp: put_block_def)
qed

lemma list_all_put_block:
  "list_all P bs \<Longrightarrow> P buf \<Longrightarrow> P emptyPage \<Longrightarrow> list_all P (put_block n buf bs)"
  using set_put_block [of n buf bs] by (auto simp: list_all_iff)

lemma put_block_extend:
  assumes "length bs \<le> n"
  shows "put_block n buf (bs @ replicate (Suc n - length bs) emptyPage) = put_block n buf bs"
proof -
  from assms have k: "Suc n - length bs = Suc (n - length bs)"
    by simp
  have "(replicate (Suc k) x)[k := y] = replicate k x @ [y]" for k and x y :: page
    by (induction k) simp_all
  with assms show ?thesis
    by (simp add: put_block_def k list_update_append del: replicate_Suc)
qed

end
