(* ===== verification/Storage_Mgr.thy ===== *)
theory Storage_Mgr
  imports DB_Prelude
begin

text \<open>
  The storage substrate of \<^verbatim>\<open>storage_mgr.c\<close>: page files with an 8-byte header,
  file handles, and block-granular reads, writes and appends.

  \<^item> \<open>page_file\<close> is the content of one file: the two header integers and the
    pages that follow them. \<open>storage\<close> is everything the module can reach: its
    two global variables and the files of the operating system by name.
    \<open>unwritable\<close> names the files that \<^verbatim>\<open>fopen\<close> refuses to open for writing.
  \<^item> \<open>SM_FileHandle\<close> is the caller's handle. Its \<open>mgmtInfo\<close> is the open stream,
    identified by the name of the file it is bound to. A stream whose file has
    been removed makes \<^verbatim>\<open>fseek\<close> fail and ignores writes; \<^verbatim>\<open>fclose\<close> of a
    \<^verbatim>\<open>NULL\<close> stream takes the failure branch.
  \<^item> Every operation is one definition with the guards of the C function in
    their order, returning the return code and the new contents of what the C
    function writes through its pointers.
  \<^item> \<open>file_ok\<close> and \<open>handle_ok\<close> are the well-formedness predicates; the lemmas
    show that every operation keeps them, what each operation does on every
    branch, and that the operations implement reads, writes and appends on a
    plain list of pages (\<open>pages_of\<close>).
\<close>

subsection \<open>State\<close>

record page_file =
  hdr_totNoPg :: int
  hdr_curPgPos :: int
  blocks :: "page list"

record SM_FileHandle =
  fileName :: "string option"
  totalNumPages :: int
  curPagePos :: int
  mgmtInfo :: "string option"

record storage =
  totNoPg :: int
  curPgPos :: int
  files :: "string \<rightharpoonup> page_file"
  unwritable :: "string set"

definition SIZE_FileHeader :: int where
  "SIZE_FileHeader = 2 * 4"

definition OFFSET_page :: "int \<Rightarrow> int" where
  "OFFSET_page pageNum = int PAGE_SIZE * pageNum + SIZE_FileHeader"

definition fseek_page :: "storage \<Rightarrow> string \<Rightarrow> int \<Rightarrow> page_file option" where
  "fseek_page st name pageNum = (if 0 \<le> OFFSET_page pageNum then files st name else None)"

definition stream_write :: "string \<Rightarrow> (page_file \<Rightarrow> page_file) \<Rightarrow> storage \<Rightarrow> storage" where
  "stream_write name f st = st\<lparr>files := (files st)(name := map_option f (files st name))\<rparr>"

subsection \<open>Manipulating page files\<close>

definition initStorageManager :: "storage \<Rightarrow> storage" where
  "initStorageManager st = st\<lparr>totNoPg := 1, curPgPos := 0\<rparr>"

definition createPageFile :: "string option \<Rightarrow> storage \<Rightarrow> RC \<times> storage" where
  "createPageFile fName st =
     (let st1 = initStorageManager st in
      case fName of
        None \<Rightarrow> (RC_FILE_NOT_FOUND, st1)
      | Some name \<Rightarrow>
          if name \<in> unwritable st1 then (RC_WRITE_FAILED, st1)
          else
            let pgCnt = 1;
                file = \<lparr>hdr_totNoPg = pgCnt, hdr_curPgPos = curPgPos st1, blocks = [emptyPage]\<rparr>
            in (RC_OK, st1\<lparr>totNoPg := - 1, curPgPos := - 1,
                           files := (files st1)(name \<mapsto> file)\<rparr>))"

definition openPageFile ::
  "string option \<Rightarrow> SM_FileHandle option \<Rightarrow> storage \<Rightarrow> RC \<times> SM_FileHandle option" where
  "openPageFile fName fHandle st =
     (case fName of
        None \<Rightarrow> (RC_FILE_NOT_FOUND, fHandle)
      | Some name \<Rightarrow>
          (case fHandle of
             None \<Rightarrow> (RC_FILE_HANDLE_NOT_INIT, fHandle)
           | Some fh \<Rightarrow>
               (case (if name \<in> unwritable st then None else files st name) of
                  None \<Rightarrow> (RC_FILE_NOT_FOUND, fHandle)
                | Some file \<Rightarrow>
                    (RC_OK, Some (fh\<lparr>fileName := Some name,
                                      totalNumPages := hdr_totNoPg file,
                                      curPagePos := 0,
                                      mgmtInfo := Some name\<rparr>)))))"

definition closePageFile :: "SM_FileHandle option \<Rightarrow> RC \<times> SM_FileHandle option" where
  "closePageFile fHandle =
     (case fHandle of
        None \<Rightarrow> (RC_FILE_HANDLE_NOT_INIT, fHandle)
      | Some fh \<Rightarrow>
          if mgmtInfo fh \<noteq> None
          then (RC_OK, Some (fh\<lparr>fileName := None, totalNumPages := 0,
                                 curPagePos := 0, mgmtInfo := None\<rparr>))
          else (RC_FILE_HANDLE_NOT_INIT, fHandle))"

definition destroyPageFile :: "string option \<Rightarrow> storage \<Rightarrow> RC \<times> storage" where
  "destroyPageFile fName st =
     (case fName of
        None \<Rightarrow> (RC_FILE_NOT_FOUND, st)
      | Some name \<Rightarrow>
          if files st name \<noteq> None
          then (RC_OK, st\<lparr>files := (files st)(name := None)\<rparr>)
          else (RC_FILE_NOT_FOUND, st))"

subsection \<open>Reading blocks\<close>

definition readBlock ::
  "int \<Rightarrow> SM_FileHandle option \<Rightarrow> page option \<Rightarrow> storage
     \<Rightarrow> RC \<times> SM_FileHandle option \<times> page option" where
  "readBlock pageNum fHandle memPage st =
     (case fHandle of
        None \<Rightarrow> (RC_FILE_HANDLE_NOT_INIT, fHandle, memPage)
      | Some fh \<Rightarrow>
          (case memPage of
             None \<Rightarrow> (RC_READ_NON_EXISTING_PAGE, fHandle, memPage)
           | Some buf \<Rightarrow>
               if pageNum \<ge> totalNumPages fh then (RC_READ_NON_EXISTING_PAGE, fHandle, memPage)
               else if pageNum < 0 then (RC_READ_NON_EXISTING_PAGE, fHandle, memPage)
               else
                 (case mgmtInfo fh of
                    None \<Rightarrow> (RC_FILE_NOT_FOUND, fHandle, memPage)
                  | Some name \<Rightarrow>
                      (case fseek_page st name pageNum of
                         Some file \<Rightarrow>
                           (RC_OK, Some (fh\<lparr>curPagePos := pageNum\<rparr>),
                            Some (get_block (nat pageNum) (blocks file) buf))
                       | None \<Rightarrow> (RC_READ_NON_EXISTING_PAGE, fHandle, memPage)))))"

definition getBlockPos :: "SM_FileHandle option \<Rightarrow> RC + int" where
  "getBlockPos fHandle =
     (case fHandle of None \<Rightarrow> Inl RC_FILE_HANDLE_NOT_INIT | Some fh \<Rightarrow> Inr (curPagePos fh))"

definition readFirstBlock ::
  "SM_FileHandle option \<Rightarrow> page option \<Rightarrow> storage \<Rightarrow> RC \<times> SM_FileHandle option \<times> page option" where
  "readFirstBlock fHandle memPage st =
     (case fHandle of
        None \<Rightarrow> (RC_FILE_HANDLE_NOT_INIT, fHandle, memPage)
      | Some fh \<Rightarrow> readBlock 0 fHandle memPage st)"

definition readPreviousBlock ::
  "SM_FileHandle option \<Rightarrow> page option \<Rightarrow> storage \<Rightarrow> RC \<times> SM_FileHandle option \<times> page option" where
  "readPreviousBlock fHandle memPage st =
     (case fHandle of
        None \<Rightarrow> (RC_FILE_HANDLE_NOT_INIT, fHandle, memPage)
      | Some fh \<Rightarrow> readBlock (curPagePos fh - 1) fHandle memPage st)"

definition readCurrentBlock ::
  "SM_FileHandle option \<Rightarrow> page option \<Rightarrow> storage \<Rightarrow> RC \<times> SM_FileHandle option \<times> page option" where
  "readCurrentBlock fHandle memPage st =
     (case fHandle of
        None \<Rightarrow> (RC_FILE_HANDLE_NOT_INIT, fHandle, memPage)
      | Some fh \<Rightarrow> readBlock (curPagePos fh) fHandle memPage st)"

definition readNextBlock ::
  "SM_FileHandle option \<Rightarrow> page option \<Rightarrow> storage \<Rightarrow> RC \<times> SM_FileHandle option \<times> page option" where
  "readNextBlock fHandle memPage st =
     (case fHandle of
        None \<Rightarrow> (RC_FILE_HANDLE_NOT_INIT, fHandle, memPage)
      | Some fh \<Rightarrow> readBlock (curPagePos fh + 1) fHandle memPage st)"

definition readLastBlock ::
  "SM_FileHandle option \<Rightarrow> page option \<Rightarrow> storage \<Rightarrow> RC \<times> SM_FileHandle option \<times> page option" where
  "readLastBlock fHandle memPage st =
     (case fHandle of
        None \<Rightarrow> (RC_FILE_HANDLE_NOT_INIT, fHandle, memPage)
      | Some fh \<Rightarrow> readBlock (totalNumPages fh - 1) fHandle memPage st)"

subsection \<open>Appending and writing blocks\<close>

definition appendEmptyBlock ::
  "SM_FileHandle option \<Rightarrow> storage \<Rightarrow> RC \<times> SM_FileHandle option \<times> storage" where
  "appendEmptyBlock fHandle st =
     (case fHandle of
        None \<Rightarrow> (RC_FILE_HANDLE_NOT_INIT, fHandle, st)
      | Some fh \<Rightarrow>
          (case mgmtInfo fh of
             None \<Rightarrow> (RC_FILE_NOT_FOUND, fHandle, st)
           | Some name \<Rightarrow>
               let pgNo = totalNumPages fh;
                   st1 = stream_write name (\<lambda>f. f\<lparr>blocks := blocks f @ [emptyPage]\<rparr>) st;
                   fh1 = fh\<lparr>curPagePos := pgNo\<rparr>;
                   fh2 = fh1\<lparr>totalNumPages := totalNumPages fh1 + 1\<rparr>;
                   noPg = totalNumPages fh2;
                   st2 = stream_write name (\<lambda>f. f\<lparr>hdr_totNoPg := noPg\<rparr>) st1
               in (RC_OK, Some fh2, st2)))"

function ensureCapacity_loop ::
  "int \<Rightarrow> SM_FileHandle \<Rightarrow> storage \<Rightarrow> RC \<times> SM_FileHandle option \<times> storage" where
  "ensureCapacity_loop numberOfPages fh st =
     (if totalNumPages fh < numberOfPages then
        (case appendEmptyBlock (Some fh) st of
           (rc, fHandle1, st1) \<Rightarrow>
             if rc \<noteq> RC_OK then (RC_WRITE_FAILED, fHandle1, st1)
             else ensureCapacity_loop numberOfPages (pointee fh fHandle1) st1)
      else (RC_OK, Some fh, st))"
  by pat_completeness auto
termination
  by (relation "measure (\<lambda>(n, fh, st). nat (n - totalNumPages fh))")
     (auto simp: appendEmptyBlock_def Let_def split: option.splits)

declare ensureCapacity_loop.simps [simp del]

definition ensureCapacity ::
  "int \<Rightarrow> SM_FileHandle option \<Rightarrow> storage \<Rightarrow> RC \<times> SM_FileHandle option \<times> storage" where
  "ensureCapacity numberOfPages fHandle st =
     (case fHandle of
        None \<Rightarrow> (RC_FILE_HANDLE_NOT_INIT, fHandle, st)
      | Some fh \<Rightarrow> ensureCapacity_loop numberOfPages fh st)"

definition writeBlock ::
  "int \<Rightarrow> SM_FileHandle option \<Rightarrow> page option \<Rightarrow> storage
     \<Rightarrow> RC \<times> SM_FileHandle option \<times> storage" where
  "writeBlock pageNum fHandle memPage st =
     (case fHandle of
        None \<Rightarrow> (RC_FILE_HANDLE_NOT_INIT, fHandle, st)
      | Some fh \<Rightarrow>
          (case memPage of
             None \<Rightarrow> (RC_READ_NON_EXISTING_PAGE, fHandle, st)
           | Some buf \<Rightarrow>
               (case mgmtInfo fh of
                  None \<Rightarrow> (RC_FILE_NOT_FOUND, fHandle, st)
                | Some name \<Rightarrow>
                    (case (if pageNum \<ge> totalNumPages fh
                           then ensureCapacity (pageNum + 1) fHandle st
                           else (RC_OK, fHandle, st)) of
                       (rc, fHandle1, st1) \<Rightarrow>
                         if rc \<noteq> RC_OK then (RC_WRITE_FAILED, fHandle1, st1)
                         else
                           (case fseek_page st1 name pageNum of
                              Some file \<Rightarrow>
                                (RC_OK,
                                 Some ((pointee fh fHandle1)\<lparr>curPagePos := pageNum + 1\<rparr>),
                                 stream_write name
                                   (\<lambda>f. f\<lparr>blocks := put_block (nat pageNum) buf (blocks f)\<rparr>) st1)
                            | None \<Rightarrow> (RC_WRITE_FAILED, fHandle1, st1))))))"

definition writeCurrentBlock ::
  "SM_FileHandle option \<Rightarrow> page option \<Rightarrow> storage \<Rightarrow> RC \<times> SM_FileHandle option \<times> storage" where
  "writeCurrentBlock fHandle memPage st =
     (case fHandle of
        None \<Rightarrow> (RC_READ_NON_EXISTING_PAGE, fHandle, st)
      | Some fh \<Rightarrow> writeBlock (curPagePos fh) fHandle memPage st)"

lemmas [sm_defs] =
  initStorageManager_def createPageFile_def openPageFile_def closePageFile_def
  destroyPageFile_def readBlock_def getBlockPos_def readFirstBlock_def
  readPreviousBlock_def readCurrentBlock_def readNextBlock_def readLastBlock_def
  appendEmptyBlock_def ensureCapacity_def writeBlock_def writeCurrentBlock_def
  stream_write_def fseek_page_def OFFSET_page_def SIZE_FileHeader_def


subsection \<open>Well-formed files and handles, and the pages behind a handle\<close>

definition file_ok :: "page_file \<Rightarrow> bool" where
  "file_ok f \<longleftrightarrow>
     hdr_totNoPg f = int (length (blocks f)) \<and> list_all (\<lambda>b. length b = PAGE_SIZE) (blocks f)"

definition bound_file :: "storage \<Rightarrow> SM_FileHandle \<Rightarrow> page_file option" where
  "bound_file st fh = (case mgmtInfo fh of None \<Rightarrow> None | Some name \<Rightarrow> files st name)"

definition handle_ok :: "storage \<Rightarrow> SM_FileHandle \<Rightarrow> bool" where
  "handle_ok st fh \<longleftrightarrow>
     (case bound_file st fh of
        None \<Rightarrow> False
      | Some f \<Rightarrow> file_ok f \<and> totalNumPages fh = hdr_totNoPg f \<and>
                  0 \<le> curPagePos fh \<and> curPagePos fh \<le> totalNumPages fh)"

definition pages_of :: "storage \<Rightarrow> SM_FileHandle \<Rightarrow> page list" where
  "pages_of st fh = (case bound_file st fh of None \<Rightarrow> [] | Some f \<Rightarrow> blocks f)"

lemma handle_okE:
  assumes "handle_ok st fh"
  obtains name f where "mgmtInfo fh = Some name" "files st name = Some f" "file_ok f"
    "totalNumPages fh = int (length (blocks f))" "hdr_totNoPg f = int (length (blocks f))"
    "0 \<le> curPagePos fh" "curPagePos fh \<le> int (length (blocks f))"
    "pages_of st fh = blocks f"
  using assms
  by (auto simp: handle_ok_def bound_file_def pages_of_def file_ok_def split: option.splits)

lemma handle_okI:
  assumes "mgmtInfo fh = Some name" "files st name = Some f" "file_ok f"
    "totalNumPages fh = hdr_totNoPg f" "0 \<le> curPagePos fh" "curPagePos fh \<le> totalNumPages fh"
  shows "handle_ok st fh"
  using assms by (simp add: handle_ok_def bound_file_def)

lemma handle_ok_total: "handle_ok st fh \<Longrightarrow> totalNumPages fh = int (length (pages_of st fh))"
  by (erule handle_okE) simp

lemma handle_ok_pages:
  "handle_ok st fh \<Longrightarrow> list_all (\<lambda>b. length b = PAGE_SIZE) (pages_of st fh)"
  by (erule handle_okE) (simp add: file_ok_def)

lemma file_ok_append:
  "file_ok f \<Longrightarrow> file_ok (f\<lparr>blocks := blocks f @ [emptyPage], hdr_totNoPg := hdr_totNoPg f + 1\<rparr>)"
  by (simp add: file_ok_def)

lemma file_ok_put_block:
  "file_ok f \<Longrightarrow> length buf = PAGE_SIZE \<Longrightarrow> n < length (blocks f)
     \<Longrightarrow> file_ok (f\<lparr>blocks := put_block n buf (blocks f)\<rparr>)"
  by (simp add: file_ok_def length_put_block list_all_put_block max_def)


subsection \<open>What a call leaves alone\<close>

definition same_but :: "string \<Rightarrow> storage \<Rightarrow> storage \<Rightarrow> bool" where
  "same_but name st st' \<longleftrightarrow>
     totNoPg st' = totNoPg st \<and> curPgPos st' = curPgPos st \<and> unwritable st' = unwritable st \<and>
     files st' = (files st)(name := files st' name)"

lemma same_but_refl [simp]: "same_but name st st"
  by (simp add: same_but_def)

lemma same_but_trans: "same_but name st st1 \<Longrightarrow> same_but name st1 st2 \<Longrightarrow> same_but name st st2"
  unfolding same_but_def by (metis fun_upd_upd)

lemma same_but_other: "same_but name st st' \<Longrightarrow> other \<noteq> name \<Longrightarrow> files st' other = files st other"
  unfolding same_but_def by (metis fun_upd_other)

lemma same_but_stream_write [simp]: "same_but name st (stream_write name f st)"
  by (simp add: same_but_def stream_write_def)

subsection \<open>appendEmptyBlock and ensureCapacity\<close>

lemma appendEmptyBlock_ok:
  assumes "handle_ok st fh"
  obtains fh' st' where
    "appendEmptyBlock (Some fh) st = (RC_OK, Some fh', st')"
    "fh' = fh\<lparr>curPagePos := totalNumPages fh, totalNumPages := totalNumPages fh + 1\<rparr>"
    "handle_ok st' fh'" "pages_of st' fh' = pages_of st fh @ [emptyPage]"
    "same_but (the (mgmtInfo fh)) st st'"
proof -
  from assms obtain name f where nf: "mgmtInfo fh = Some name" "files st name = Some f"
    and ok: "file_ok f" "totalNumPages fh = int (length (blocks f))"
      "hdr_totNoPg f = int (length (blocks f))"
    by (rule handle_okE)
  let ?fh = "fh\<lparr>curPagePos := totalNumPages fh, totalNumPages := totalNumPages fh + 1\<rparr>"
  let ?f = "f\<lparr>blocks := blocks f @ [emptyPage], hdr_totNoPg := hdr_totNoPg f + 1\<rparr>"
  let ?st = "st\<lparr>files := (files st)(name \<mapsto> ?f)\<rparr>"
  have eq: "appendEmptyBlock (Some fh) st = (RC_OK, Some ?fh, ?st)"
    using nf ok by (simp add: appendEmptyBlock_def stream_write_def Let_def)
  moreover have "handle_ok ?st ?fh"
    using nf ok file_ok_append [OF ok(1)] by (intro handle_okI [where name = name and f = ?f]) auto
  moreover have "pages_of ?st ?fh = pages_of st fh @ [emptyPage]"
    using nf by (simp add: pages_of_def bound_file_def)
  moreover have "same_but (the (mgmtInfo fh)) st ?st"
    using nf by (simp add: same_but_def)
  ultimately show ?thesis using that by blast
qed

lemma ensureCapacity_loop_ok:
  assumes "handle_ok st fh"
  shows "\<exists>fh' st'. ensureCapacity_loop n fh st = (RC_OK, Some fh', st') \<and> handle_ok st' fh' \<and>
           pages_of st' fh' = pages_of st fh @ replicate (nat (n - totalNumPages fh)) emptyPage \<and>
           mgmtInfo fh' = mgmtInfo fh \<and> fileName fh' = fileName fh \<and>
           curPagePos fh' = (if totalNumPages fh < n then n - 1 else curPagePos fh) \<and>
           same_but (the (mgmtInfo fh)) st st'"
  using assms
proof (induction n fh st rule: ensureCapacity_loop.induct)
  case (1 n fh st)
  show ?case
  proof (cases "totalNumPages fh < n")
    case False
    with "1.prems" show ?thesis
      by (simp add: ensureCapacity_loop.simps [of n fh st])
  next
    case True
    from "1.prems" obtain fh1 st1 where
      app: "appendEmptyBlock (Some fh) st = (RC_OK, Some fh1, st1)"
      and fh1: "fh1 = fh\<lparr>curPagePos := totalNumPages fh, totalNumPages := totalNumPages fh + 1\<rparr>"
      and ok1: "handle_ok st1 fh1" and pg1: "pages_of st1 fh1 = pages_of st fh @ [emptyPage]"
      and sb1: "same_but (the (mgmtInfo fh)) st st1"
      by (rule appendEmptyBlock_ok)
    from "1.IH" [OF True app [symmetric] refl] ok1 obtain fh' st' where
      loop: "ensureCapacity_loop n fh1 st1 = (RC_OK, Some fh', st')"
      and ok': "handle_ok st' fh'"
      and pg': "pages_of st' fh' = pages_of st1 fh1 @ replicate (nat (n - totalNumPages fh1)) emptyPage"
      and rest: "mgmtInfo fh' = mgmtInfo fh1" "fileName fh' = fileName fh1"
        "curPagePos fh' = (if totalNumPages fh1 < n then n - 1 else curPagePos fh1)"
        "same_but (the (mgmtInfo fh1)) st1 st'"
      by auto
    have "nat (n - totalNumPages fh) = Suc (nat (n - totalNumPages fh1))"
      using True fh1 by simp
    with pg' pg1 have "pages_of st' fh' = pages_of st fh @ replicate (nat (n - totalNumPages fh)) emptyPage"
      by simp
    moreover have "same_but (the (mgmtInfo fh)) st st'"
      using sb1 rest(4) fh1 by (auto intro: same_but_trans)
    ultimately show ?thesis
      using True app loop ok' rest fh1
      by (auto simp: ensureCapacity_loop.simps [of n fh st])
  qed
qed


subsection \<open>readBlock and writeBlock on a well-formed handle\<close>

lemma OFFSET_page_nonneg [simp]: "0 \<le> p \<Longrightarrow> 0 \<le> OFFSET_page p"
  by (simp add: OFFSET_page_def SIZE_FileHeader_def)

lemma OFFSET_page_neg [simp]: "p < 0 \<Longrightarrow> \<not> 0 \<le> OFFSET_page p"
  by (simp add: OFFSET_page_def SIZE_FileHeader_def PAGE_SIZE_def)

lemma readBlock_ok:
  assumes "handle_ok st fh" "0 \<le> p" "p < totalNumPages fh"
  shows "readBlock p (Some fh) (Some buf) st =
           (RC_OK, Some (fh\<lparr>curPagePos := p\<rparr>), Some (pages_of st fh ! nat p))"
  using assms(1)
proof (rule handle_okE)
  fix name f
  assume "mgmtInfo fh = Some name" "files st name = Some f"
    "totalNumPages fh = int (length (blocks f))" "pages_of st fh = blocks f"
  with assms(2,3) show ?thesis
    by (simp add: readBlock_def fseek_page_def get_block_def nat_less_iff)
qed

lemma writeBlock_in_range:
  assumes "handle_ok st fh" "0 \<le> p" "p < totalNumPages fh"
  shows "\<exists>st'. writeBlock p (Some fh) (Some buf) st = (RC_OK, Some (fh\<lparr>curPagePos := p + 1\<rparr>), st') \<and>
           pages_of st' (fh\<lparr>curPagePos := p + 1\<rparr>) = put_block (nat p) buf (pages_of st fh) \<and>
           same_but (the (mgmtInfo fh)) st st' \<and>
           (length buf = PAGE_SIZE \<longrightarrow> handle_ok st' (fh\<lparr>curPagePos := p + 1\<rparr>))"
proof -
  from assms(1) obtain name f where nf: "mgmtInfo fh = Some name" "files st name = Some f"
    and ok: "file_ok f" "totalNumPages fh = int (length (blocks f))"
      "hdr_totNoPg f = int (length (blocks f))" "pages_of st fh = blocks f"
    by (rule handle_okE)
  let ?f = "f\<lparr>blocks := put_block (nat p) buf (blocks f)\<rparr>"
  let ?st = "st\<lparr>files := (files st)(name \<mapsto> ?f)\<rparr>"
  let ?fh = "fh\<lparr>curPagePos := p + 1\<rparr>"
  have "writeBlock p (Some fh) (Some buf) st = (RC_OK, Some ?fh, ?st)"
    using nf ok assms(2,3) by (simp add: writeBlock_def fseek_page_def stream_write_def)
  moreover have "pages_of ?st ?fh = put_block (nat p) buf (pages_of st fh)"
    using nf ok by (simp add: pages_of_def bound_file_def)
  moreover have "same_but (the (mgmtInfo fh)) st ?st"
    using nf by (simp add: same_but_def)
  moreover have "handle_ok ?st ?fh" if "length buf = PAGE_SIZE"
  proof (rule handle_okI [where name = name and f = ?f])
    show "file_ok ?f"
      using ok(1,2) that assms(2,3) by (intro file_ok_put_block) auto
  qed (use nf ok assms(2,3) in \<open>auto simp: length_put_block\<close>)
  ultimately show ?thesis by blast
qed

lemma writeBlock_ok:
  assumes "handle_ok st fh" "0 \<le> p"
  shows "\<exists>fh' st'. writeBlock p (Some fh) (Some buf) st = (RC_OK, Some fh', st') \<and>
           pages_of st' fh' = put_block (nat p) buf (pages_of st fh) \<and>
           curPagePos fh' = p + 1 \<and> totalNumPages fh' = max (p + 1) (totalNumPages fh) \<and>
           mgmtInfo fh' = mgmtInfo fh \<and> fileName fh' = fileName fh \<and>
           same_but (the (mgmtInfo fh)) st st' \<and>
           (length buf = PAGE_SIZE \<longrightarrow> handle_ok st' fh')"
proof (cases "p < totalNumPages fh")
  case True
  with writeBlock_in_range [OF assms True, of buf] show ?thesis
    by (auto simp: max_def)
next
  case False
  from assms(1) obtain name where name: "mgmtInfo fh = Some name"
    by (rule handle_okE)
  from ensureCapacity_loop_ok [OF assms(1), of "p + 1"] False obtain fh1 st1 where
    ens: "ensureCapacity_loop (p + 1) fh st = (RC_OK, Some fh1, st1)"
    and ok1: "handle_ok st1 fh1"
    and pg1: "pages_of st1 fh1 = pages_of st fh @ replicate (nat (p + 1 - totalNumPages fh)) emptyPage"
    and rest1: "mgmtInfo fh1 = mgmtInfo fh" "fileName fh1 = fileName fh"
      "same_but (the (mgmtInfo fh)) st st1"
    by auto
  have tot: "totalNumPages fh = int (length (pages_of st fh))"
    using assms(1) by (rule handle_ok_total)
  have tot1: "totalNumPages fh1 = p + 1"
    using handle_ok_total [OF ok1] pg1 tot False by simp
  with writeBlock_in_range [OF ok1 assms(2), of buf] obtain st' where
    w1: "writeBlock p (Some fh1) (Some buf) st1 = (RC_OK, Some (fh1\<lparr>curPagePos := p + 1\<rparr>), st')"
    and pg': "pages_of st' (fh1\<lparr>curPagePos := p + 1\<rparr>) = put_block (nat p) buf (pages_of st1 fh1)"
    and sb': "same_but (the (mgmtInfo fh1)) st1 st'"
    and ok': "length buf = PAGE_SIZE \<longrightarrow> handle_ok st' (fh1\<lparr>curPagePos := p + 1\<rparr>)"
    by auto
  have w: "writeBlock p (Some fh) (Some buf) st = (RC_OK, Some (fh1\<lparr>curPagePos := p + 1\<rparr>), st')"
    using w1 False name ens rest1(1) tot1 assms(2)
    by (simp add: writeBlock_def ensureCapacity_def split: option.splits prod.splits)
  have "nat (p + 1 - totalNumPages fh) = Suc (nat p) - length (pages_of st fh)"
    using False tot assms(2) by simp
  with pg1 pg' False tot assms(2)
  have "pages_of st' (fh1\<lparr>curPagePos := p + 1\<rparr>) = put_block (nat p) buf (pages_of st fh)"
    by (simp add: put_block_extend)
  moreover have "same_but (the (mgmtInfo fh)) st st'"
    using sb' rest1 by (auto intro: same_but_trans)
  ultimately show ?thesis
    using w ok' rest1 tot1 False by (auto simp: max_def)
qed


lemma writeBlock_bound:
  assumes "handle_ok st fh" "0 \<le> p"
    and "writeBlock p (Some fh) (Some buf) st = (rc, fh', st')"
  obtains h f where "rc = RC_OK" "fh' = Some h" "bound_file st' h = Some f"
    "blocks f = put_block (nat p) buf (pages_of st fh)" "p < totalNumPages h"
    "curPagePos h = p + 1"
proof -
  from writeBlock_ok [OF assms(1,2), of buf] assms(3) obtain h where
    h: "rc = RC_OK" "fh' = Some h" "pages_of st' h = put_block (nat p) buf (pages_of st fh)"
      "curPagePos h = p + 1" "totalNumPages h = max (p + 1) (totalNumPages fh)"
    by auto
  from h(3) have "pages_of st' h \<noteq> []"
    using length_put_block [of "nat p" buf "pages_of st fh"] by auto
  then obtain f where "bound_file st' h = Some f" "blocks f = pages_of st' h"
    by (auto simp: pages_of_def split: option.splits)
  with h show ?thesis
    by (intro that [of h f]) auto
qed

lemma readBlock_bound:
  assumes "bound_file st fh = Some f" "0 \<le> p" "p < totalNumPages fh"
  shows "readBlock p (Some fh) (Some buf) st =
           (RC_OK, Some (fh\<lparr>curPagePos := p\<rparr>), Some (get_block (nat p) (blocks f) buf))"
  using assms by (auto simp: readBlock_def bound_file_def fseek_page_def split: option.splits)

subsection \<open>A small disk for the examples\<close>

definition disk0 :: storage where
  "disk0 = \<lparr>totNoPg = 0, curPgPos = 0, files = Map.empty, unwritable = {}\<rparr>"

definition fh0 :: SM_FileHandle where
  "fh0 = \<lparr>fileName = None, totalNumPages = 0, curPagePos = 0, mgmtInfo = None\<rparr>"

definition disk1 :: storage where
  "disk1 = snd (createPageFile (Some ''t'') disk0)"

definition fh1 :: SM_FileHandle where
  "fh1 = pointee fh0 (snd (openPageFile (Some ''t'') (Some fh0) disk1))"

definition page7 :: page where
  "page7 = replicate PAGE_SIZE 7"

lemma disk1_eq:
  "disk1 = \<lparr>totNoPg = - 1, curPgPos = - 1,
            files = [''t'' \<mapsto> \<lparr>hdr_totNoPg = 1, hdr_curPgPos = 0, blocks = [emptyPage]\<rparr>],
            unwritable = {}\<rparr>"
  by (simp add: disk1_def disk0_def createPageFile_def initStorageManager_def)

lemma fh1_eq:
  "fh1 = \<lparr>fileName = Some ''t'', totalNumPages = 1, curPagePos = 0, mgmtInfo = Some ''t''\<rparr>"
  by (simp add: fh1_def fh0_def disk1_eq openPageFile_def)

lemma handle_ok_disk1 [simp]: "handle_ok disk1 fh1"
  by (simp add: handle_ok_def bound_file_def file_ok_def disk1_eq fh1_eq)

lemma pages_of_disk1 [simp]: "pages_of disk1 fh1 = [emptyPage]"
  by (simp add: pages_of_def bound_file_def disk1_eq fh1_eq)

lemma fh1_fields [simp]:
  "totalNumPages fh1 = 1" "curPagePos fh1 = 0" "mgmtInfo fh1 = Some ''t''"
  by (simp_all add: fh1_eq)

lemma length_page7 [simp]: "length page7 = PAGE_SIZE"
  by (simp add: page7_def)

subsection \<open>Properties of the storage substrate\<close>

text \<open>
  C1 (round trip). On a well-formed handle, writing a buffer to any page number
  \<open>p \<ge> 0\<close> succeeds, and reading page \<open>p\<close> back through the handle that the write
  returns succeeds and yields exactly the bytes written, whatever the destination
  buffer held before. The read leaves the cursor on \<open>p\<close>.
\<close>

theorem writeBlock_readBlock:
  assumes "handle_ok st fh" and "0 \<le> p"
  shows "case writeBlock p (Some fh) (Some buf) st of
           (rc, fh', st') \<Rightarrow>
             rc = RC_OK \<and>
             readBlock p fh' (Some old) st' =
               (RC_OK, map_option (\<lambda>h. h\<lparr>curPagePos := p\<rparr>) fh', Some buf)"
proof -
  obtain rc fh' st' where w: "writeBlock p (Some fh) (Some buf) st = (rc, fh', st')"
    by (cases "writeBlock p (Some fh) (Some buf) st") auto
  from assms w obtain h f where h: "rc = RC_OK" "fh' = Some h" "bound_file st' h = Some f"
    "blocks f = put_block (nat p) buf (pages_of st fh)" "p < totalNumPages h"
    by (rule writeBlock_bound)
  from readBlock_bound [OF h(3) assms(2) h(5), of old] h w show ?thesis
    by simp
qed

theorem writeBlock_readBlock_witness:
  "handle_ok disk1 fh1 \<and> (0::int) \<le> 2 \<and>
   (case writeBlock 2 (Some fh1) (Some page7) disk1 of
      (rc, fh', st') \<Rightarrow>
        rc = RC_OK \<and>
        readBlock 2 fh' (Some emptyPage) st' =
          (RC_OK, map_option (\<lambda>h. h\<lparr>curPagePos := 2\<rparr>) fh', Some page7))"
  using writeBlock_readBlock [where st = disk1 and fh = fh1 and p = 2 and buf = page7 and old = emptyPage]
  by simp


text \<open>
  C5 (refinement). Seen through \<open>pages_of\<close>, the list of pages behind a handle,
  \<open>writeBlock\<close> is \<open>put_block\<close>: it replaces page \<open>p\<close> when the file has it, and
  otherwise extends the file with empty pages up to \<open>p\<close> and stores the buffer as
  the last page. The handle's page count becomes \<open>max (p + 1) n\<close>, and no other
  file and no global variable is touched.
\<close>

theorem writeBlock_refines_put_block:
  assumes "handle_ok st fh" and "0 \<le> p"
  shows "case writeBlock p (Some fh) (Some buf) st of
           (rc, fh', st') \<Rightarrow>
             rc = RC_OK \<and>
             pages_of st' (pointee fh fh') = put_block (nat p) buf (pages_of st fh) \<and>
             totalNumPages (pointee fh fh') = max (p + 1) (totalNumPages fh) \<and>
             same_but (the (mgmtInfo fh)) st st'"
  using writeBlock_ok [OF assms, of buf] by auto

theorem writeBlock_refines_put_block_witness:
  "handle_ok disk1 fh1 \<and> (0::int) \<le> 2 \<and>
   (case writeBlock 2 (Some fh1) (Some page7) disk1 of
      (rc, fh', st') \<Rightarrow>
        rc = RC_OK \<and>
        pages_of st' (pointee fh1 fh') = put_block (nat 2) page7 (pages_of disk1 fh1) \<and>
        totalNumPages (pointee fh1 fh') = max (2 + 1) (totalNumPages fh1) \<and>
        same_but (the (mgmtInfo fh1)) disk1 st')"
  using writeBlock_refines_put_block [where st = disk1 and fh = fh1 and p = 2 and buf = page7]
  by simp

text \<open>
  C8 (invariant). \<open>writeBlock\<close> of a buffer of \<open>PAGE_SIZE\<close> bytes keeps the handle
  well formed: the handle stays bound to an existing file, the file's header
  count, its number of pages and the handle's cached count agree, every page has
  \<open>PAGE_SIZE\<close> bytes, and the cursor lies in \<open>[0, totalNumPages]\<close>.
\<close>

theorem writeBlock_keeps_handle_ok:
  assumes "handle_ok st fh" and "0 \<le> p" and "length buf = PAGE_SIZE"
  shows "case writeBlock p (Some fh) (Some buf) st of
           (rc, fh', st') \<Rightarrow> rc = RC_OK \<and> handle_ok st' (pointee fh fh')"
  using writeBlock_ok [OF assms(1,2), of buf] assms(3) by auto

theorem writeBlock_keeps_handle_ok_witness:
  "handle_ok disk1 fh1 \<and> (0::int) \<le> 2 \<and> length page7 = PAGE_SIZE \<and>
   (case writeBlock 2 (Some fh1) (Some page7) disk1 of
      (rc, fh', st') \<Rightarrow> rc = RC_OK \<and> handle_ok st' (pointee fh1 fh'))"
  using writeBlock_keeps_handle_ok [where st = disk1 and fh = fh1 and p = 2 and buf = page7]
  by simp

text \<open>
  C21 (functional). \<open>appendEmptyBlock\<close> on a well-formed handle returns \<open>RC_OK\<close>,
  adds exactly one zero-filled page at the end of the file, raises the page count
  by exactly one both in the handle and in the file header, leaves the cursor on
  the new page, and keeps the handle well formed.
\<close>

theorem appendEmptyBlock_grows:
  assumes "handle_ok st fh"
  shows "case appendEmptyBlock (Some fh) st of
           (rc, fh', st') \<Rightarrow>
             rc = RC_OK \<and>
             fh' = Some (fh\<lparr>curPagePos := totalNumPages fh,
                              totalNumPages := totalNumPages fh + 1\<rparr>) \<and>
             pages_of st' (pointee fh fh') = pages_of st fh @ [emptyPage] \<and>
             map_option hdr_totNoPg (bound_file st' (pointee fh fh')) = Some (totalNumPages fh + 1) \<and>
             handle_ok st' (pointee fh fh')"
proof -
  from assms obtain fh' st' where a: "appendEmptyBlock (Some fh) st = (RC_OK, Some fh', st')"
    "fh' = fh\<lparr>curPagePos := totalNumPages fh, totalNumPages := totalNumPages fh + 1\<rparr>"
    "handle_ok st' fh'" "pages_of st' fh' = pages_of st fh @ [emptyPage]"
    by (rule appendEmptyBlock_ok)
  from a(3) have "map_option hdr_totNoPg (bound_file st' fh') = Some (totalNumPages fh')"
    by (auto simp: handle_ok_def split: option.splits)
  with a show ?thesis by simp
qed

theorem appendEmptyBlock_grows_witness:
  "handle_ok disk1 fh1 \<and>
   (case appendEmptyBlock (Some fh1) disk1 of
      (rc, fh', st') \<Rightarrow>
        rc = RC_OK \<and>
        fh' = Some (fh1\<lparr>curPagePos := totalNumPages fh1,
                          totalNumPages := totalNumPages fh1 + 1\<rparr>) \<and>
        pages_of st' (pointee fh1 fh') = pages_of disk1 fh1 @ [emptyPage] \<and>
        map_option hdr_totNoPg (bound_file st' (pointee fh1 fh')) = Some (totalNumPages fh1 + 1) \<and>
        handle_ok st' (pointee fh1 fh'))"
  using appendEmptyBlock_grows [of disk1 fh1] by simp

text \<open>
  C20 (termination, functional). \<open>ensureCapacity n\<close> on a well-formed handle
  returns, with \<open>RC_OK\<close>: its loop appends \<open>n - totalNumPages\<close> empty pages (none
  when the file already has \<open>n\<close> pages) and stops with a page count of
  \<open>max n totalNumPages\<close>; the pages that were there are unchanged.
\<close>

theorem ensureCapacity_extends:
  assumes "handle_ok st fh"
  shows "case ensureCapacity n (Some fh) st of
           (rc, fh', st') \<Rightarrow>
             rc = RC_OK \<and>
             totalNumPages (pointee fh fh') = max n (totalNumPages fh) \<and>
             pages_of st' (pointee fh fh') =
               pages_of st fh @ replicate (nat (n - totalNumPages fh)) emptyPage \<and>
             handle_ok st' (pointee fh fh')"
proof -
  from ensureCapacity_loop_ok [OF assms, of n] obtain fh' st' where
    e: "ensureCapacity_loop n fh st = (RC_OK, Some fh', st')" "handle_ok st' fh'"
      "pages_of st' fh' = pages_of st fh @ replicate (nat (n - totalNumPages fh)) emptyPage"
    by auto
  from handle_ok_total [OF e(2)] handle_ok_total [OF assms] e(3)
  have "totalNumPages fh' = max n (totalNumPages fh)"
    by auto
  with e show ?thesis
    by (simp add: ensureCapacity_def)
qed

theorem ensureCapacity_extends_witness:
  "handle_ok disk1 fh1 \<and>
   (case ensureCapacity 3 (Some fh1) disk1 of
      (rc, fh', st') \<Rightarrow>
        rc = RC_OK \<and>
        totalNumPages (pointee fh1 fh') = max 3 (totalNumPages fh1) \<and>
        pages_of st' (pointee fh1 fh') =
          pages_of disk1 fh1 @ replicate (nat (3 - totalNumPages fh1)) emptyPage \<and>
        handle_ok st' (pointee fh1 fh'))"
  using ensureCapacity_extends [of disk1 fh1 3] by simp

text \<open>
  C33 (functional). \<open>ensureCapacity n\<close> is the identity when the handle already
  counts \<open>n\<close> pages or more: handle and storage come back unchanged with \<open>RC_OK\<close>,
  so calling it twice is the same as calling it once.
\<close>

theorem ensureCapacity_idem:
  assumes "n \<le> totalNumPages fh"
  shows "ensureCapacity n (Some fh) st = (RC_OK, Some fh, st)"
  using assms by (simp add: ensureCapacity_def ensureCapacity_loop.simps [of n fh st])

theorem ensureCapacity_idem_witness:
  "(1::int) \<le> totalNumPages fh1 \<and> ensureCapacity 1 (Some fh1) disk1 = (RC_OK, Some fh1, disk1)"
  using ensureCapacity_idem [of 1 fh1 disk1] by simp


text \<open>
  C32 (functional). \<open>createPageFile\<close> of a name the system lets it write, followed
  by \<open>openPageFile\<close> of that name, succeeds twice and yields a well-formed handle
  on a file of exactly one zero-filled page, with page count 1 and the cursor on
  page 0; the module's globals are left at \<open>-1\<close>.
\<close>

theorem createPageFile_openPageFile:
  assumes "name \<notin> unwritable st"
  shows "case createPageFile (Some name) st of
           (rc, st') \<Rightarrow>
             rc = RC_OK \<and> totNoPg st' = - 1 \<and> curPgPos st' = - 1 \<and>
             (case openPageFile (Some name) (Some fh) st' of
                (rc', fh') \<Rightarrow>
                  rc' = RC_OK \<and>
                  fh' = Some (fh\<lparr>fileName := Some name, totalNumPages := 1,
                                   curPagePos := 0, mgmtInfo := Some name\<rparr>) \<and>
                  handle_ok st' (pointee fh fh') \<and>
                  pages_of st' (pointee fh fh') = [emptyPage])"
  using assms
  by (simp add: createPageFile_def initStorageManager_def openPageFile_def handle_ok_def
      bound_file_def file_ok_def pages_of_def)

theorem createPageFile_openPageFile_witness:
  "''t'' \<notin> unwritable disk0 \<and>
   (case createPageFile (Some ''t'') disk0 of
      (rc, st') \<Rightarrow>
        rc = RC_OK \<and> totNoPg st' = - 1 \<and> curPgPos st' = - 1 \<and>
        (case openPageFile (Some ''t'') (Some fh0) st' of
           (rc', fh') \<Rightarrow>
             rc' = RC_OK \<and>
             fh' = Some (fh0\<lparr>fileName := Some ''t'', totalNumPages := 1,
                               curPagePos := 0, mgmtInfo := Some ''t''\<rparr>) \<and>
             handle_ok st' (pointee fh0 fh') \<and>
             pages_of st' (pointee fh0 fh') = [emptyPage]))"
  using createPageFile_openPageFile [of "''t''" disk0 fh0] by (simp add: disk0_def)

text \<open>
  C34 (bounds). A successful \<open>writeBlock\<close> leaves the cursor one past the page it
  wrote. After writing the last page of the file the cursor therefore equals the
  page count, outside \<open>[0, totalNumPages)\<close>, and \<open>readCurrentBlock\<close> on the
  returned handle fails with \<open>RC_READ_NON_EXISTING_PAGE\<close> and reads nothing.
\<close>

theorem writeBlock_last_page_cursor:
  assumes "handle_ok st fh" and "0 < totalNumPages fh"
  shows "case writeBlock (totalNumPages fh - 1) (Some fh) (Some buf) st of
           (rc, fh', st') \<Rightarrow>
             rc = RC_OK \<and>
             curPagePos (pointee fh fh') = totalNumPages (pointee fh fh') \<and>
             readCurrentBlock fh' (Some old) st' = (RC_READ_NON_EXISTING_PAGE, fh', Some old)"
proof -
  from assms(2) have p: "0 \<le> totalNumPages fh - 1" "totalNumPages fh - 1 < totalNumPages fh"
    by simp_all
  from writeBlock_in_range [OF assms(1) p, of buf] show ?thesis
    by (auto simp: readCurrentBlock_def readBlock_def)
qed

theorem writeBlock_last_page_cursor_witness:
  "handle_ok disk1 fh1 \<and> 0 < totalNumPages fh1 \<and>
   (case writeBlock (totalNumPages fh1 - 1) (Some fh1) (Some page7) disk1 of
      (rc, fh', st') \<Rightarrow>
        rc = RC_OK \<and>
        curPagePos (pointee fh1 fh') = totalNumPages (pointee fh1 fh') \<and>
        readCurrentBlock fh' (Some emptyPage) st' = (RC_READ_NON_EXISTING_PAGE, fh', Some emptyPage))"
  using writeBlock_last_page_cursor [where st = disk1 and fh = fh1 and buf = page7 and old = emptyPage]
  by simp

text \<open>
  C35 (error). Reading a page number that is negative or not below the handle's
  page count fails with \<open>RC_READ_NON_EXISTING_PAGE\<close>; writing a negative page
  number to a well-formed handle fails with \<open>RC_WRITE_FAILED\<close>. In both cases the
  handle, the buffer and the storage are exactly as before.
\<close>

theorem block_out_of_range:
  assumes "p < 0 \<or> totalNumPages fh \<le> p"
  shows "readBlock p (Some fh) (Some buf) st = (RC_READ_NON_EXISTING_PAGE, Some fh, Some buf) \<and>
         (p < 0 \<and> handle_ok st fh \<longrightarrow>
            writeBlock p (Some fh) (Some buf) st = (RC_WRITE_FAILED, Some fh, st))"
proof -
  have "writeBlock p (Some fh) (Some buf) st = (RC_WRITE_FAILED, Some fh, st)"
    if "p < 0" "handle_ok st fh"
  proof -
    from that(2) obtain name f where "mgmtInfo fh = Some name" "files st name = Some f"
      "totalNumPages fh = int (length (blocks f))"
      by (rule handle_okE)
    with that(1) show ?thesis
      by (simp add: writeBlock_def fseek_page_def)
  qed
  with assms show ?thesis
    by (auto simp: readBlock_def)
qed

theorem block_out_of_range_witness:
  "((- 1 :: int) < 0 \<or> totalNumPages fh1 \<le> - 1) \<and>
   readBlock (- 1) (Some fh1) (Some page7) disk1 = (RC_READ_NON_EXISTING_PAGE, Some fh1, Some page7) \<and>
   writeBlock (- 1) (Some fh1) (Some page7) disk1 = (RC_WRITE_FAILED, Some fh1, disk1)"
  using block_out_of_range [of "- 1" fh1 page7 disk1] by simp

end
