(* ===== verification/Buffer_Mgr.thy ===== *)
theory Buffer_Mgr
  imports Storage_Mgr
begin

text \<open>
  The buffer pool of \<^verbatim>\<open>buffer_mgr.c\<close>: a fixed number of frames linked into a
  doubly linked list (a ring for CLOCK), pinning with FIFO, LRU and CLOCK
  replacement, dirty tracking and flushing.

  \<^item> The frames that \<^verbatim>\<open>initBufferPool\<close> allocates live in an arena, the list
    \<open>frames\<close> of the management data; a \<^verbatim>\<open>Frame*\<close> is an index into it and
    \<open>None\<close> is \<^verbatim>\<open>NULL\<close>. The page buffers live in a second arena \<open>bufs\<close>, and
    the \<open>data\<close> field of a page handle is an index into it, so that a client
    handle and a frame that point to the same buffer share its bytes.
  \<^item> An operation returns an \<open>option\<close>: \<open>None\<close> means that the C function does
    not return, because it dereferences \<^verbatim>\<open>NULL\<close> or an address outside the
    arena, or because its walk along \<open>prev\<close> never ends. \<open>frame_at\<close> and
    \<open>frame_upd\<close> are the reads and writes through a frame pointer.
  \<^item> Loops that run \<open>numPages\<close> times are recursions on that count; the victim
    walk of FIFO and LRU, which runs until \<open>prev\<close> is \<^verbatim>\<open>NULL\<close>, takes as fuel the
    number of frames plus one, which is enough on every list without a cycle.
  \<^item> The statements of the C code are kept in their order, each reading the
    fields it uses from the state the statements before it left.
\<close>

subsection \<open>State\<close>

datatype ReplacementStrategy = RS_FIFO | RS_LRU | RS_CLOCK

record BM_PageHandle =
  pageNum :: int
  data :: "nat option"

record Frame =
  dirtyBit :: bool
  fixBit :: int
  "next" :: "nat option"
  prev :: "nat option"
  page :: BM_PageHandle
  seq :: int
  refBit :: int

record BM_MgmtData =
  frameContents :: "int list"
  dirtyFlags :: "bool list"
  fixCounts :: "int list"
  refBits :: "int list"
  numReadIO :: int
  numWriteIO :: int
  clkPtr :: "nat option"
  head :: "nat option"
  tail :: "nat option"
  fHandle :: SM_FileHandle
  frames :: "Frame list"
  bufs :: "page list"

record BM_BufferPool =
  pageFile :: "string option"
  numPages :: int
  strategy :: ReplacementStrategy
  mgmtData :: BM_MgmtData

subsection \<open>Reads and writes through pointers\<close>

definition frame_at :: "BM_MgmtData \<Rightarrow> nat option \<Rightarrow> Frame option" where
  "frame_at md p =
     (case p of
        None \<Rightarrow> None
      | Some a \<Rightarrow> if a < length (frames md) then Some (frames md ! a) else None)"

definition frame_upd :: "nat option \<Rightarrow> (Frame \<Rightarrow> Frame) \<Rightarrow> BM_MgmtData \<Rightarrow> BM_MgmtData option" where
  "frame_upd p f md =
     (case p of
        None \<Rightarrow> None
      | Some a \<Rightarrow>
          if a < length (frames md)
          then Some (md\<lparr>frames := (frames md)[a := f (frames md ! a)]\<rparr>)
          else None)"

definition buf_arg :: "BM_MgmtData \<Rightarrow> nat option \<Rightarrow> page option option" where
  "buf_arg md p =
     (case p of
        None \<Rightarrow> Some None
      | Some d \<Rightarrow> if d < length (bufs md) then Some (Some (bufs md ! d)) else None)"

definition buf_store :: "nat option \<Rightarrow> page option \<Rightarrow> BM_MgmtData \<Rightarrow> BM_MgmtData" where
  "buf_store p v md =
     (case p of
        None \<Rightarrow> md
      | Some d \<Rightarrow> (case v of None \<Rightarrow> md | Some b \<Rightarrow> md\<lparr>bufs := (bufs md)[d := b]\<rparr>))"

definition bm_readBlock :: "int \<Rightarrow> nat option \<Rightarrow> BM_MgmtData \<Rightarrow> storage \<Rightarrow> BM_MgmtData option" where
  "bm_readBlock pn d md st =
     do {
       memPage \<leftarrow> buf_arg md d;
       case readBlock pn (Some (fHandle md)) memPage st of
         (rc, fh, memPage') \<Rightarrow>
           Some (buf_store d memPage' (md\<lparr>fHandle := pointee (fHandle md) fh\<rparr>))
     }"

definition bm_writeBlock ::
  "int \<Rightarrow> nat option \<Rightarrow> BM_MgmtData \<Rightarrow> storage \<Rightarrow> (BM_MgmtData \<times> storage) option" where
  "bm_writeBlock pn d md st =
     do {
       memPage \<leftarrow> buf_arg md d;
       case writeBlock pn (Some (fHandle md)) memPage st of
         (rc, fh, st') \<Rightarrow> Some (md\<lparr>fHandle := pointee (fHandle md) fh\<rparr>, st')
     }"

subsection \<open>Creating the pool\<close>

definition raw_frame :: Frame where
  "raw_frame = \<lparr>dirtyBit = False, fixBit = 0, next = None, prev = None,
                 page = \<lparr>pageNum = 0, data = None\<rparr>, seq = 0, refBit = 0\<rparr>"

definition raw_mgmtData :: "nat \<Rightarrow> BM_MgmtData" where
  "raw_mgmtData n =
     \<lparr>frameContents = replicate n 0, dirtyFlags = replicate n False,
      fixCounts = replicate n 0, refBits = replicate n 0,
      numReadIO = 0, numWriteIO = 0, clkPtr = None, head = None, tail = None,
      fHandle = \<lparr>fileName = None, totalNumPages = 0, curPagePos = 0, mgmtInfo = None\<rparr>,
      frames = [], bufs = []\<rparr>"

definition malloc_frame :: "BM_MgmtData \<Rightarrow> nat option \<times> BM_MgmtData" where
  "malloc_frame md = (Some (length (frames md)), md\<lparr>frames := frames md @ [raw_frame]\<rparr>)"

definition activateFrames ::
  "nat option \<Rightarrow> BM_BufferPool option \<Rightarrow> int \<Rightarrow> (RC \<times> BM_BufferPool option) option" where
  "activateFrames frame bm i =
     (case frame of
        None \<Rightarrow> Some (RC_BM_NULL_FRAME, bm)
      | Some a \<Rightarrow>
          (case bm of
             None \<Rightarrow> Some (RC_BM_NULL_BUFFER, bm)
           | Some b \<Rightarrow>
               do {
                 let md = mgmtData b;
                 let d = length (bufs md);
                 let md = md\<lparr>bufs := bufs md @ [emptyPage]\<rparr>;
                 md \<leftarrow> frame_upd frame
                        (\<lambda>f. f\<lparr>dirtyBit := False, fixBit := 0, next := None, prev := None,
                               page := \<lparr>pageNum = - 1, data = Some d\<rparr>, seq := i,
                               refBit := 0\<rparr>) md;
                 let head0 = head md;
                 md \<leftarrow> (if head0 \<noteq> None \<and> i \<noteq> 0 then
                          do {
                            let md = md\<lparr>head := frame\<rparr>;
                            md \<leftarrow> frame_upd frame (\<lambda>f. f\<lparr>next := head0\<rparr>) md;
                            frame_upd head0 (\<lambda>f. f\<lparr>prev := frame\<rparr>) md
                          }
                        else Some (md\<lparr>head := frame, tail := frame\<rparr>));
                 Some (RC_OK, Some (b\<lparr>mgmtData := md\<rparr>))
               }))"

function initFrames_loop :: "int \<Rightarrow> int \<Rightarrow> BM_BufferPool \<Rightarrow> BM_BufferPool option" where
  "initFrames_loop i numPgs b =
     (if i < numPgs then
        (case malloc_frame (mgmtData b) of
           (frame, md) \<Rightarrow>
             do {
               (rc, bm) \<leftarrow> activateFrames frame (Some (b\<lparr>mgmtData := md\<rparr>)) i;
               initFrames_loop (i + 1) numPgs (pointee b bm)
             })
      else Some b)"
  by pat_completeness auto
termination
  by (relation "measure (\<lambda>(i, numPgs, b). nat (numPgs - i))") auto

declare initFrames_loop.simps [simp del]

definition initBufferPool ::
  "BM_BufferPool option \<Rightarrow> string option \<Rightarrow> int \<Rightarrow> ReplacementStrategy \<Rightarrow> storage
     \<Rightarrow> (RC \<times> BM_BufferPool option) option" where
  "initBufferPool bm pageFileName numPgs strat st =
     (case pageFileName of
        None \<Rightarrow> Some (RC_BM_NULL_PGFILE, bm)
      | Some name \<Rightarrow>
          (case bm of
             None \<Rightarrow> Some (RC_BM_NULL_BUFFER, bm)
           | Some b \<Rightarrow>
               do {
                 let b = b\<lparr>pageFile := Some name, numPages := numPgs, strategy := strat\<rparr>;
                 let md = raw_mgmtData (nat numPgs);
                 let md = (case openPageFile (pageFile b) (Some (fHandle md)) st of
                             (rc, fh) \<Rightarrow> md\<lparr>fHandle := pointee (fHandle md) fh\<rparr>);
                 b \<leftarrow> initFrames_loop 0 numPgs (b\<lparr>mgmtData := md\<rparr>);
                 let md = mgmtData b;
                 md \<leftarrow> (if strategy b = RS_CLOCK then
                          do {
                            let md = md\<lparr>clkPtr := head md\<rparr>;
                            md \<leftarrow> frame_upd (tail md) (\<lambda>f. f\<lparr>next := head md\<rparr>) md;
                            frame_upd (head md) (\<lambda>f. f\<lparr>prev := tail md\<rparr>) md
                          }
                        else Some md);
                 Some (RC_OK, Some (b\<lparr>mgmtData := md\<rparr>))
               }))"

subsection \<open>Finding a page, marking, forcing, unpinning\<close>

fun findPage :: "BM_MgmtData \<Rightarrow> nat \<Rightarrow> nat option \<Rightarrow> int \<Rightarrow> nat option option" where
  "findPage md 0 frame pn = Some None"
| "findPage md (Suc n) frame pn =
     do {
       f \<leftarrow> frame_at md frame;
       if pageNum (page f) = pn then Some frame else findPage md n (next f) pn
     }"

definition markDirty ::
  "BM_BufferPool option \<Rightarrow> BM_PageHandle option \<Rightarrow> (RC \<times> BM_BufferPool option) option" where
  "markDirty bm pg =
     (case pg of
        None \<Rightarrow> Some (RC_BM_NULL_PAGE, bm)
      | Some h \<Rightarrow>
          (case bm of
             None \<Rightarrow> Some (RC_BM_NULL_BUFFER, bm)
           | Some b \<Rightarrow>
               do {
                 let md = mgmtData b;
                 let pgCnt = numPages b;
                 frame \<leftarrow> findPage md (nat pgCnt) (head md) (pageNum h);
                 md \<leftarrow> (case frame of
                          None \<Rightarrow> Some md
                        | Some a \<Rightarrow> frame_upd frame (\<lambda>f. f\<lparr>dirtyBit := True\<rparr>) md);
                 Some (RC_OK, Some (b\<lparr>mgmtData := md\<rparr>))
               }))"

definition forcePage ::
  "BM_BufferPool option \<Rightarrow> BM_PageHandle option \<Rightarrow> storage
     \<Rightarrow> (RC \<times> BM_BufferPool option \<times> storage) option" where
  "forcePage bm pg st =
     (case pg of
        None \<Rightarrow> Some (RC_BM_NULL_PAGE, bm, st)
      | Some h \<Rightarrow>
          (case bm of
             None \<Rightarrow> Some (RC_BM_NULL_BUFFER, bm, st)
           | Some b \<Rightarrow>
               do {
                 let md = mgmtData b;
                 (md, st) \<leftarrow> bm_writeBlock (pageNum h) (data h) md st;
                 let md = md\<lparr>numWriteIO := numWriteIO md + 1\<rparr>;
                 Some (RC_OK, Some (b\<lparr>mgmtData := md\<rparr>), st)
               }))"

definition unpinPage ::
  "BM_BufferPool option \<Rightarrow> BM_PageHandle option \<Rightarrow> storage
     \<Rightarrow> (RC \<times> BM_BufferPool option \<times> storage) option" where
  "unpinPage bm pg st =
     (case pg of
        None \<Rightarrow> Some (RC_BM_NULL_PAGE, bm, st)
      | Some h \<Rightarrow>
          (case bm of
             None \<Rightarrow> Some (RC_BM_NULL_BUFFER, bm, st)
           | Some b \<Rightarrow>
               do {
                 let md = mgmtData b;
                 let pgCnt = numPages b;
                 frame \<leftarrow> findPage md (nat pgCnt) (head md) (pageNum h);
                 (case frame of
                    None \<Rightarrow> Some (RC_OK, bm, st)
                  | Some a \<Rightarrow>
                      do {
                        md \<leftarrow> frame_upd frame (\<lambda>f. f\<lparr>fixBit := fixBit f - 1\<rparr>) md;
                        f \<leftarrow> frame_at md frame;
                        if fixBit f < 0 then Some (RC_WRITE_FAILED, Some (b\<lparr>mgmtData := md\<rparr>), st)
                        else if dirtyBit f then
                          do {
                            md \<leftarrow> frame_upd frame (\<lambda>f. f\<lparr>page := (page f)\<lparr>data := data h\<rparr>\<rparr>) md;
                            (rc, bm', st) \<leftarrow> forcePage (Some (b\<lparr>mgmtData := md\<rparr>)) pg st;
                            Some (RC_OK, bm', st)
                          }
                        else Some (RC_OK, Some (b\<lparr>mgmtData := md\<rparr>), st)
                      })
               }))"

subsection \<open>Flushing and shutting down\<close>

fun forceFlush_loop ::
  "nat \<Rightarrow> nat option \<Rightarrow> BM_MgmtData \<Rightarrow> storage \<Rightarrow> (BM_MgmtData \<times> storage) option" where
  "forceFlush_loop 0 frame md st = Some (md, st)"
| "forceFlush_loop (Suc n) frame md st =
     do {
       f \<leftarrow> frame_at md frame;
       (md, st) \<leftarrow>
         (if dirtyBit f \<and> fixBit f = 0 then
            do {
              (md, st) \<leftarrow> bm_writeBlock (pageNum (page f)) (data (page f)) md st;
              md \<leftarrow> frame_upd frame (\<lambda>f. f\<lparr>dirtyBit := False\<rparr>) md;
              Some (md, st)
            }
          else Some (md, st));
       f \<leftarrow> frame_at md frame;
       forceFlush_loop n (next f) md st
     }"

definition forceFlushPool ::
  "BM_BufferPool option \<Rightarrow> storage \<Rightarrow> (RC \<times> BM_BufferPool option \<times> storage) option" where
  "forceFlushPool bm st =
     (case bm of
        None \<Rightarrow> Some (RC_BM_NULL_BUFFER, bm, st)
      | Some b \<Rightarrow>
          do {
            let md = mgmtData b;
            let pgCnt = numPages b;
            (md, st) \<leftarrow> forceFlush_loop (nat pgCnt) (head md) md st;
            Some (RC_OK, Some (b\<lparr>mgmtData := md\<rparr>), st)
          })"

fun shutdown_loop ::
  "nat \<Rightarrow> nat option \<Rightarrow> BM_BufferPool \<Rightarrow> storage \<Rightarrow> (RC \<times> BM_BufferPool \<times> storage) option" where
  "shutdown_loop 0 frame b st = Some (RC_OK, b, st)"
| "shutdown_loop (Suc n) frame b st =
     do {
       f \<leftarrow> frame_at (mgmtData b) frame;
       if fixBit f \<noteq> 0 then Some (RC_WRITE_FAILED, b, st)
       else
         do {
           (b, st) \<leftarrow>
             (if dirtyBit f then
                do {
                  (rc, bm', st) \<leftarrow> forceFlushPool (Some b) st;
                  Some (pointee b bm', st)
                }
              else Some (b, st));
           f \<leftarrow> frame_at (mgmtData b) frame;
           shutdown_loop n (next f) b st
         }
     }"

fun free_loop :: "nat \<Rightarrow> nat option \<Rightarrow> BM_MgmtData \<Rightarrow> unit option" where
  "free_loop 0 frame md = Some ()"
| "free_loop (Suc n) frame md =
     do {
       f \<leftarrow> frame_at md frame;
       free_loop n (next f) md
     }"

definition shutdownBufferPool ::
  "BM_BufferPool option \<Rightarrow> storage \<Rightarrow> (RC \<times> BM_BufferPool option \<times> storage) option" where
  "shutdownBufferPool bm st =
     (case bm of
        None \<Rightarrow> Some (RC_BM_NULL_BUFFER, bm, st)
      | Some b \<Rightarrow>
          do {
            let pgCnt = numPages b;
            (rc, b, st) \<leftarrow> shutdown_loop (nat pgCnt) (head (mgmtData b)) b st;
            if rc \<noteq> RC_OK then Some (rc, Some b, st)
            else
              do {
                let md = mgmtData b;
                free_loop (nat pgCnt) (head md) md;
                let md = md\<lparr>frames := [], bufs := [], frameContents := [], dirtyFlags := [],
                              fixCounts := [], refBits := []\<rparr>;
                Some (RC_OK, Some (b\<lparr>mgmtData := md\<rparr>), st)
              }
          })"

subsection \<open>Pinning\<close>

definition moveToHead :: "nat option \<Rightarrow> BM_MgmtData \<Rightarrow> BM_MgmtData option" where
  "moveToHead frame md =
     do {
       let oldHead = head md;
       md \<leftarrow> (if frame = tail md then
                do {
                  f \<leftarrow> frame_at md frame;
                  md \<leftarrow> frame_upd (prev f) (\<lambda>g. g\<lparr>next := None\<rparr>) md;
                  f \<leftarrow> frame_at md frame;
                  let md = md\<lparr>tail := prev f\<rparr>;
                  frame_upd frame (\<lambda>g. g\<lparr>prev := None\<rparr>) md
                }
              else
                do {
                  f \<leftarrow> frame_at md frame;
                  md \<leftarrow> frame_upd (prev f) (\<lambda>g. g\<lparr>next := next f\<rparr>) md;
                  f \<leftarrow> frame_at md frame;
                  frame_upd (next f) (\<lambda>g. g\<lparr>prev := prev f\<rparr>) md
                });
       let md = md\<lparr>head := frame\<rparr>;
       md \<leftarrow> frame_upd frame (\<lambda>g. g\<lparr>next := oldHead\<rparr>) md;
       frame_upd oldHead (\<lambda>g. g\<lparr>prev := frame\<rparr>) md
     }"

fun findVictim :: "BM_MgmtData \<Rightarrow> nat \<Rightarrow> nat option \<Rightarrow> nat option option" where
  "findVictim md 0 frame = None"
| "findVictim md (Suc n) frame =
     do {
       f \<leftarrow> frame_at md frame;
       if prev f \<noteq> None then
         (if fixBit f = 0 then Some frame else findVictim md n (prev f))
       else Some frame
     }"

fun clockSweep :: "nat \<Rightarrow> nat option \<Rightarrow> BM_MgmtData \<Rightarrow> (nat option \<times> BM_MgmtData) option" where
  "clockSweep 0 frame md = Some (frame, md)"
| "clockSweep (Suc n) frame md =
     do {
       f \<leftarrow> frame_at md frame;
       if fixBit f = 0 \<and> refBit f = 0 then Some (frame, md)
       else
         do {
           md \<leftarrow> frame_upd frame (\<lambda>g. g\<lparr>refBit := 0\<rparr>) md;
           f \<leftarrow> frame_at md frame;
           clockSweep n (next f) md
         }
     }"

definition pinPage_hit ::
  "BM_BufferPool \<Rightarrow> BM_PageHandle \<Rightarrow> nat option
     \<Rightarrow> (RC \<times> BM_BufferPool option \<times> BM_PageHandle option) option" where
  "pinPage_hit b h frame =
     do {
       let md = mgmtData b;
       md \<leftarrow> frame_upd frame (\<lambda>f. f\<lparr>fixBit := fixBit f + 1\<rparr>) md;
       md \<leftarrow> frame_upd frame (\<lambda>f. f\<lparr>refBit := 1\<rparr>) md;
       f \<leftarrow> frame_at md frame;
       let h = h\<lparr>pageNum := pageNum (page f)\<rparr>;
       let h = h\<lparr>data := data (page f)\<rparr>;
       md \<leftarrow> (if strategy b = RS_LRU then moveToHead frame md
              else if strategy b = RS_CLOCK then
                do {
                  f \<leftarrow> frame_at md frame;
                  Some (md\<lparr>clkPtr := next f\<rparr>)
                }
              else Some md);
       Some (RC_OK, Some (b\<lparr>mgmtData := md\<rparr>), Some h)
     }"

definition pinPage_replace ::
  "BM_BufferPool \<Rightarrow> int \<Rightarrow> storage \<Rightarrow> (nat option \<times> BM_MgmtData) option" where
  "pinPage_replace b pn st =
     do {
       let md = mgmtData b;
       frame \<leftarrow> findVictim md (Suc (length (frames md))) (tail md);
       f \<leftarrow> frame_at md frame;
       md \<leftarrow> bm_readBlock pn (data (page f)) md st;
       md \<leftarrow> frame_upd frame (\<lambda>f. f\<lparr>fixBit := fixBit f + 1\<rparr>) md;
       let md = md\<lparr>numReadIO := numReadIO md + 1\<rparr>;
       md \<leftarrow> moveToHead frame md;
       Some (frame, md)
     }"

definition pinPage_clock ::
  "BM_BufferPool \<Rightarrow> int \<Rightarrow> storage \<Rightarrow> (nat option \<times> BM_MgmtData) option" where
  "pinPage_clock b pn st =
     do {
       let md = mgmtData b;
       let pgCnt = numPages b;
       (frame, md) \<leftarrow> clockSweep (nat pgCnt) (clkPtr md) md;
       f \<leftarrow> frame_at md frame;
       let md = md\<lparr>clkPtr := next f\<rparr>;
       md \<leftarrow> bm_readBlock pn (data (page f)) md st;
       md \<leftarrow> frame_upd frame (\<lambda>f. f\<lparr>fixBit := fixBit f + 1\<rparr>) md;
       md \<leftarrow> frame_upd frame (\<lambda>f. f\<lparr>refBit := 1\<rparr>) md;
       let md = md\<lparr>numReadIO := numReadIO md + 1\<rparr>;
       Some (frame, md)
     }"

definition pinPage ::
  "BM_BufferPool option \<Rightarrow> BM_PageHandle option \<Rightarrow> int \<Rightarrow> storage
     \<Rightarrow> (RC \<times> BM_BufferPool option \<times> BM_PageHandle option) option" where
  "pinPage bm pg pn st =
     (case pg of
        None \<Rightarrow> Some (RC_BM_NULL_PAGE, bm, pg)
      | Some h \<Rightarrow>
          (case bm of
             None \<Rightarrow> Some (RC_BM_NULL_BUFFER, bm, pg)
           | Some b \<Rightarrow>
               do {
                 let md = mgmtData b;
                 let pgCnt = numPages b;
                 found \<leftarrow> findPage md (nat pgCnt) (head md) pn;
                 (case found of
                    Some a \<Rightarrow> pinPage_hit b h found
                  | None \<Rightarrow>
                      do {
                        (frame, md) \<leftarrow>
                          (if strategy b = RS_FIFO \<or> strategy b = RS_LRU
                           then pinPage_replace b pn st
                           else pinPage_clock b pn st);
                        md \<leftarrow> frame_upd frame (\<lambda>f. f\<lparr>page := (page f)\<lparr>pageNum := pn\<rparr>\<rparr>) md;
                        let h = h\<lparr>pageNum := pn\<rparr>;
                        f \<leftarrow> frame_at md frame;
                        let h = h\<lparr>data := data (page f)\<rparr>;
                        Some (RC_OK, Some (b\<lparr>mgmtData := md\<rparr>), Some h)
                      })
               }))"

subsection \<open>Statistics\<close>

fun report_seq_inner ::
  "(Frame \<Rightarrow> 'a) \<Rightarrow> BM_MgmtData \<Rightarrow> int \<Rightarrow> nat \<Rightarrow> nat option \<Rightarrow> 'a list \<Rightarrow> 'a list option" where
  "report_seq_inner sel md i 0 frame arr = Some arr"
| "report_seq_inner sel md i (Suc n) frame arr =
     do {
       f \<leftarrow> frame_at md frame;
       report_seq_inner sel md i n (next f) (if seq f = i then arr[nat i := sel f] else arr)
     }"

fun report_seq ::
  "(Frame \<Rightarrow> 'a) \<Rightarrow> BM_MgmtData \<Rightarrow> nat \<Rightarrow> int \<Rightarrow> nat \<Rightarrow> 'a list \<Rightarrow> 'a list option" where
  "report_seq sel md pgCnt i 0 arr = Some arr"
| "report_seq sel md pgCnt i (Suc n) arr =
     do {
       arr \<leftarrow> report_seq_inner sel md i pgCnt (head md) arr;
       report_seq sel md pgCnt (i + 1) n arr
     }"

fun report_walk ::
  "(Frame \<Rightarrow> 'a) \<Rightarrow> BM_MgmtData \<Rightarrow> int \<Rightarrow> nat \<Rightarrow> nat option \<Rightarrow> 'a list \<Rightarrow> 'a list option" where
  "report_walk sel md i 0 frame arr = Some arr"
| "report_walk sel md i (Suc n) frame arr =
     do {
       f \<leftarrow> frame_at md frame;
       report_walk sel md (i + 1) n (next f) (arr[nat i := sel f])
     }"

definition report :: "(Frame \<Rightarrow> 'a) \<Rightarrow> BM_BufferPool \<Rightarrow> 'a list \<Rightarrow> 'a list option" where
  "report sel b arr =
     (let md = mgmtData b; pgCnt = numPages b in
      if strategy b = RS_FIFO \<or> strategy b = RS_LRU
      then report_seq sel md (nat pgCnt) 0 (nat pgCnt) arr
      else report_walk sel md 0 (nat pgCnt) (head md) arr)"

definition getFrameContents ::
  "BM_BufferPool option \<Rightarrow> ((RC + int list) \<times> BM_BufferPool option) option" where
  "getFrameContents bm =
     (case bm of
        None \<Rightarrow> Some (Inl RC_BM_NULL_BUFFER, bm)
      | Some b \<Rightarrow>
          do {
            arr \<leftarrow> report (\<lambda>f. pageNum (page f)) b (frameContents (mgmtData b));
            Some (Inr arr, Some (b\<lparr>mgmtData := (mgmtData b)\<lparr>frameContents := arr\<rparr>\<rparr>))
          })"

definition getDirtyFlags ::
  "BM_BufferPool option \<Rightarrow> ((RC + bool list) \<times> BM_BufferPool option) option" where
  "getDirtyFlags bm =
     (case bm of
        None \<Rightarrow> Some (Inl RC_BM_NULL_BUFFER, bm)
      | Some b \<Rightarrow>
          do {
            arr \<leftarrow> report dirtyBit b (dirtyFlags (mgmtData b));
            Some (Inr arr, Some (b\<lparr>mgmtData := (mgmtData b)\<lparr>dirtyFlags := arr\<rparr>\<rparr>))
          })"

definition getFixCounts ::
  "BM_BufferPool option \<Rightarrow> ((RC + int list) \<times> BM_BufferPool option) option" where
  "getFixCounts bm =
     (case bm of
        None \<Rightarrow> Some (Inl RC_BM_NULL_BUFFER, bm)
      | Some b \<Rightarrow>
          do {
            arr \<leftarrow> report fixBit b (fixCounts (mgmtData b));
            Some (Inr arr, Some (b\<lparr>mgmtData := (mgmtData b)\<lparr>fixCounts := arr\<rparr>\<rparr>))
          })"

definition getRefBits ::
  "BM_BufferPool option \<Rightarrow> ((RC + int list) \<times> BM_BufferPool option) option" where
  "getRefBits bm =
     (case bm of
        None \<Rightarrow> Some (Inl RC_BM_NULL_BUFFER, bm)
      | Some b \<Rightarrow>
          do {
            let md = mgmtData b;
            arr \<leftarrow> report_walk refBit md 0 (nat (numPages b)) (head md) (refBits md);
            Some (Inr arr, Some (b\<lparr>mgmtData := md\<lparr>refBits := arr\<rparr>\<rparr>))
          })"

definition getNumReadIO :: "BM_BufferPool option \<Rightarrow> RC + int" where
  "getNumReadIO bm =
     (case bm of None \<Rightarrow> Inl RC_BM_NULL_BUFFER | Some b \<Rightarrow> Inr (numReadIO (mgmtData b)))"

definition getNumWriteIO :: "BM_BufferPool option \<Rightarrow> RC + int" where
  "getNumWriteIO bm =
     (case bm of None \<Rightarrow> Inl RC_BM_NULL_BUFFER | Some b \<Rightarrow> Inr (numWriteIO (mgmtData b)))"

lemmas [bm_defs] =
  activateFrames_def initBufferPool_def markDirty_def forcePage_def unpinPage_def
  forceFlushPool_def shutdownBufferPool_def moveToHead_def pinPage_hit_def
  pinPage_replace_def pinPage_clock_def pinPage_def report_def getFrameContents_def
  getDirtyFlags_def getFixCounts_def getRefBits_def getNumReadIO_def getNumWriteIO_def
  bm_readBlock_def bm_writeBlock_def malloc_frame_def raw_frame_def raw_mgmtData_def

subsection \<open>Pointer reads and writes: evaluation rules\<close>

lemma frame_at_None [simp]: "frame_at md None = None"
  by (simp add: frame_at_def)

lemma frame_at_Some [simp]:
  "frame_at md (Some a) = (if a < length (frames md) then Some (frames md ! a) else None)"
  by (simp add: frame_at_def)

lemma frame_upd_None [simp]: "frame_upd None f md = None"
  by (simp add: frame_upd_def)

lemma frame_upd_Some [simp]:
  "frame_upd (Some a) f md =
     (if a < length (frames md)
      then Some (md\<lparr>frames := (frames md)[a := f (frames md ! a)]\<rparr>) else None)"
  by (simp add: frame_upd_def)

lemma frame_at_eq_Some:
  "frame_at md p = Some f \<longleftrightarrow> (\<exists>a. p = Some a \<and> a < length (frames md) \<and> f = frames md ! a)"
  by (cases p) auto

lemma frame_upd_eq_Some:
  "frame_upd p f md = Some md' \<longleftrightarrow>
     (\<exists>a. p = Some a \<and> a < length (frames md) \<and>
          md' = md\<lparr>frames := (frames md)[a := f (frames md ! a)]\<rparr>)"
  by (cases p) auto

lemma buf_arg_simps [simp]:
  "buf_arg md None = Some None"
  "buf_arg md (Some d) = (if d < length (bufs md) then Some (Some (bufs md ! d)) else None)"
  by (simp_all add: buf_arg_def)

lemma buf_store_simps [simp]:
  "buf_store None v md = md"
  "buf_store p None md = md"
  "buf_store (Some d) (Some pg) md = md\<lparr>bufs := (bufs md)[d := pg]\<rparr>"
  by (simp_all add: buf_store_def split: option.splits)

text \<open>Loops that count down from a numeral: one unfolding per iteration.\<close>

lemma findPage_unfold:
  "findPage md n frame pn =
     (if n = 0 then Some None
      else do {
        f \<leftarrow> frame_at md frame;
        if pageNum (page f) = pn then Some frame else findPage md (n - 1) (next f) pn
      })"
  by (cases n) (simp_all cong: if_cong)

lemma findVictim_unfold:
  "findVictim md n frame =
     (if n = 0 then None
      else do {
        f \<leftarrow> frame_at md frame;
        if prev f \<noteq> None then (if fixBit f = 0 then Some frame else findVictim md (n - 1) (prev f))
        else Some frame
      })"
  by (cases n) (simp_all cong: if_cong)

lemma clockSweep_unfold:
  "clockSweep n frame md =
     (if n = 0 then Some (frame, md)
      else do {
        f \<leftarrow> frame_at md frame;
        if fixBit f = 0 \<and> refBit f = 0 then Some (frame, md)
        else do {
          md \<leftarrow> frame_upd frame (\<lambda>g. g\<lparr>refBit := 0\<rparr>) md;
          f \<leftarrow> frame_at md frame;
          clockSweep (n - 1) (next f) md
        }
      })"
  by (cases n) (simp_all cong: if_cong)

end
