(* ===== verification/Frame_List.thy ===== *)
theory Frame_List
  imports Buffer_Mgr
begin

text \<open>
  The doubly linked frame list of \<^verbatim>\<open>buffer_mgr.c\<close>, read off the arena of
  frames: \<open>links fs xs q\<close> says that the frames at the addresses \<open>xs\<close> are
  chained in this order through \<^verbatim>\<open>next\<close>, the last one pointing to \<open>q\<close>, and
  that every frame but the first points back through \<^verbatim>\<open>prev\<close>. \<open>frame_list\<close>
  adds \<^verbatim>\<open>head\<close> and \<^verbatim>\<open>tail\<close> and that the list holds every frame once;
  \<open>frame_list_strict\<close> adds \<^verbatim>\<open>head->prev == NULL\<close>, which \<^verbatim>\<open>initBufferPool\<close>
  establishes and which the relinking code of \<^verbatim>\<open>pinPage\<close> restores only when
  it moves the tail.

  The lemmas compute the walks of the code over such a list (the page
  search, the victim search from the tail, the loops of the statistics
  functions) and show what the relinking of \<^verbatim>\<open>pinPage\<close> does to the order.
\<close>

fun links :: "Frame list \<Rightarrow> nat list \<Rightarrow> nat option \<Rightarrow> bool" where
  "links fs [] q = True"
| "links fs [a] q = (next (fs ! a) = q)"
| "links fs (a # b # xs) q =
     (next (fs ! a) = Some b \<and> prev (fs ! b) = Some a \<and> links fs (b # xs) q)"

definition start :: "nat list \<Rightarrow> nat option \<Rightarrow> nat option" where
  "start xs q = (case xs of [] \<Rightarrow> q | a # _ \<Rightarrow> Some a)"

definition in_arena :: "Frame list \<Rightarrow> nat list \<Rightarrow> bool" where
  "in_arena fs xs = list_all (\<lambda>a. a < length fs) xs"

definition frame_list :: "BM_MgmtData \<Rightarrow> nat list \<Rightarrow> bool" where
  "frame_list md xs \<longleftrightarrow>
     xs \<noteq> [] \<and> distinct xs \<and> length xs = length (frames md) \<and> in_arena (frames md) xs \<and>
     head md = Some (hd xs) \<and> tail md = Some (last xs) \<and> links (frames md) xs None"

definition frame_list_strict :: "BM_MgmtData \<Rightarrow> nat list \<Rightarrow> bool" where
  "frame_list_strict md xs \<longleftrightarrow> frame_list md xs \<and> prev (frames md ! hd xs) = None"

definition unpinned :: "Frame list \<Rightarrow> nat \<Rightarrow> bool" where
  "unpinned fs a \<longleftrightarrow> fixBit (fs ! a) = 0"

definition victim_of :: "Frame list \<Rightarrow> nat list \<Rightarrow> nat" where
  "victim_of fs xs =
     (case find (unpinned fs) (rev (tl xs)) of Some a \<Rightarrow> a | None \<Rightarrow> hd xs)"

definition unlinked :: "Frame \<Rightarrow> Frame" where
  "unlinked f = f\<lparr>next := None, prev := None\<rparr>"

definition strip :: "BM_MgmtData \<Rightarrow> BM_MgmtData" where
  "strip md = md\<lparr>frames := map unlinked (frames md), head := None, tail := None\<rparr>"

definition holds_page :: "Frame list \<Rightarrow> int \<Rightarrow> nat \<Rightarrow> bool" where
  "holds_page fs pn a \<longleftrightarrow> pageNum (page (fs ! a)) = pn"

subsection \<open>The chain\<close>

lemma start_simps [simp]:
  "start [] q = q"
  "start (a # xs) q = Some a"
  by (simp_all add: start_def)

lemma start_append [simp]: "start (xs @ ys) q = start xs (start ys q)"
  by (cases xs) simp_all

lemma in_arena_simps [simp]:
  "in_arena fs [] = True"
  "in_arena fs (a # xs) = (a < length fs \<and> in_arena fs xs)"
  "in_arena fs (xs @ ys) = (in_arena fs xs \<and> in_arena fs ys)"
  by (auto simp: in_arena_def)

lemma in_arenaD: "in_arena fs xs \<Longrightarrow> a \<in> set xs \<Longrightarrow> a < length fs"
  by (simp add: in_arena_def list_all_iff)

lemma in_arena_length [simp]: "in_arena (fs[a := f]) xs = in_arena fs xs"
  by (simp add: in_arena_def)

lemma links_Cons:
  "links fs (a # xs) q \<longleftrightarrow>
     next (fs ! a) = start xs q \<and> (xs \<noteq> [] \<longrightarrow> prev (fs ! hd xs) = Some a) \<and> links fs xs q"
  by (cases xs) auto

lemma links_append:
  "links fs (xs @ ys) q \<longleftrightarrow>
     links fs xs (start ys q) \<and> links fs ys q \<and>
     (xs \<noteq> [] \<and> ys \<noteq> [] \<longrightarrow> prev (fs ! hd ys) = Some (last xs))"
proof (induction xs)
  case Nil
  then show ?case by simp
next
  case (Cons a xs)
  then show ?case
    by (cases xs; cases ys) (auto simp: links_Cons)
qed

lemma links_snoc:
  "links fs (xs @ [t]) q \<longleftrightarrow>
     links fs xs (Some t) \<and> next (fs ! t) = q \<and> (xs \<noteq> [] \<longrightarrow> prev (fs ! t) = Some (last xs))"
  by (auto simp: links_append)

lemma links_transfer:
  assumes "links fs xs q"
    and "\<And>a. a \<in> set (butlast xs) \<Longrightarrow> next (fs' ! a) = next (fs ! a)"
    and "\<And>a. a \<in> set (tl xs) \<Longrightarrow> prev (fs' ! a) = prev (fs ! a)"
    and "xs \<noteq> [] \<Longrightarrow> next (fs' ! last xs) = q'"
  shows "links fs' xs q'"
  using assms
proof (induction fs xs q rule: links.induct)
  case (3 fs a b xs q)
  then show ?case by (simp add: links_Cons)
qed simp_all

lemma links_next:
  "links fs xs q \<Longrightarrow> i < length xs \<Longrightarrow>
     next (fs ! (xs ! i)) = (if Suc i < length xs then Some (xs ! Suc i) else q)"
proof (induction fs xs q arbitrary: i rule: links.induct)
  case (3 fs a b xs q)
  then show ?case by (cases i) auto
qed simp_all

lemma start_hd: "xs \<noteq> [] \<Longrightarrow> start xs q = Some (hd xs)"
  by (cases xs) simp_all

lemma links_last: "links fs xs q \<Longrightarrow> xs \<noteq> [] \<Longrightarrow> next (fs ! last xs) = q"
  using links_next [of fs xs q "length xs - 1"] by (simp add: last_conv_nth)

lemma links_update_off:
  assumes "links fs xs q" and "a \<notin> set xs"
  shows "links (fs[a := g]) xs q"
  using assms(1)
proof (rule links_transfer)
  show "xs \<noteq> [] \<Longrightarrow> next (fs[a := g] ! last xs) = q"
    using assms by (auto simp: links_last nth_list_update_if)
qed (use assms in \<open>auto dest: in_set_butlastD in_tl_set simp: nth_list_update_if\<close>)

lemma links_update_prev_hd:
  assumes "links fs xs q" and "distinct xs"
  shows "links (fs[hd xs := (fs ! hd xs)\<lparr>prev := p\<rparr>]) xs q"
  using assms(1)
proof (rule links_transfer)
  show "xs \<noteq> [] \<Longrightarrow> next (fs[hd xs := (fs ! hd xs)\<lparr>prev := p\<rparr>] ! last xs) = q"
    using assms by (auto simp: links_last nth_list_update_if)
qed (use assms in \<open>auto dest: not_hd_tl simp: nth_list_update_if\<close>)

lemma links_update_next_last:
  assumes "links fs xs q" and "distinct xs" and "last xs < length fs"
  shows "links (fs[last xs := (fs ! last xs)\<lparr>next := q'\<rparr>]) xs q'"
  using assms(1)
proof (rule links_transfer)
  show "next (fs[last xs := (fs ! last xs)\<lparr>next := q'\<rparr>] ! last xs) = q'"
    using assms by simp
qed (use assms in \<open>auto dest: not_last_butlast simp: nth_list_update_if\<close>)

subsection \<open>What relinking leaves alone\<close>

lemma unlinked_simps [simp]:
  "unlinked (f\<lparr>next := q\<rparr>) = unlinked f"
  "unlinked (f\<lparr>prev := q\<rparr>) = unlinked f"
  by (simp_all add: unlinked_def)

lemma map_unlinked_update [simp]:
  "unlinked g = unlinked (fs ! a) \<Longrightarrow> map unlinked (fs[a := g]) = map unlinked fs"
  by (metis list_update_id map_update)

lemma strip_frames:
  "strip md' = strip md \<Longrightarrow> a < length (frames md) \<Longrightarrow>
     unlinked (frames md' ! a) = unlinked (frames md ! a) \<and> length (frames md') = length (frames md)"
proof -
  assume s: "strip md' = strip md" and a: "a < length (frames md)"
  then have m: "map unlinked (frames md') = map unlinked (frames md)"
    by (metis (no_types) BM_MgmtData.select_convs(11) BM_MgmtData.surjective
        BM_MgmtData.update_convs(11) BM_MgmtData.update_convs(8) BM_MgmtData.update_convs(9) strip_def)
  then have "length (frames md') = length (frames md)"
    by (rule map_eq_imp_length_eq)
  with m a show ?thesis
    by (metis nth_map)
qed

subsection \<open>The page search\<close>

lemma findPage_links:
  "links (frames md) xs q \<Longrightarrow> in_arena (frames md) xs \<Longrightarrow>
     findPage md (length xs) (start xs q) pn = Some (find (holds_page (frames md) pn) xs)"
proof (induction xs)
  case Nil
  then show ?case by simp
next
  case (Cons a xs)
  then show ?case by (simp add: links_Cons holds_page_def)
qed

lemma findPage_frame_list:
  assumes "frame_list md xs"
  shows "findPage md (length (frames md)) (head md) pn = Some (find (holds_page (frames md) pn) xs)"
proof -
  from assms have "start xs None = head md" and "length (frames md) = length xs"
    by (cases xs; simp add: frame_list_def)+
  with assms findPage_links [of md xs None pn] show ?thesis
    by (simp add: frame_list_def)
qed

subsection \<open>The victim search\<close>

lemma victim_of_Cons:
  "victim_of fs (h # ys) = (case find (unpinned fs) (rev ys) of Some a \<Rightarrow> a | None \<Rightarrow> h)"
  by (simp add: victim_of_def cong: option.case_cong)

lemma findVictim_walk:
  "links fs (h # ys) q \<Longrightarrow> in_arena fs (h # ys) \<Longrightarrow> fs = frames md \<Longrightarrow>
   find (unpinned fs) (rev ys) \<noteq> None \<or> prev (fs ! h) = None \<or> unpinned fs h \<Longrightarrow>
   length ys < fuel \<Longrightarrow>
     findVictim md fuel (Some (last (h # ys))) = Some (Some (victim_of fs (h # ys)))"
proof (induction ys arbitrary: q fuel rule: rev_induct)
  case Nil
  then show ?case
    by (cases fuel) (auto simp: victim_of_Cons unpinned_def)
next
  case (snoc t ys)
  from snoc.prems obtain n where fuel: "fuel = Suc n" and n: "length ys < n"
    by (cases fuel) auto
  from snoc.prems have l: "links fs (h # ys) (Some t)" and p: "prev (fs ! t) = Some (last (h # ys))"
    using links_snoc [of fs "h # ys" t q] by simp_all
  from snoc.prems have a: "in_arena fs (h # ys)" and t: "t < length (frames md)"
    by simp_all
  show ?case
  proof (cases "unpinned fs t")
    case True
    with snoc.prems(3) t p show ?thesis
      by (simp add: fuel victim_of_Cons unpinned_def)
  next
    case False
    with snoc.prems(4)
    have "find (unpinned fs) (rev ys) \<noteq> None \<or> prev (fs ! h) = None \<or> unpinned fs h"
      by simp
    then have "findVictim md n (Some (last (h # ys))) = Some (Some (victim_of fs (h # ys)))"
      by (rule snoc.IH [OF l a snoc.prems(3) _ n])
    with False snoc.prems(3) t p show ?thesis
      by (simp add: fuel victim_of_Cons unpinned_def)
  qed
qed

lemma findVictim_frame_list:
  assumes "frame_list md xs"
    and "(\<exists>a \<in> set (tl xs). unpinned (frames md) a) \<or> prev (frames md ! hd xs) = None
         \<or> unpinned (frames md) (hd xs)"
  shows "findVictim md (Suc (length (frames md))) (tail md) = Some (Some (victim_of (frames md) xs))"
proof -
  from assms(1) obtain h ys where xs: "xs = h # ys"
    by (cases xs) (auto simp: frame_list_def)
  with assms have "find (unpinned (frames md)) (rev ys) \<noteq> None \<or> prev (frames md ! h) = None
      \<or> unpinned (frames md) h"
    by (auto simp: find_None_set)
  with assms(1) show ?thesis
    using findVictim_walk [of "frames md" h ys None md "Suc (length (frames md))"]
    by (simp add: xs frame_list_def)
qed

lemma victim_of_unpinned:
  assumes "\<exists>a \<in> set (tl xs). unpinned fs a"
  shows "victim_of fs xs \<in> set (tl xs) \<and> unpinned fs (victim_of fs xs)"
proof -
  from assms obtain a where "find (unpinned fs) (rev (tl xs)) = Some a"
    by (cases "find (unpinned fs) (rev (tl xs))") (auto simp: find_None_set)
  then show ?thesis
    using find_Some_set [of "unpinned fs" "rev (tl xs)" a] by (simp add: victim_of_def)
qed

lemma victim_of_head:
  "\<forall>a \<in> set (tl xs). \<not> unpinned fs a \<Longrightarrow> victim_of fs xs = hd xs"
  by (simp add: victim_of_def find_None_set [THEN iffD2])

subsection \<open>Fields that are not links\<close>

definition wiring :: "BM_MgmtData \<Rightarrow> nat option list \<times> nat option list \<times> nat option \<times> nat option" where
  "wiring md = (map next (frames md), map prev (frames md), head md, tail md)"

lemma links_wiring:
  assumes "map next fs' = map next fs" and "map prev fs' = map prev fs" and "in_arena fs xs"
  shows "links fs' xs q = links fs xs q"
proof -
  have "next (fs' ! a) = next (fs ! a) \<and> prev (fs' ! a) = prev (fs ! a)" if "a < length fs" for a
    using that assms(1,2) by (metis length_map nth_map)
  with assms(3) show ?thesis
    by (induction fs xs q rule: links.induct) auto
qed

lemma frame_list_wiring:
  assumes "wiring md' = wiring md"
  shows "frame_list md' xs = frame_list md xs"
    and "frame_list_strict md' xs = frame_list_strict md xs"
proof -
  from assms have n: "map next (frames md') = map next (frames md)"
    and p: "map prev (frames md') = map prev (frames md)"
    and h: "head md' = head md" "tail md' = tail md"
    by (simp_all add: wiring_def)
  from n have len: "length (frames md') = length (frames md)"
    by (rule map_eq_imp_length_eq)
  with n p h links_wiring [of "frames md'" "frames md" xs None]
  show fl: "frame_list md' xs = frame_list md xs"
    by (auto simp: frame_list_def in_arena_def)
  have "prev (frames md' ! hd xs) = prev (frames md ! hd xs)" if "frame_list md xs"
  proof -
    from that have "hd xs < length (frames md)"
      by (cases xs) (auto simp: frame_list_def)
    with p len show ?thesis
      by (metis nth_map)
  qed
  with fl show "frame_list_strict md' xs = frame_list_strict md xs"
    by (auto simp: frame_list_strict_def)
qed

lemma wiring_simps [simp]:
  "wiring (md\<lparr>bufs := bs\<rparr>) = wiring md"
  "wiring (md\<lparr>fHandle := fh\<rparr>) = wiring md"
  "wiring (md\<lparr>numReadIO := r\<rparr>) = wiring md"
  "wiring (md\<lparr>numWriteIO := w\<rparr>) = wiring md"
  "wiring (md\<lparr>clkPtr := c\<rparr>) = wiring md"
  by (simp_all add: wiring_def)

lemma wiring_frame_update:
  "next g = next (frames md ! a) \<Longrightarrow> prev g = prev (frames md ! a) \<Longrightarrow>
     wiring (md\<lparr>frames := (frames md)[a := g]\<rparr>) = wiring md"
  by (simp add: wiring_def map_update) (metis list_update_id map_update)

subsection \<open>Relinking a frame at the head\<close>

lemma moveToHead_tail:
  assumes fl: "frame_list md (as @ [t])" and as: "as \<noteq> []"
  shows "\<exists>md'. moveToHead (Some t) md = Some md' \<and> frame_list_strict md' (t # as) \<and>
           strip md' = strip md"
proof -
  let ?fs = "frames md" and ?h = "hd as" and ?p = "last as"
  from fl as have h: "head md = Some ?h" and tl: "tail md = Some t"
    and d: "distinct as" "t \<notin> set as" and ar: "in_arena ?fs as" "t < length ?fs"
    and len: "Suc (length as) = length ?fs"
    and l: "links ?fs as (Some t)" and p: "prev (?fs ! t) = Some ?p"
    by (auto simp: frame_list_def links_snoc)
  from as ar have lt: "?p < length ?fs" "?h < length ?fs"
    by (auto intro: in_arenaD)
  from as d have ne: "?p \<noteq> t" "?h \<noteq> t"
    by auto
  define fs1 where "fs1 = ?fs[?p := (?fs ! ?p)\<lparr>next := None\<rparr>]"
  define fs2 where "fs2 = fs1[t := (fs1 ! t)\<lparr>prev := None\<rparr>]"
  define fs3 where "fs3 = fs2[t := (fs2 ! t)\<lparr>next := Some ?h\<rparr>]"
  define fs4 where "fs4 = fs3[?h := (fs3 ! ?h)\<lparr>prev := Some t\<rparr>]"
  note fs = fs4_def fs3_def fs2_def fs1_def
  have m: "moveToHead (Some t) md = Some (md\<lparr>frames := fs4, head := Some t, tail := Some ?p\<rparr>)"
    using h tl p lt ne ar by (simp add: moveToHead_def fs)
  from l d lt have "links fs1 as None"
    by (simp add: fs1_def links_update_next_last)
  with d have "links fs3 as None"
    by (simp add: fs3_def fs2_def links_update_off)
  with d have "links fs4 as None"
    by (simp add: fs4_def links_update_prev_hd)
  moreover have "next (fs4 ! t) = Some ?h" "prev (fs4 ! t) = None" "prev (fs4 ! ?h) = Some t"
    "length fs4 = length ?fs" "map unlinked fs4 = map unlinked ?fs"
    using lt ne ar by (auto simp: fs nth_list_update_if)
  ultimately show ?thesis
    using m d ar len as
    by (simp add: frame_list_strict_def frame_list_def strip_def links_Cons start_hd in_arena_def)
qed

lemma moveToHead_mid:
  assumes fl: "frame_list md (as @ v # bs)" and as: "as \<noteq> []" and bs: "bs \<noteq> []"
  shows "\<exists>md'. moveToHead (Some v) md = Some md' \<and> frame_list md' (v # as @ bs) \<and>
           strip md' = strip md"
proof -
  let ?fs = "frames md" and ?h = "hd as" and ?p = "last as" and ?s = "hd bs"
  from fl as bs have h: "head md = Some ?h" and tl: "tail md = Some (last bs)"
    and d: "distinct as" "distinct bs" "v \<notin> set as" "v \<notin> set bs" "set as \<inter> set bs = {}"
    and ar: "in_arena ?fs as" "in_arena ?fs bs" "v < length ?fs"
    and len: "Suc (length as + length bs) = length ?fs"
    and la: "links ?fs as (Some v)" and lb: "links ?fs bs None"
    and p: "prev (?fs ! v) = Some ?p" and n: "next (?fs ! v) = Some ?s"
    by (auto simp: frame_list_def links_append links_Cons start_hd)
  from as bs ar have lt: "?p < length ?fs" "?h < length ?fs" "?s < length ?fs"
    by (auto intro: in_arenaD)
  from as bs have mem: "?h \<in> set as" "?p \<in> set as" "?s \<in> set bs" "last bs \<in> set bs"
    by simp_all
  with d have ne: "?p \<noteq> v" "?h \<noteq> v" "?s \<noteq> v" "last bs \<noteq> v" "?s \<noteq> ?p" "?s \<noteq> ?h"
    and off: "?s \<notin> set as" "?p \<notin> set bs" "?h \<notin> set bs"
    by (auto simp: disjoint_iff)
  define fs1 where "fs1 = ?fs[?p := (?fs ! ?p)\<lparr>next := Some ?s\<rparr>]"
  define fs2 where "fs2 = fs1[?s := (fs1 ! ?s)\<lparr>prev := Some ?p\<rparr>]"
  define fs3 where "fs3 = fs2[v := (fs2 ! v)\<lparr>next := Some ?h\<rparr>]"
  define fs4 where "fs4 = fs3[?h := (fs3 ! ?h)\<lparr>prev := Some v\<rparr>]"
  note fs = fs4_def fs3_def fs2_def fs1_def
  have m: "moveToHead (Some v) md = Some (md\<lparr>frames := fs4, head := Some v\<rparr>)"
    using h tl p n lt ne ar by (simp add: moveToHead_def fs)
  from la d lt have "links fs1 as (Some ?s)"
    by (simp add: fs1_def links_update_next_last)
  with d off have "links fs3 as (Some ?s)"
    by (simp add: fs3_def fs2_def links_update_off)
  with d have a: "links fs4 as (Some ?s)"
    by (simp add: fs4_def links_update_prev_hd)
  from lb off have "links fs1 bs None"
    by (simp add: fs1_def links_update_off)
  with d have "links fs2 bs None"
    by (simp add: fs2_def links_update_prev_hd)
  with d off have b: "links fs4 bs None"
    by (simp add: fs4_def fs3_def links_update_off)
  have "next (fs4 ! v) = Some ?h" "prev (fs4 ! ?h) = Some v" "prev (fs4 ! ?s) = Some ?p"
    "length fs4 = length ?fs" "map unlinked fs4 = map unlinked ?fs"
    using lt ne ar by (auto simp: fs nth_list_update_if)
  with a b show ?thesis
    using m d ar len as bs tl
    by (simp add: frame_list_def strip_def links_Cons links_append start_hd in_arena_def)
qed

lemma moveToHead_frame_list:
  assumes fl: "frame_list md xs" and v: "v \<in> set (tl xs)"
  shows "\<exists>md'. moveToHead (Some v) md = Some md' \<and> frame_list md' (v # remove1 v xs) \<and>
           (v = last xs \<longrightarrow> frame_list_strict md' (v # remove1 v xs)) \<and> strip md' = strip md"
proof -
  from fl have d: "distinct xs"
    by (simp add: frame_list_def)
  with v have "v \<in> set xs" and nh: "v \<noteq> hd xs"
    using not_hd_tl [of xs v] by simp_all
  then obtain as bs where xs: "xs = as @ v # bs"
    by (auto dest: split_list)
  with nh have as: "as \<noteq> []"
    by auto
  from d xs have r: "remove1 v xs = as @ bs"
    by (simp add: remove1_split)
  show ?thesis
  proof (cases "bs = []")
    case True
    with moveToHead_tail [of md as v] fl xs as r show ?thesis
      by (auto simp: frame_list_strict_def)
  next
    case False
    with d xs have "v \<noteq> last xs"
      by auto
    with moveToHead_mid [of md as v bs] fl xs as r False show ?thesis
      by auto
  qed
qed

lemma moveToHead_head_strict:
  assumes "frame_list_strict md xs"
  shows "moveToHead (Some (hd xs)) md = None"
proof -
  from assms have "head md = Some (hd xs)" "prev (frames md ! hd xs) = None"
    "hd xs < length (frames md)"
    by (cases xs; auto simp: frame_list_strict_def frame_list_def)+
  then show ?thesis
    by (cases "tail md = Some (hd xs)") (simp_all add: moveToHead_def Let_def)
qed

subsection \<open>The walks of the reporting functions\<close>

lemma report_seq_inner_links:
  "links (frames md) xs q \<Longrightarrow> in_arena (frames md) xs \<Longrightarrow>
   \<forall>a \<in> set xs. seq (frames md ! a) = int a \<Longrightarrow> 0 \<le> i \<Longrightarrow>
     report_seq_inner sel md i (length xs) (start xs q) arr =
       Some (if nat i \<in> set xs then arr[nat i := sel (frames md ! nat i)] else arr)"
proof (induction xs arbitrary: arr)
  case Nil
  then show ?case by simp
next
  case (Cons a xs)
  then show ?case
    by (auto simp: links_Cons)
qed

lemma report_walk_links:
  "links (frames md) xs q \<Longrightarrow> in_arena (frames md) xs \<Longrightarrow> i + length xs \<le> length arr \<Longrightarrow>
     report_walk sel md (int i) (length xs) (start xs q) arr =
       Some (take i arr @ map (\<lambda>a. sel (frames md ! a)) xs @ drop (i + length xs) arr)"
proof (induction xs arbitrary: arr i)
  case Nil
  then show ?case by simp
next
  case (Cons a xs)
  from Cons.prems have "report_walk sel md (int (Suc i)) (length xs) (start xs q)
      (arr[i := sel (frames md ! a)]) =
      Some (take (Suc i) (arr[i := sel (frames md ! a)]) @ map (\<lambda>a. sel (frames md ! a)) xs @
            drop (Suc i + length xs) (arr[i := sel (frames md ! a)]))"
    by (intro Cons.IH) (simp_all add: links_Cons)
  with Cons.prems show ?case
    by (simp add: links_Cons take_Suc_conv_app_nth add.commute)
qed

end
