(* ===== verification/Buffer_Pool.thy ===== *)
theory Buffer_Pool
  imports Frame_List
begin

text \<open>
  What the buffer pool of \<^verbatim>\<open>buffer_mgr.c\<close> promises and where it keeps the
  promise. \<open>pool_ok b xs\<close> is the well-formedness of a FIFO or LRU pool whose
  frames are linked in the order \<open>xs\<close>: every frame owns the buffer allocated
  with it, keeps the sequence number of its creation, and the list holds
  every frame once. \<^verbatim>\<open>initBufferPool\<close> establishes it and the operations
  preserve it under the conditions their theorems state.

  The effect of a page fault on everything but the links is the function
  \<open>load_page\<close>, the effect of a hit is \<open>hit_page\<close>; the theorems on \<^verbatim>\<open>pinPage\<close>
  show that the code computes them and how it reorders the list, and name
  the inputs on which it dereferences a null pointer instead.
\<close>

definition fresh_frame :: "nat \<Rightarrow> Frame" where
  "fresh_frame a = \<lparr>dirtyBit = False, fixBit = 0, next = None, prev = None,
                     page = \<lparr>pageNum = - 1, data = Some a\<rparr>, seq = int a, refBit = 0\<rparr>"

definition init_inv :: "BM_MgmtData \<Rightarrow> nat \<Rightarrow> BM_MgmtData \<Rightarrow> bool" where
  "init_inv md0 k md \<longleftrightarrow>
     length (frames md) = k \<and> bufs md = replicate k emptyPage \<and>
     map unlinked (frames md) = map fresh_frame [0..<k] \<and>
     (if k = 0 then head md = None else frame_list_strict md (rev [0..<k])) \<and>
     md\<lparr>frames := [], bufs := [], head := None, tail := None\<rparr> = md0"

definition arena_ok :: "BM_MgmtData \<Rightarrow> bool" where
  "arena_ok md \<longleftrightarrow>
     length (bufs md) = length (frames md) \<and>
     map (\<lambda>f. data (page f)) (frames md) = map Some [0..<length (frames md)] \<and>
     map seq (frames md) = map int [0..<length (frames md)]"

definition pool_ok :: "BM_BufferPool \<Rightarrow> nat list \<Rightarrow> bool" where
  "pool_ok b xs \<longleftrightarrow>
     frame_list (mgmtData b) xs \<and> numPages b = int (length (frames (mgmtData b))) \<and>
     arena_ok (mgmtData b)"

definition to_front :: "nat \<Rightarrow> nat list \<Rightarrow> nat list" where
  "to_front v xs = v # remove1 v xs"

definition fetch_page :: "nat \<Rightarrow> int \<Rightarrow> storage \<Rightarrow> BM_MgmtData \<Rightarrow> BM_MgmtData" where
  "fetch_page v pn st md =
     (case readBlock pn (Some (fHandle md)) (Some (bufs md ! v)) st of
        (rc, fh, buf) \<Rightarrow>
          md\<lparr>fHandle := pointee (fHandle md) fh,
             bufs := (bufs md)[v := pointee (bufs md ! v) buf],
             frames := (frames md)[v := (frames md ! v)\<lparr>fixBit := fixBit (frames md ! v) + 1\<rparr>],
             numReadIO := numReadIO md + 1\<rparr>)"

definition set_pageNum :: "nat \<Rightarrow> int \<Rightarrow> BM_MgmtData \<Rightarrow> BM_MgmtData" where
  "set_pageNum v pn md =
     md\<lparr>frames := (frames md)[v := (frames md ! v)\<lparr>page := (page (frames md ! v))\<lparr>pageNum := pn\<rparr>\<rparr>]\<rparr>"

definition load_page :: "nat \<Rightarrow> int \<Rightarrow> storage \<Rightarrow> BM_MgmtData \<Rightarrow> BM_MgmtData" where
  "load_page v pn st md = set_pageNum v pn (fetch_page v pn st md)"

definition hit_page :: "nat \<Rightarrow> BM_MgmtData \<Rightarrow> BM_MgmtData" where
  "hit_page a md =
     md\<lparr>frames := (frames md)[a := (frames md ! a)
          \<lparr>fixBit := fixBit (frames md ! a) + 1, refBit := 1\<rparr>]\<rparr>"

definition release_page :: "nat \<Rightarrow> BM_MgmtData \<Rightarrow> BM_MgmtData" where
  "release_page a md =
     md\<lparr>frames := (frames md)[a := (frames md ! a)\<lparr>fixBit := fixBit (frames md ! a) - 1\<rparr>]\<rparr>"

definition dirty_page :: "nat \<Rightarrow> BM_MgmtData \<Rightarrow> BM_MgmtData" where
  "dirty_page a md = md\<lparr>frames := (frames md)[a := (frames md ! a)\<lparr>dirtyBit := True\<rparr>]\<rparr>"

definition resident :: "BM_MgmtData \<Rightarrow> int list" where
  "resident md = filter (\<lambda>p. p \<noteq> - 1) (map (\<lambda>f. pageNum (page f)) (frames md))"

definition reports_ok :: "BM_MgmtData \<Rightarrow> bool" where
  "reports_ok md \<longleftrightarrow>
     length (frameContents md) = length (frames md) \<and>
     length (dirtyFlags md) = length (frames md) \<and>
     length (fixCounts md) = length (frames md) \<and>
     length (refBits md) = length (frames md)"

subsection \<open>Creating the frames\<close>

lemma links_grow: "in_arena fs xs \<Longrightarrow> links (fs @ gs) xs q = links fs xs q"
  by (induction fs xs q rule: links.induct) (auto simp: nth_append)

lemma unlinked_fresh [simp]: "unlinked (fresh_frame a) = fresh_frame a"
  by (simp add: unlinked_def fresh_frame_def)

lemma unlinked_fields [simp]:
  "page (unlinked f) = page f" "seq (unlinked f) = seq f" "fixBit (unlinked f) = fixBit f"
  "dirtyBit (unlinked f) = dirtyBit f" "refBit (unlinked f) = refBit f"
  by (simp_all add: unlinked_def)

lemma map_via_unlinked:
  assumes "map unlinked fs = map unlinked gs" and "\<And>f. sel (unlinked f) = sel f"
  shows "map sel fs = map sel gs"
proof -
  have "map sel fs = map sel (map unlinked fs)"
    by (simp add: assms(2))
  also have "\<dots> = map sel (map unlinked gs)"
    by (simp only: assms(1))
  finally show ?thesis
    by (simp add: assms(2))
qed

lemma activate_first:
  assumes "init_inv md0 0 md"
  shows "\<exists>md'. (case malloc_frame md of
           (frame, md1) \<Rightarrow> activateFrames frame (Some (b\<lparr>mgmtData := md1\<rparr>)) 0)
           = Some (RC_OK, Some (b\<lparr>mgmtData := md'\<rparr>)) \<and> init_inv md0 (Suc 0) md'"
proof (intro exI conjI)
  let ?md' = "md\<lparr>bufs := [emptyPage], frames := [fresh_frame 0], head := Some 0, tail := Some 0\<rparr>"
  from assms show "(case malloc_frame md of
           (frame, md1) \<Rightarrow> activateFrames frame (Some (b\<lparr>mgmtData := md1\<rparr>)) 0)
           = Some (RC_OK, Some (b\<lparr>mgmtData := ?md'\<rparr>))"
    by (simp add: init_inv_def malloc_frame_def activateFrames_def fresh_frame_def raw_frame_def)
  from assms show "init_inv md0 (Suc 0) ?md'"
    by (simp add: init_inv_def frame_list_strict_def frame_list_def) (simp add: fresh_frame_def)
qed

lemma activate_next:
  assumes "init_inv md0 (Suc k) md"
  shows "\<exists>md'. (case malloc_frame md of
           (frame, md1) \<Rightarrow> activateFrames frame (Some (b\<lparr>mgmtData := md1\<rparr>)) (int (Suc k)))
           = Some (RC_OK, Some (b\<lparr>mgmtData := md'\<rparr>)) \<and> init_inv md0 (Suc (Suc k)) md'"
proof (intro exI conjI)
  let ?fs = "frames md" and ?xs = "k # rev [0..<k]" and ?n = "Suc k"
  from assms have len: "length ?fs = ?n" and bufs: "bufs md = replicate ?n emptyPage"
    and un: "map unlinked ?fs = map fresh_frame [0..<?n]"
    and fl: "frame_list_strict md ?xs"
    and rest: "md\<lparr>frames := [], bufs := [], head := None, tail := None\<rparr> = md0"
    by (simp_all add: init_inv_def)
  from fl have h: "head md = Some k" and l: "links ?fs ?xs None"
    and ar: "in_arena ?fs ?xs" and d: "distinct ?xs" and t: "tail md = Some (last ?xs)"
    by (simp_all add: frame_list_strict_def frame_list_def)
  define g where "g = (fresh_frame ?n)\<lparr>next := Some k\<rparr>"
  define fs' where "fs' = (?fs @ [g])[k := ((?fs @ [g]) ! k)\<lparr>prev := Some ?n\<rparr>]"
  let ?md' = "md\<lparr>bufs := bufs md @ [emptyPage], head := Some ?n, frames := fs'\<rparr>"
  show "(case malloc_frame md of
           (frame, md1) \<Rightarrow> activateFrames frame (Some (b\<lparr>mgmtData := md1\<rparr>)) (int ?n))
        = Some (RC_OK, Some (b\<lparr>mgmtData := ?md'\<rparr>))"
    using len h bufs
    by (simp add: malloc_frame_def activateFrames_def fs'_def g_def fresh_frame_def raw_frame_def
        nth_append list_update_append)
  from l ar have "links (?fs @ [g]) ?xs None"
    by (simp only: links_grow)
  with d have "links fs' ?xs None"
    using links_update_prev_hd [of "?fs @ [g]" ?xs None "Some ?n"] by (simp add: fs'_def)
  moreover have "next (fs' ! ?n) = Some k" "prev (fs' ! ?n) = None" "prev (fs' ! k) = Some ?n"
    "length fs' = Suc ?n"
    using len by (simp_all add: fs'_def g_def nth_list_update_if nth_append fresh_frame_def)
  moreover have "map unlinked fs' = map fresh_frame [0..<Suc ?n]"
    using un len by (simp add: fs'_def g_def)
  ultimately show "init_inv md0 (Suc ?n) ?md'"
    using bufs rest t ar d
    by (simp add: init_inv_def frame_list_strict_def frame_list_def links_Cons in_arena_def
        replicate_append_same list_all_iff)
qed


lemma initFrames_loop_ok:
  assumes "init_inv md0 i (mgmtData b)" and "i \<le> n"
  shows "\<exists>b'. initFrames_loop (int i) (int n) b = Some b' \<and> init_inv md0 n (mgmtData b') \<and>
           b'\<lparr>mgmtData := md0\<rparr> = b\<lparr>mgmtData := md0\<rparr>"
  using assms
proof (induction "n - i" arbitrary: i b)
  case 0
  then show ?case
    by (simp add: initFrames_loop.simps)
next
  case (Suc d)
  then have lt: "i < n" and d: "d = n - Suc i" and le: "Suc i \<le> n"
    by simp_all
  from Suc.prems obtain md' where
    m: "(case malloc_frame (mgmtData b) of (frame, md1) \<Rightarrow>
          activateFrames frame (Some (b\<lparr>mgmtData := md1\<rparr>)) (int i))
        = Some (RC_OK, Some (b\<lparr>mgmtData := md'\<rparr>))" and i: "init_inv md0 (Suc i) md'"
    using activate_first [of md0 "mgmtData b" b] activate_next [of md0 _ "mgmtData b" b]
    by (cases i) auto
  from Suc.hyps(1) [OF d, of "b\<lparr>mgmtData := md'\<rparr>"] i le
  obtain b' where "initFrames_loop (int (Suc i)) (int n) (b\<lparr>mgmtData := md'\<rparr>) = Some b'"
    and "init_inv md0 n (mgmtData b')" and "b'\<lparr>mgmtData := md0\<rparr> = b\<lparr>mgmtData := md0\<rparr>"
    by auto
  with m lt show ?case
    by (subst initFrames_loop.simps) (auto split: prod.splits simp: add.commute)
qed

lemma init_inv_pool_ok:
  assumes "init_inv md0 n (mgmtData b)" and "0 < n" and "numPages b = int n"
  shows "pool_ok b (rev [0..<n])"
proof -
  let ?fs = "frames (mgmtData b)"
  from assms have un: "map unlinked ?fs = map unlinked (map fresh_frame [0..<n])"
    and len: "length ?fs = n"
    by (simp_all add: init_inv_def)
  have "map (\<lambda>f. data (page f)) ?fs = map Some [0..<n]" "map seq ?fs = map int [0..<n]"
    using map_via_unlinked [OF un, of "\<lambda>f. data (page f)"] map_via_unlinked [OF un, of seq]
    by (simp_all add: fresh_frame_def)
  with assms len show ?thesis
    by (simp add: pool_ok_def arena_ok_def init_inv_def frame_list_strict_def)
qed

lemma init_inv_rest:
  assumes "init_inv md0 k md"
  shows "numReadIO md = numReadIO md0" "numWriteIO md = numWriteIO md0" "fHandle md = fHandle md0"
    "frameContents md = frameContents md0" "dirtyFlags md = dirtyFlags md0"
    "fixCounts md = fixCounts md0" "refBits md = refBits md0"
proof -
  from assms have "md0 = md\<lparr>frames := [], bufs := [], head := None, tail := None\<rparr>"
    by (simp add: init_inv_def)
  then show "numReadIO md = numReadIO md0" "numWriteIO md = numWriteIO md0"
    "fHandle md = fHandle md0" "frameContents md = frameContents md0"
    "dirtyFlags md = dirtyFlags md0" "fixCounts md = fixCounts md0" "refBits md = refBits md0"
    by simp_all
qed

lemma initBufferPool_run:
  assumes "0 < n" and "strat \<noteq> RS_CLOCK"
  shows "\<exists>b'. initBufferPool (Some b) (Some name) (int n) strat st = Some (RC_OK, Some b') \<and>
           pool_ok b' (rev [0..<n]) \<and> frame_list_strict (mgmtData b') (rev [0..<n]) \<and>
           map unlinked (frames (mgmtData b')) = map fresh_frame [0..<n] \<and>
           bufs (mgmtData b') = replicate n emptyPage \<and>
           strategy b' = strat \<and> pageFile b' = Some name \<and>
           numReadIO (mgmtData b') = 0 \<and> numWriteIO (mgmtData b') = 0 \<and>
           reports_ok (mgmtData b')"
proof -
  define md0 where "md0 = (case openPageFile (Some name) (Some (fHandle (raw_mgmtData n))) st of
      (rc, fh) \<Rightarrow> (raw_mgmtData n)\<lparr>fHandle := pointee (fHandle (raw_mgmtData n)) fh\<rparr>)"
  define b0 where "b0 = b\<lparr>pageFile := Some name, numPages := int n, strategy := strat, mgmtData := md0\<rparr>"
  have md0: "numReadIO md0 = 0" "numWriteIO md0 = 0" "length (frameContents md0) = n"
    "length (dirtyFlags md0) = n" "length (fixCounts md0) = n" "length (refBits md0) = n"
    by (simp_all add: md0_def raw_mgmtData_def split: prod.splits)
  have "init_inv md0 0 (mgmtData b0)"
    by (simp add: init_inv_def b0_def md0_def raw_mgmtData_def split: prod.splits)
  with initFrames_loop_ok [of md0 0 b0 n] obtain b1 where
    l: "initFrames_loop 0 (int n) b0 = Some b1" and i: "init_inv md0 n (mgmtData b1)"
    and r: "b1\<lparr>mgmtData := md0\<rparr> = b0\<lparr>mgmtData := md0\<rparr>"
    by auto
  have "strategy (b1\<lparr>mgmtData := md0\<rparr>) = strat" "pageFile (b1\<lparr>mgmtData := md0\<rparr>) = Some name"
    "numPages (b1\<lparr>mgmtData := md0\<rparr>) = int n"
    by (simp_all add: r b0_def)
  then have f: "strategy b1 = strat" "pageFile b1 = Some name" "numPages b1 = int n"
    by simp_all
  have "initBufferPool (Some b) (Some name) (int n) strat st = Some (RC_OK, Some b1)"
    using l f assms(2) by (simp add: initBufferPool_def b0_def md0_def Let_def)
  with i f md0 assms(1) show ?thesis
    using init_inv_pool_ok [of md0 n b1] init_inv_rest [of md0 n "mgmtData b1"]
    by (simp add: init_inv_def reports_ok_def)
qed

subsection \<open>A page fault under FIFO and LRU\<close>

lemma pool_ok_frame:
  assumes "pool_ok b xs" and "a < length (frames (mgmtData b))"
  shows "data (page (frames (mgmtData b) ! a)) = Some a" "seq (frames (mgmtData b) ! a) = int a"
    "a < length (bufs (mgmtData b))"
proof -
  let ?fs = "frames (mgmtData b)"
  from assms(1) have "map (\<lambda>f. data (page f)) ?fs ! a = map Some [0..<length ?fs] ! a"
    and "map seq ?fs ! a = map int [0..<length ?fs] ! a"
    by (simp_all add: pool_ok_def arena_ok_def)
  with assms(2) show "data (page (?fs ! a)) = Some a" "seq (?fs ! a) = int a"
    by simp_all
  from assms show "a < length (bufs (mgmtData b))"
    by (simp add: pool_ok_def arena_ok_def)
qed

lemma pool_ok_frame_list: "pool_ok b xs \<Longrightarrow> frame_list (mgmtData b) xs"
  by (simp add: pool_ok_def)

lemma frame_list_mem: "frame_list md xs \<Longrightarrow> a \<in> set xs \<Longrightarrow> a < length (frames md)"
  by (auto simp: frame_list_def dest: in_arenaD)

lemma bm_readBlock_fetch:
  assumes "d < length (bufs md)"
  shows "bm_readBlock pn (Some d) md st =
           Some (md\<lparr>fHandle := fHandle (fetch_page d pn st md), bufs := bufs (fetch_page d pn st md)\<rparr>)"
  using assms
  by (cases "readBlock pn (Some (fHandle md)) (Some (bufs md ! d)) st")
     (auto simp: bm_readBlock_def fetch_page_def buf_store_def split: option.splits)

lemma fetch_page_fields:
  "fetch_page d pn st md =
     md\<lparr>fHandle := fHandle (fetch_page d pn st md), bufs := bufs (fetch_page d pn st md),
        frames := (frames md)[d := (frames md ! d)\<lparr>fixBit := fixBit (frames md ! d) + 1\<rparr>],
        numReadIO := numReadIO md + 1\<rparr>"
  by (simp add: fetch_page_def split: prod.splits)

lemma wiring_fetch_page [simp]: "wiring (fetch_page v pn st md) = wiring md"
  by (simp add: fetch_page_def wiring_def map_sel_update_same split: prod.splits)

lemma wiring_set_pageNum [simp]: "wiring (set_pageNum v pn md) = wiring md"
  by (simp add: set_pageNum_def wiring_def map_sel_update_same)

lemma unlinked_updates:
  "unlinked (f\<lparr>page := p\<rparr>) = (unlinked f)\<lparr>page := p\<rparr>"
  "unlinked (f\<lparr>fixBit := n\<rparr>) = (unlinked f)\<lparr>fixBit := n\<rparr>"
  "unlinked (f\<lparr>dirtyBit := d\<rparr>) = (unlinked f)\<lparr>dirtyBit := d\<rparr>"
  "unlinked (f\<lparr>refBit := r\<rparr>) = (unlinked f)\<lparr>refBit := r\<rparr>"
  by (intro Frame.equality; simp add: unlinked_def)+

lemma strip_set_pageNum:
  assumes "strip md' = strip md"
  shows "strip (set_pageNum v pn md') = strip (set_pageNum v pn md)"
proof -
  have "strip (set_pageNum v pn m) = set_pageNum v pn (strip m)" for m
    by (cases "v < length (frames m)"; intro BM_MgmtData.equality)
       (simp_all add: strip_def set_pageNum_def map_update unlinked_updates list_update_beyond)
  with assms show ?thesis
    by simp
qed

lemma pinPage_replace_run:
  assumes ok: "pool_ok b xs" and free: "\<exists>a \<in> set (tl xs). unpinned (frames (mgmtData b)) a"
    and v: "v = victim_of (frames (mgmtData b)) xs"
  shows "\<exists>md'. pinPage_replace b pn st = Some (Some v, md') \<and>
           frame_list md' (to_front v xs) \<and>
           (v = last xs \<longrightarrow> frame_list_strict md' (to_front v xs)) \<and>
           strip md' = strip (fetch_page v pn st (mgmtData b))"
proof -
  let ?md = "mgmtData b"
  let ?fs = "frames ?md"
  from ok have fl: "frame_list ?md xs"
    by (rule pool_ok_frame_list)
  from free v have vs: "v \<in> set (tl xs)"
    using victim_of_unpinned [of xs ?fs] by simp
  with fl have lt: "v < length ?fs"
    by (auto dest: in_tl_set frame_list_mem)
  with ok have d: "data (page (?fs ! v)) = Some v" "v < length (bufs ?md)"
    by (simp_all add: pool_ok_frame)
  from fl free have fv: "findVictim ?md (Suc (length ?fs)) (tail ?md) = Some (Some v)"
    by (simp add: findVictim_frame_list v del: findVictim.simps)
  let ?md2 = "fetch_page v pn st ?md"
  note rd = bm_readBlock_fetch [OF d(2), of pn st]
  note md2 = fetch_page_fields [of v pn st ?md, symmetric]
  from fl have "frame_list ?md2 xs"
    using frame_list_wiring(1) [of ?md2 ?md xs] by simp
  with vs obtain md' where mv: "moveToHead (Some v) ?md2 = Some md'"
    and ord: "frame_list md' (v # remove1 v xs)"
      "v = last xs \<longrightarrow> frame_list_strict md' (v # remove1 v xs)" "strip md' = strip ?md2"
    using moveToHead_frame_list [of ?md2 xs v] by blast
  from mv have "pinPage_replace b pn st = Some (Some v, md')"
    using fv lt d by (simp add: pinPage_replace_def rd md2 del: findVictim.simps)
  with ord show ?thesis
    by (simp add: to_front_def)
qed

lemma strip_eq_fields:
  assumes "strip md' = strip md"
  shows "map unlinked (frames md') = map unlinked (frames md)" "bufs md' = bufs md"
    "fHandle md' = fHandle md" "numReadIO md' = numReadIO md" "numWriteIO md' = numWriteIO md"
    "clkPtr md' = clkPtr md" "length (frames md') = length (frames md)"
proof -
  show m: "map unlinked (frames md') = map unlinked (frames md)"
    using arg_cong [OF assms, of frames] by (simp add: strip_def)
  show "bufs md' = bufs md" "fHandle md' = fHandle md" "numReadIO md' = numReadIO md"
    "numWriteIO md' = numWriteIO md" "clkPtr md' = clkPtr md"
    using arg_cong [OF assms, of bufs] arg_cong [OF assms, of fHandle]
      arg_cong [OF assms, of numReadIO] arg_cong [OF assms, of numWriteIO]
      arg_cong [OF assms, of clkPtr]
    by (simp_all add: strip_def)
  from m show "length (frames md') = length (frames md)"
    by (rule map_eq_imp_length_eq)
qed

lemma arena_ok_strip:
  assumes "strip md' = strip md"
  shows "arena_ok md' = arena_ok md"
  using strip_eq_fields [OF assms]
    map_via_unlinked [of "frames md'" "frames md" "\<lambda>f. data (page f)"]
    map_via_unlinked [of "frames md'" "frames md" seq]
  by (simp add: arena_ok_def)

lemma arena_ok_fetch_page [simp]: "arena_ok (fetch_page v pn st md) = arena_ok md"
  by (simp add: arena_ok_def fetch_page_def map_sel_update_same split: prod.splits)

lemma arena_ok_set_pageNum [simp]: "arena_ok (set_pageNum v pn md) = arena_ok md"
  by (simp add: arena_ok_def set_pageNum_def map_sel_update_same)

lemma pool_ok_numPages: "pool_ok b xs \<Longrightarrow> nat (numPages b) = length (frames (mgmtData b))"
  by (simp add: pool_ok_def)

lemma findPage_pool:
  "pool_ok b xs \<Longrightarrow>
     findPage (mgmtData b) (nat (numPages b)) (head (mgmtData b)) pn =
       Some (find (holds_page (frames (mgmtData b)) pn) xs)"
  by (simp add: pool_ok_numPages findPage_frame_list pool_ok_frame_list)

lemma handle_all_fields: "h\<lparr>pageNum := pn, data := d\<rparr> = \<lparr>pageNum = pn, data = d\<rparr>"
  by (cases h) simp

lemma pinPage_miss_run:
  assumes ok: "pool_ok b xs" and strat: "strategy b \<noteq> RS_CLOCK"
    and miss: "find (holds_page (frames (mgmtData b)) pn) xs = None"
    and free: "\<exists>a \<in> set (tl xs). unpinned (frames (mgmtData b)) a"
    and v: "v = victim_of (frames (mgmtData b)) xs"
  shows "\<exists>md'. pinPage (Some b) (Some h) pn st =
             Some (RC_OK, Some (b\<lparr>mgmtData := md'\<rparr>), Some \<lparr>pageNum = pn, data = Some v\<rparr>) \<and>
           frame_list md' (to_front v xs) \<and>
           (v = last xs \<longrightarrow> frame_list_strict md' (to_front v xs)) \<and>
           strip md' = strip (load_page v pn st (mgmtData b))"
proof -
  let ?md = "mgmtData b"
  from pinPage_replace_run [OF ok free v, of pn st] obtain md1 where
    run: "pinPage_replace b pn st = Some (Some v, md1)" and fl: "frame_list md1 (to_front v xs)"
    and sl: "v = last xs \<longrightarrow> frame_list_strict md1 (to_front v xs)"
    and s: "strip md1 = strip (fetch_page v pn st ?md)"
    by blast
  let ?md' = "set_pageNum v pn md1"
  from fl have lt: "v < length (frames md1)"
    by (rule frame_list_mem) (simp add: to_front_def)
  from ok have "arena_ok ?md"
    by (simp add: pool_ok_def)
  with s have "arena_ok md1"
    using arena_ok_strip [of md1 "fetch_page v pn st ?md"] by simp
  with lt have d: "data (page (frames md1 ! v)) = Some v"
    using nth_map [of v "frames md1" "\<lambda>f. data (page f)"] by (simp add: arena_ok_def)
  from strat have st: "strategy b = RS_FIFO \<or> strategy b = RS_LRU"
    by (cases "strategy b") simp_all
  have "pinPage (Some b) (Some h) pn st =
      Some (RC_OK, Some (b\<lparr>mgmtData := ?md'\<rparr>), Some \<lparr>pageNum = pn, data = Some v\<rparr>)"
    using miss st lt d
    by (simp add: pinPage_def findPage_pool [OF ok] run set_pageNum_def handle_all_fields)
  moreover from fl sl have "frame_list ?md' (to_front v xs)"
    "v = last xs \<longrightarrow> frame_list_strict ?md' (to_front v xs)"
    using frame_list_wiring [of ?md' md1 "to_front v xs"] by auto
  moreover from s have "strip ?md' = strip (load_page v pn st ?md)"
    unfolding load_page_def by (rule strip_set_pageNum)
  ultimately show ?thesis
    by blast
qed

subsection \<open>No frame to replace\<close>

lemma pinPage_no_victim:
  assumes ok: "pool_ok b xs" and strat: "strategy b \<noteq> RS_CLOCK"
    and strict: "frame_list_strict (mgmtData b) xs"
    and miss: "find (holds_page (frames (mgmtData b)) pn) xs = None"
    and pinned: "\<forall>a \<in> set (tl xs). \<not> unpinned (frames (mgmtData b)) a"
  shows "pinPage (Some b) (Some h) pn st = None"
proof -
  let ?md = "mgmtData b" and ?v = "hd xs"
  let ?fs = "frames ?md"
  from strict have fl: "frame_list ?md xs" and p: "prev (?fs ! ?v) = None"
    by (simp_all add: frame_list_strict_def)
  from fl have lt: "?v < length ?fs"
    by (cases xs) (auto simp: frame_list_def)
  with ok have d: "data (page (?fs ! ?v)) = Some ?v" "?v < length (bufs ?md)"
    by (simp_all add: pool_ok_frame)
  from fl p pinned have fv: "findVictim ?md (Suc (length ?fs)) (tail ?md) = Some (Some ?v)"
    by (simp add: findVictim_frame_list victim_of_head del: findVictim.simps)
  note rd = bm_readBlock_fetch [OF d(2), of pn st]
  note md2 = fetch_page_fields [of ?v pn st ?md, symmetric]
  from strict have "frame_list_strict (fetch_page ?v pn st ?md) xs"
    using frame_list_wiring(2) [of "fetch_page ?v pn st ?md" ?md xs] by simp
  then have "moveToHead (Some ?v) (fetch_page ?v pn st ?md) = None"
    by (rule moveToHead_head_strict)
  then have "pinPage_replace b pn st = None"
    using fv lt d by (simp add: pinPage_replace_def rd md2 del: findVictim.simps)
  with miss strat show ?thesis
    by (cases "strategy b") (simp_all add: pinPage_def findPage_pool [OF ok])
qed

subsection \<open>A hit\<close>

lemma find_holds_page:
  assumes "pool_ok b xs" and "find (holds_page (frames (mgmtData b)) pn) xs = Some a"
  shows "a \<in> set xs" "pageNum (page (frames (mgmtData b) ! a)) = pn"
    "a < length (frames (mgmtData b))" "data (page (frames (mgmtData b) ! a)) = Some a"
    "a < length (bufs (mgmtData b))"
proof -
  from assms(2) show a: "a \<in> set xs" "pageNum (page (frames (mgmtData b) ! a)) = pn"
    using find_Some_set [of "holds_page (frames (mgmtData b)) pn" xs a]
    by (simp_all add: holds_page_def)
  with assms(1) show lt: "a < length (frames (mgmtData b))"
    by (auto dest: pool_ok_frame_list frame_list_mem)
  with assms(1) show "data (page (frames (mgmtData b) ! a)) = Some a"
    "a < length (bufs (mgmtData b))"
    by (simp_all add: pool_ok_frame)
qed

lemma wiring_hit_page [simp]: "wiring (hit_page a md) = wiring md"
  by (simp add: hit_page_def wiring_def map_sel_update_same)

lemma arena_ok_hit_page [simp]: "arena_ok (hit_page a md) = arena_ok md"
  by (simp add: arena_ok_def hit_page_def map_sel_update_same)

lemma pinPage_hit_eq:
  assumes ok: "pool_ok b xs" and hit: "find (holds_page (frames (mgmtData b)) pn) xs = Some a"
  shows "pinPage (Some b) (Some h) pn st =
           do {
             md \<leftarrow> (if strategy b = RS_LRU then moveToHead (Some a) (hit_page a (mgmtData b))
                    else if strategy b = RS_CLOCK
                    then Some ((hit_page a (mgmtData b))\<lparr>clkPtr := next (frames (mgmtData b) ! a)\<rparr>)
                    else Some (hit_page a (mgmtData b)));
             Some (RC_OK, Some (b\<lparr>mgmtData := md\<rparr>), Some \<lparr>pageNum = pn, data = Some a\<rparr>)
           }"
proof -
  from hit have a: "a \<in> set xs" "pageNum (page (frames (mgmtData b) ! a)) = pn"
    using find_Some_set [of "holds_page (frames (mgmtData b)) pn" xs a]
    by (simp_all add: holds_page_def)
  with ok have lt: "a < length (frames (mgmtData b))"
    by (auto dest: pool_ok_frame_list frame_list_mem)
  with ok have "data (page (frames (mgmtData b) ! a)) = Some a"
    by (simp add: pool_ok_frame)
  with a lt show ?thesis
    by (simp add: pinPage_def findPage_pool [OF ok] hit pinPage_hit_def hit_page_def
        handle_all_fields Let_def)
qed

lemma pinPage_hit_LRU_run:
  assumes ok: "pool_ok b xs" and lru: "strategy b = RS_LRU"
    and hit: "find (holds_page (frames (mgmtData b)) pn) xs = Some a" and nh: "a \<noteq> hd xs"
  shows "\<exists>md'. pinPage (Some b) (Some h) pn st =
             Some (RC_OK, Some (b\<lparr>mgmtData := md'\<rparr>), Some \<lparr>pageNum = pn, data = Some a\<rparr>) \<and>
           frame_list md' (to_front a xs) \<and>
           (a = last xs \<longrightarrow> frame_list_strict md' (to_front a xs)) \<and>
           strip md' = strip (hit_page a (mgmtData b))"
proof -
  from ok have "frame_list (hit_page a (mgmtData b)) xs"
    using frame_list_wiring(1) [of "hit_page a (mgmtData b)" "mgmtData b" xs]
    by (simp add: pool_ok_frame_list)
  moreover from find_holds_page(1) [OF ok hit] nh have "a \<in> set (tl xs)"
    by (cases xs) auto
  ultimately obtain md' where "moveToHead (Some a) (hit_page a (mgmtData b)) = Some md'"
    "frame_list md' (a # remove1 a xs)"
    "a = last xs \<longrightarrow> frame_list_strict md' (a # remove1 a xs)"
    "strip md' = strip (hit_page a (mgmtData b))"
    using moveToHead_frame_list [of "hit_page a (mgmtData b)" xs a] by blast
  with lru show ?thesis
    by (auto simp: pinPage_hit_eq [OF ok hit] to_front_def)
qed

lemma pinPage_hit_LRU_head:
  assumes ok: "pool_ok b xs" and lru: "strategy b = RS_LRU"
    and strict: "frame_list_strict (mgmtData b) xs"
    and hit: "find (holds_page (frames (mgmtData b)) pn) xs = Some (hd xs)"
  shows "pinPage (Some b) (Some h) pn st = None"
proof -
  from strict have "frame_list_strict (hit_page (hd xs) (mgmtData b)) xs"
    using frame_list_wiring(2) [of "hit_page (hd xs) (mgmtData b)" "mgmtData b" xs] by simp
  then have "moveToHead (Some (hd xs)) (hit_page (hd xs) (mgmtData b)) = None"
    by (rule moveToHead_head_strict)
  with lru show ?thesis
    by (simp add: pinPage_hit_eq [OF ok hit])
qed

subsection \<open>Marking, forcing and unpinning\<close>

lemma markDirty_eq:
  assumes "pool_ok b xs"
  shows "markDirty (Some b) (Some h) =
           Some (RC_OK, Some (b\<lparr>mgmtData :=
             (case find (holds_page (frames (mgmtData b)) (pageNum h)) xs of
                None \<Rightarrow> mgmtData b | Some a \<Rightarrow> dirty_page a (mgmtData b))\<rparr>))"
proof (cases "find (holds_page (frames (mgmtData b)) (pageNum h)) xs")
  case None
  then show ?thesis
    by (simp add: markDirty_def findPage_pool [OF assms])
next
  case (Some a)
  with find_holds_page(3) [OF assms Some] show ?thesis
    by (simp add: markDirty_def findPage_pool [OF assms] dirty_page_def Let_def)
qed

lemma forcePage_eq:
  assumes "d < length (bufs (mgmtData b))"
  shows "forcePage (Some b) (Some \<lparr>pageNum = pn, data = Some d\<rparr>) st =
           (case writeBlock pn (Some (fHandle (mgmtData b))) (Some (bufs (mgmtData b) ! d)) st of
              (rc, fh, st') \<Rightarrow>
                Some (RC_OK,
                  Some (b\<lparr>mgmtData := (mgmtData b)\<lparr>fHandle := pointee (fHandle (mgmtData b)) fh,
                                                    numWriteIO := numWriteIO (mgmtData b) + 1\<rparr>\<rparr>),
                  st'))"
  using assms by (simp add: forcePage_def bm_writeBlock_def Let_def split: prod.splits)

lemma page_data_same:
  "data (page f) = d \<Longrightarrow> f\<lparr>fixBit := n, page := (page f)\<lparr>data := d\<rparr>\<rparr> = f\<lparr>fixBit := n\<rparr>"
  by (intro Frame.equality BM_PageHandle.equality) simp_all

lemma unpinPage_eq:
  assumes ok: "pool_ok b xs"
    and hit: "find (holds_page (frames (mgmtData b)) pn) xs = Some a"
  shows "unpinPage (Some b) (Some \<lparr>pageNum = pn, data = Some a\<rparr>) st =
           (if fixBit (frames (mgmtData b) ! a) \<le> 0
            then Some (RC_WRITE_FAILED, Some (b\<lparr>mgmtData := release_page a (mgmtData b)\<rparr>), st)
            else if dirtyBit (frames (mgmtData b) ! a)
            then forcePage (Some (b\<lparr>mgmtData := release_page a (mgmtData b)\<rparr>))
                   (Some \<lparr>pageNum = pn, data = Some a\<rparr>) st
            else Some (RC_OK, Some (b\<lparr>mgmtData := release_page a (mgmtData b)\<rparr>), st))"
proof -
  note a = find_holds_page [OF ok hit]
  from a show ?thesis
    by (cases "bm_writeBlock pn (Some a) (release_page a (mgmtData b)) st")
       (auto simp: unpinPage_def findPage_pool [OF ok] hit release_page_def forcePage_def Let_def
          page_data_same)
qed

lemma unpinPage_dirty_run:
  assumes ok: "pool_ok b xs"
    and hit: "find (holds_page (frames (mgmtData b)) pn) xs = Some a"
    and pinned: "0 < fixBit (frames (mgmtData b) ! a)" and dirty: "dirtyBit (frames (mgmtData b) ! a)"
    and disk: "handle_ok st (fHandle (mgmtData b))" and pn: "0 \<le> pn"
  shows "\<exists>fh' st'. unpinPage (Some b) (Some \<lparr>pageNum = pn, data = Some a\<rparr>) st =
             Some (RC_OK, Some (b\<lparr>mgmtData := (release_page a (mgmtData b))
                     \<lparr>fHandle := fh', numWriteIO := numWriteIO (mgmtData b) + 1\<rparr>\<rparr>), st') \<and>
           pages_of st' fh' = put_block (nat pn) (bufs (mgmtData b) ! a) (pages_of st (fHandle (mgmtData b))) \<and>
           (length (bufs (mgmtData b) ! a) = PAGE_SIZE \<longrightarrow> handle_ok st' fh')"
proof -
  note a = find_holds_page [OF ok hit]
  from writeBlock_ok [OF disk pn, of "bufs (mgmtData b) ! a"] obtain fh' st' where
    w: "writeBlock pn (Some (fHandle (mgmtData b))) (Some (bufs (mgmtData b) ! a)) st = (RC_OK, Some fh', st')"
    and p: "pages_of st' fh' = put_block (nat pn) (bufs (mgmtData b) ! a) (pages_of st (fHandle (mgmtData b)))"
      "length (bufs (mgmtData b) ! a) = PAGE_SIZE \<longrightarrow> handle_ok st' fh'"
    by blast
  from a(5) have "a < length (bufs (mgmtData (b\<lparr>mgmtData := release_page a (mgmtData b)\<rparr>)))"
    by (simp add: release_page_def)
  from forcePage_eq [OF this, of pn st] pinned dirty w p show ?thesis
    by (auto simp: unpinPage_eq [OF ok hit] release_page_def)
qed

subsection \<open>Well-formedness after relinking\<close>

lemma arena_ok_load_page [simp]: "arena_ok (load_page v pn st md) = arena_ok md"
  by (simp add: load_page_def)

lemma length_frames_load_page [simp]:
  "length (frames (load_page v pn st md)) = length (frames md)"
  by (simp add: load_page_def set_pageNum_def fetch_page_def split: prod.splits)

lemma length_frames_hit_page [simp]: "length (frames (hit_page a md)) = length (frames md)"
  by (simp add: hit_page_def)

lemma pool_ok_relinked:
  assumes "pool_ok b xs" and "frame_list md' ys" and "strip md' = strip md2"
    and "arena_ok md2 = arena_ok (mgmtData b)"
    and "length (frames md2) = length (frames (mgmtData b))"
  shows "pool_ok (b\<lparr>mgmtData := md'\<rparr>) ys"
  using assms arena_ok_strip [of md' md2] strip_eq_fields(7) [of md' md2]
  by (simp add: pool_ok_def)

lemma strip_frame:
  assumes "strip md' = strip md" and "a < length (frames md)"
  shows "fixBit (frames md' ! a) = fixBit (frames md ! a)"
    "dirtyBit (frames md' ! a) = dirtyBit (frames md ! a)"
    "page (frames md' ! a) = page (frames md ! a)"
    "refBit (frames md' ! a) = refBit (frames md ! a)"
proof -
  from strip_frames [OF assms] have "unlinked (frames md' ! a) = unlinked (frames md ! a)"
    by simp
  then show "fixBit (frames md' ! a) = fixBit (frames md ! a)"
    "dirtyBit (frames md' ! a) = dirtyBit (frames md ! a)"
    "page (frames md' ! a) = page (frames md ! a)"
    "refBit (frames md' ! a) = refBit (frames md ! a)"
    by (metis unlinked_fields)+
qed

lemma load_page_frame:
  assumes "v < length (frames md)"
  shows "fixBit (frames (load_page v pn st md) ! a) =
           (if a = v then fixBit (frames md ! v) + 1 else fixBit (frames md ! a))"
    "pageNum (page (frames (load_page v pn st md) ! a)) =
           (if a = v then pn else pageNum (page (frames md ! a)))"
    "dirtyBit (frames (load_page v pn st md) ! a) = dirtyBit (frames md ! a)"
    "numReadIO (load_page v pn st md) = numReadIO md + 1"
    "numWriteIO (load_page v pn st md) = numWriteIO md"
  using assms
  by (auto simp: load_page_def set_pageNum_def fetch_page_def nth_list_update_if split: prod.splits)

lemma load_page_buffer:
  assumes "v < length (bufs md)"
  shows "bufs (load_page v pn st md) ! v =
           pointee (bufs md ! v) (snd (snd (readBlock pn (Some (fHandle md)) (Some (bufs md ! v)) st)))"
  using assms
  by (simp add: load_page_def set_pageNum_def fetch_page_def split: prod.splits)

lemma victim_in_pool:
  assumes "pool_ok b xs" and "\<exists>a \<in> set (tl xs). unpinned (frames (mgmtData b)) a"
  shows "victim_of (frames (mgmtData b)) xs \<in> set (tl xs)"
    "victim_of (frames (mgmtData b)) xs \<in> set xs"
    "fixBit (frames (mgmtData b) ! victim_of (frames (mgmtData b)) xs) = 0"
    "victim_of (frames (mgmtData b)) xs < length (frames (mgmtData b))"
    "victim_of (frames (mgmtData b)) xs < length (bufs (mgmtData b))"
proof -
  let ?v = "victim_of (frames (mgmtData b)) xs"
  from assms(2) show v: "?v \<in> set (tl xs)" and "fixBit (frames (mgmtData b) ! ?v) = 0"
    using victim_of_unpinned [of xs "frames (mgmtData b)"] by (simp_all add: unpinned_def)
  from v show "?v \<in> set xs"
    by (rule in_tl_set)
  with assms(1) show "?v < length (frames (mgmtData b))"
    by (auto dest: pool_ok_frame_list frame_list_mem)
  with assms(1) show "?v < length (bufs (mgmtData b))"
    by (simp add: pool_ok_frame)
qed

subsection \<open>What pinPage does whenever it returns\<close>

lemma strip_simps [simp]:
  "strip (md\<lparr>head := h\<rparr>) = strip md"
  "strip (md\<lparr>tail := t\<rparr>) = strip md"
  by (simp_all add: strip_def)

lemma frame_upd_strip:
  assumes "frame_upd p f md = Some md'" and "\<And>g. unlinked (f g) = unlinked g"
  shows "strip md' = strip md"
  using assms by (auto simp: frame_upd_eq_Some strip_def)

lemma moveToHead_strip:
  assumes "moveToHead p md = Some md'"
  shows "strip md' = strip md"
  using assms
  by (auto simp: moveToHead_def Let_def bind_eq_Some_conv split: if_splits
      dest!: frame_upd_strip)

lemma frame_list_set:
  assumes "frame_list md xs"
  shows "set xs = {..<length (frames md)}"
proof (rule card_subset_eq)
  from assms show "set xs \<subseteq> {..<length (frames md)}"
    by (auto simp: frame_list_def dest: in_arenaD)
  from assms show "card (set xs) = card {..<length (frames md)}"
    by (simp add: frame_list_def distinct_card)
qed simp

lemma distinct_filter_update:
  "distinct (filter P ps) \<Longrightarrow> x \<notin> set ps \<Longrightarrow> distinct (filter P (ps[a := x]))"
proof (induction ps arbitrary: a)
  case Nil
  then show ?case by simp
next
  case (Cons p ps)
  then show ?case
    by (cases a) (auto split: if_splits dest: set_update_subset_insert [THEN subsetD])
qed

lemma findVictim_in_arena:
  "findVictim md n p = Some q \<Longrightarrow> \<exists>v. q = Some v \<and> v < length (frames md)"
  by (induction md n p rule: findVictim.induct)
     (auto simp: bind_eq_Some_conv frame_at_eq_Some split: if_splits)

lemma pinPage_replace_strip:
  assumes ok: "pool_ok b xs" and run: "pinPage_replace b pn st = Some (frame, md')"
  shows "\<exists>v. frame = Some v \<and> v < length (frames (mgmtData b)) \<and>
           strip md' = strip (fetch_page v pn st (mgmtData b))"
proof -
  let ?md = "mgmtData b"
  from run obtain q where fv: "findVictim ?md (Suc (length (frames ?md))) (tail ?md) = Some q"
    by (auto simp: pinPage_replace_def Let_def bind_eq_Some_conv simp del: findVictim.simps)
  then obtain v where v: "q = Some v" "v < length (frames ?md)"
    using findVictim_in_arena by blast
  with ok have d: "data (page (frames ?md ! v)) = Some v" "v < length (bufs ?md)"
    by (simp_all add: pool_ok_frame)
  note rd = bm_readBlock_fetch [OF d(2), of pn st]
  note md2 = fetch_page_fields [of v pn st ?md, symmetric]
  from run fv v d have "frame = Some v" "moveToHead (Some v) (fetch_page v pn st ?md) = Some md'"
    by (auto simp: pinPage_replace_def Let_def rd md2 bind_eq_Some_conv simp del: findVictim.simps)
  with v show ?thesis
    by (auto dest: moveToHead_strip)
qed

lemma pinPage_effect:
  assumes ok: "pool_ok b xs" and strat: "strategy b \<noteq> RS_CLOCK"
    and run: "pinPage (Some b) (Some h) pn st = Some (rc, bm', pg')"
  shows "\<exists>md' a. rc = RC_OK \<and> bm' = Some (b\<lparr>mgmtData := md'\<rparr>) \<and>
           pg' = Some \<lparr>pageNum = pn, data = Some a\<rparr> \<and> a < length (frames (mgmtData b)) \<and>
           (case find (holds_page (frames (mgmtData b)) pn) xs of
              Some a' \<Rightarrow> a = a' \<and> strip md' = strip (hit_page a (mgmtData b))
            | None \<Rightarrow> strip md' = strip (load_page a pn st (mgmtData b)))"
proof (cases "find (holds_page (frames (mgmtData b)) pn) xs")
  case (Some a)
  note a = find_holds_page [OF ok Some]
  from run strat a(3) show ?thesis
    by (cases "strategy b")
       (auto simp: pinPage_hit_eq [OF ok Some] Some bind_eq_Some_conv dest: moveToHead_strip)
next
  case None
  from strat have s: "strategy b = RS_FIFO \<or> strategy b = RS_LRU"
    by (cases "strategy b") simp_all
  from run None s obtain frame md1 where r: "pinPage_replace b pn st = Some (frame, md1)"
    by (auto simp: pinPage_def findPage_pool [OF ok] bind_eq_Some_conv)
  from pinPage_replace_strip [OF ok r] obtain v where v: "frame = Some v"
    "v < length (frames (mgmtData b))" "strip md1 = strip (fetch_page v pn st (mgmtData b))"
    by blast
  from v(2,3) have len: "v < length (frames md1)"
    using strip_eq_fields(7) [of md1 "fetch_page v pn st (mgmtData b)"]
    by (simp add: fetch_page_def split: prod.splits)
  from ok v have "arena_ok md1"
    using arena_ok_strip [of md1 "fetch_page v pn st (mgmtData b)"] by (simp add: pool_ok_def)
  with len have d: "data (page (frames md1 ! v)) = Some v"
    using nth_map [of v "frames md1" "\<lambda>f. data (page f)"] by (simp add: arena_ok_def)
  from run None s r v len d have "rc = RC_OK" "bm' = Some (b\<lparr>mgmtData := set_pageNum v pn md1\<rparr>)"
    "pg' = Some \<lparr>pageNum = pn, data = Some v\<rparr>"
    by (auto simp: pinPage_def findPage_pool [OF ok] set_pageNum_def handle_all_fields)
  moreover from v(3) have "strip (set_pageNum v pn md1) = strip (load_page v pn st (mgmtData b))"
    unfolding load_page_def by (rule strip_set_pageNum)
  ultimately show ?thesis
    using v(2) None by auto
qed

lemma resident_strip: "strip md' = strip md \<Longrightarrow> resident md' = resident md"
  using map_via_unlinked [of "frames md'" "frames md" "\<lambda>f. pageNum (page f)"]
    strip_eq_fields(1) [of md' md]
  by (simp add: resident_def)

lemma resident_hit_page [simp]: "resident (hit_page a md) = resident md"
  by (simp add: resident_def hit_page_def map_sel_update_same)

lemma pages_load_page:
  "map (\<lambda>f. pageNum (page f)) (frames (load_page v pn st md)) =
     (map (\<lambda>f. pageNum (page f)) (frames md))[v := pn]"
  by (simp add: load_page_def set_pageNum_def fetch_page_def map_update split: prod.splits)

lemma resident_load_page:
  assumes "frame_list md xs" and "find (holds_page (frames md) pn) xs = None"
    and "distinct (resident md)"
  shows "distinct (resident (load_page v pn st md))"
proof -
  from assms(1,2) have "pn \<notin> set (map (\<lambda>f. pageNum (page f)) (frames md))"
    using frame_list_set [OF assms(1)]
    by (auto simp: find_None_set holds_page_def in_set_conv_nth)
  with assms(3) show ?thesis
    by (simp add: resident_def pages_load_page distinct_filter_update)
qed

lemma hit_page_frame:
  assumes "a < length (frames md)"
  shows "fixBit (frames (hit_page a md) ! c) =
           (if c = a then fixBit (frames md ! a) + 1 else fixBit (frames md ! c))"
    "page (frames (hit_page a md) ! c) = page (frames md ! c)"
    "dirtyBit (frames (hit_page a md) ! c) = dirtyBit (frames md ! c)"
    "numReadIO (hit_page a md) = numReadIO md" "numWriteIO (hit_page a md) = numWriteIO md"
    "bufs (hit_page a md) = bufs md"
  using assms by (auto simp: hit_page_def nth_list_update_if)

subsection \<open>Reports\<close>

lemma report_seq_frame_list:
  assumes fl: "frame_list md xs" and sq: "map seq (frames md) = map int [0..<length (frames md)]"
  shows "i + k \<le> length (frames md) \<Longrightarrow> length arr = length (frames md) \<Longrightarrow>
     \<exists>r. report_seq sel md (length (frames md)) (int i) k arr = Some r \<and> length r = length arr \<and>
         (\<forall>j < length arr. r ! j = (if i \<le> j \<and> j < i + k then sel (frames md ! j) else arr ! j))"
proof (induction k arbitrary: i arr)
  case 0
  then show ?case by auto
next
  case (Suc k)
  let ?fs = "frames md"
  from fl have h: "head md = start xs None" "length xs = length ?fs" "links ?fs xs None"
    "in_arena ?fs xs"
    by (simp_all add: frame_list_def start_hd)
  have "seq (?fs ! a) = int a" if "a < length ?fs" for a
    using that nth_map [of a ?fs seq] by (simp add: sq)
  with fl have "\<forall>a \<in> set xs. seq (?fs ! a) = int a"
    by (auto dest: frame_list_mem)
  with h Suc.prems have inner: "report_seq_inner sel md (int i) (length ?fs) (head md) arr =
      Some (arr[i := sel (?fs ! i)])"
    using report_seq_inner_links [of md xs None "int i" sel arr] frame_list_set [OF fl]
    by simp
  from Suc.prems obtain r where
    r: "report_seq sel md (length ?fs) (int (Suc i)) k (arr[i := sel (?fs ! i)]) = Some r"
      "length r = length arr"
      "\<forall>j < length arr. r ! j = (if Suc i \<le> j \<and> j < Suc i + k then sel (?fs ! j)
                                   else arr[i := sel (?fs ! i)] ! j)"
    using Suc.IH [of "Suc i" "arr[i := sel (?fs ! i)]"] by auto
  with inner show ?case
    by (auto simp: add.commute nth_list_update_if)
qed

lemma report_pool:
  assumes "pool_ok b xs" and "strategy b \<noteq> RS_CLOCK" and "length arr = length (frames (mgmtData b))"
  shows "report sel b arr = Some (map sel (frames (mgmtData b)))"
proof -
  let ?fs = "frames (mgmtData b)"
  from assms(1) have fl: "frame_list (mgmtData b) xs" and sq: "map seq ?fs = map int [0..<length ?fs]"
    and n: "nat (numPages b) = length ?fs"
    by (simp_all add: pool_ok_def arena_ok_def)
  from report_seq_frame_list [OF fl sq, of 0 "length ?fs" arr sel] assms(3) obtain r where
    r: "report_seq sel (mgmtData b) (length ?fs) 0 (length ?fs) arr = Some r" "length r = length ?fs"
      "\<forall>j < length ?fs. r ! j = sel (?fs ! j)"
    by auto
  from r(2,3) have "r = map sel ?fs"
    by (intro nth_equalityI) simp_all
  with r(1) assms(2) n show ?thesis
    by (cases "strategy b") (simp_all add: report_def)
qed

lemma getRefBits_pool:
  assumes "pool_ok b xs" and "length (refBits (mgmtData b)) = length (frames (mgmtData b))"
  shows "map_option fst (getRefBits (Some b)) =
           Some (Inr (map (\<lambda>a. refBit (frames (mgmtData b) ! a)) xs))"
proof -
  let ?fs = "frames (mgmtData b)"
  from assms(1) have h: "head (mgmtData b) = start xs None" "length xs = length ?fs"
    "links ?fs xs None" "in_arena ?fs xs" and n: "nat (numPages b) = length ?fs"
    by (simp_all add: pool_ok_def frame_list_def start_hd)
  with assms(2) show ?thesis
    using report_walk_links [of "mgmtData b" xs None 0 "refBits (mgmtData b)" refBit]
    by (simp add: getRefBits_def Let_def)
qed

lemma reports_ok_strip:
  assumes "strip md' = strip md"
  shows "reports_ok md' = reports_ok md"
proof -
  have "frameContents md' = frameContents md" "dirtyFlags md' = dirtyFlags md"
    "fixCounts md' = fixCounts md" "refBits md' = refBits md"
    using arg_cong [OF assms, of frameContents] arg_cong [OF assms, of dirtyFlags]
      arg_cong [OF assms, of fixCounts] arg_cong [OF assms, of refBits]
    by (simp_all add: strip_def)
  with strip_eq_fields(7) [OF assms] show ?thesis
    by (simp add: reports_ok_def)
qed

end
