(* ===== verification/Pool_Flush.thy ===== *)
theory Pool_Flush
  imports Buffer_Pool
begin

text \<open>
  Writing dirty pages back: \<^verbatim>\<open>forceFlushPool\<close> and \<^verbatim>\<open>shutdownBufferPool\<close>.
  \<open>flush_frames\<close> is the loop of \<^verbatim>\<open>forceFlushPool\<close> over the list of frame
  addresses instead of the pointers; the lemmas show that the code computes
  it on a well-formed pool, what it does to the frames and to the file, and
  how the two loops of \<^verbatim>\<open>shutdownBufferPool\<close> run on a pool with and
  without pinned frames.
\<close>

definition flushable :: "Frame list \<Rightarrow> nat \<Rightarrow> bool" where
  "flushable fs a \<longleftrightarrow> dirtyBit (fs ! a) \<and> fixBit (fs ! a) = 0"

definition flush_frame :: "nat \<Rightarrow> BM_MgmtData \<Rightarrow> storage \<Rightarrow> BM_MgmtData \<times> storage" where
  "flush_frame a md st =
     (if flushable (frames md) a then
        (case writeBlock (pageNum (page (frames md ! a))) (Some (fHandle md)) (Some (bufs md ! a)) st of
           (rc, fh, st') \<Rightarrow>
             (md\<lparr>fHandle := pointee (fHandle md) fh,
                 frames := (frames md)[a := (frames md ! a)\<lparr>dirtyBit := False\<rparr>]\<rparr>, st'))
      else (md, st))"

fun flush_frames :: "nat list \<Rightarrow> BM_MgmtData \<Rightarrow> storage \<Rightarrow> BM_MgmtData \<times> storage" where
  "flush_frames [] md st = (md, st)"
| "flush_frames (a # xs) md st = (case flush_frame a md st of (md', st') \<Rightarrow> flush_frames xs md' st')"

definition write_back :: "BM_MgmtData \<Rightarrow> page list \<Rightarrow> nat \<Rightarrow> page list" where
  "write_back md ps a = put_block (nat (pageNum (page (frames md ! a)))) (bufs md ! a) ps"

definition flushed :: "Frame \<Rightarrow> Frame" where
  "flushed f = (if dirtyBit f \<and> fixBit f = 0 then f\<lparr>dirtyBit := False\<rparr> else f)"

subsection \<open>One frame\<close>

lemma flush_frame_fields:
  "wiring (fst (flush_frame a md st)) = wiring md"
  "bufs (fst (flush_frame a md st)) = bufs md"
  "numWriteIO (fst (flush_frame a md st)) = numWriteIO md"
  "numReadIO (fst (flush_frame a md st)) = numReadIO md"
  "length (frames (fst (flush_frame a md st))) = length (frames md)"
  "map (\<lambda>f. data (page f)) (frames (fst (flush_frame a md st))) = map (\<lambda>f. data (page f)) (frames md)"
  by (simp_all add: flush_frame_def wiring_def map_sel_update_same split: prod.splits)

lemma flush_frame_frames:
  "frames (fst (flush_frame a md st)) ! c =
     (if c = a \<and> flushable (frames md) a \<and> a < length (frames md)
      then (frames md ! a)\<lparr>dirtyBit := False\<rparr> else frames md ! c)"
  by (auto simp: flush_frame_def nth_list_update_if split: prod.splits)

lemma forceFlush_step:
  assumes "a < length (frames md)" and "data (page (frames md ! a)) = Some a"
    and "a < length (bufs md)"
  shows "forceFlush_loop (Suc n) (Some a) md st =
           forceFlush_loop n (next (frames md ! a)) (fst (flush_frame a md st)) (snd (flush_frame a md st))"
  using assms
  by (auto simp: flush_frame_def flushable_def bm_writeBlock_def split: prod.splits)

lemma forceFlush_loop_links:
  "links (frames md) xs q \<Longrightarrow> in_arena (frames md) xs \<Longrightarrow>
   map (\<lambda>f. data (page f)) (frames md) = map Some [0..<length (frames md)] \<Longrightarrow>
   length (bufs md) = length (frames md) \<Longrightarrow>
     forceFlush_loop (length xs) (start xs q) md st = Some (flush_frames xs md st)"
proof (induction xs arbitrary: md st)
  case Nil
  then show ?case by simp
next
  case (Cons a xs)
  let ?md = "fst (flush_frame a md st)" and ?st = "snd (flush_frame a md st)"
  from Cons.prems have a: "a < length (frames md)" "a < length (bufs md)"
    "next (frames md ! a) = start xs q"
    by (simp_all add: links_Cons)
  with Cons.prems(3) have d: "data (page (frames md ! a)) = Some a"
    using nth_map [of a "frames md" "\<lambda>f. data (page f)"] by simp
  from Cons.prems have "links (frames ?md) xs q"
    using links_wiring [of "frames ?md" "frames md" xs q] flush_frame_fields(1) [of a md st]
    by (simp add: wiring_def links_Cons)
  with Cons.prems have "forceFlush_loop (length xs) (start xs q) ?md ?st = Some (flush_frames xs ?md ?st)"
    by (intro Cons.IH) (simp_all add: flush_frame_fields in_arena_def)
  with a d show ?case
    by (simp add: forceFlush_step split: prod.splits del: forceFlush_loop.simps)
qed

lemma flush_frames_Cons:
  "flush_frames (a # xs) md st =
     flush_frames xs (fst (flush_frame a md st)) (snd (flush_frame a md st))"
  by (simp split: prod.splits)

lemma flush_frames_effect:
  "distinct xs \<Longrightarrow>
     wiring (fst (flush_frames xs md st)) = wiring md \<and>
     bufs (fst (flush_frames xs md st)) = bufs md \<and>
     numWriteIO (fst (flush_frames xs md st)) = numWriteIO md \<and>
     numReadIO (fst (flush_frames xs md st)) = numReadIO md \<and>
     length (frames (fst (flush_frames xs md st))) = length (frames md) \<and>
     (\<forall>c. frames (fst (flush_frames xs md st)) ! c =
           (if c \<in> set xs \<and> flushable (frames md) c \<and> c < length (frames md)
            then (frames md ! c)\<lparr>dirtyBit := False\<rparr> else frames md ! c))"
proof (induction xs arbitrary: md st)
  case Nil
  then show ?case by simp
next
  case (Cons a xs)
  let ?md = "fst (flush_frame a md st)" and ?st = "snd (flush_frame a md st)"
  from Cons.prems have d: "distinct xs" "a \<notin> set xs"
    by simp_all
  then have same: "flushable (frames ?md) c = flushable (frames md) c" if "c \<in> set xs" for c
    using that by (auto simp: flushable_def flush_frame_frames)
  from Cons.IH [OF d(1), of ?md ?st] d(2) same show ?case
    by (auto simp: flush_frames_Cons flush_frame_fields flush_frame_frames
        simp del: flush_frames.simps)
qed

lemma flush_frame_disk:
  assumes "handle_ok st (fHandle md)"
    and "flushable (frames md) a \<longrightarrow>
           0 \<le> pageNum (page (frames md ! a)) \<and> length (bufs md ! a) = PAGE_SIZE"
  shows "handle_ok (snd (flush_frame a md st)) (fHandle (fst (flush_frame a md st))) \<and>
         pages_of (snd (flush_frame a md st)) (fHandle (fst (flush_frame a md st))) =
           (if flushable (frames md) a then write_back md (pages_of st (fHandle md)) a
            else pages_of st (fHandle md))"
proof (cases "flushable (frames md) a")
  case False
  with assms show ?thesis
    by (simp add: flush_frame_def)
next
  case True
  with assms(2) have p: "0 \<le> pageNum (page (frames md ! a))" "length (bufs md ! a) = PAGE_SIZE"
    by simp_all
  from writeBlock_ok [OF assms(1) p(1), of "bufs md ! a"] p(2) True show ?thesis
    by (auto simp: flush_frame_def write_back_def)
qed

lemma flush_frames_disk:
  "handle_ok st (fHandle md) \<Longrightarrow> distinct xs \<Longrightarrow>
   \<forall>a \<in> set xs. flushable (frames md) a \<longrightarrow>
      0 \<le> pageNum (page (frames md ! a)) \<and> length (bufs md ! a) = PAGE_SIZE \<Longrightarrow>
     handle_ok (snd (flush_frames xs md st)) (fHandle (fst (flush_frames xs md st))) \<and>
     pages_of (snd (flush_frames xs md st)) (fHandle (fst (flush_frames xs md st))) =
       foldl (write_back md) (pages_of st (fHandle md)) (filter (flushable (frames md)) xs)"
proof (induction xs arbitrary: md st)
  case Nil
  then show ?case by simp
next
  case (Cons a xs)
  let ?md = "fst (flush_frame a md st)" and ?st = "snd (flush_frame a md st)"
  from Cons.prems have d: "distinct xs" "a \<notin> set xs"
    by simp_all
  then have same: "flushable (frames ?md) c = flushable (frames md) c"
    "write_back ?md ps c = write_back md ps c"
    "pageNum (page (frames ?md ! c)) = pageNum (page (frames md ! c))" if "c \<in> set xs" for c ps
    using that by (auto simp: flushable_def write_back_def flush_frame_frames flush_frame_fields)
  from Cons.prems have step: "handle_ok ?st (fHandle ?md)"
    "pages_of ?st (fHandle ?md) =
       (if flushable (frames md) a then write_back md (pages_of st (fHandle md)) a
        else pages_of st (fHandle md))"
    using flush_frame_disk [of st md a] by simp_all
  from same(1) have f: "filter (flushable (frames ?md)) xs = filter (flushable (frames md)) xs"
    by (intro filter_cong) auto
  from same(2) have g: "foldl (write_back ?md) ps (filter (flushable (frames md)) xs) =
      foldl (write_back md) ps (filter (flushable (frames md)) xs)" for ps
    by (intro foldl_cong) auto
  from Cons.prems same have "\<forall>c \<in> set xs. flushable (frames ?md) c \<longrightarrow>
      0 \<le> pageNum (page (frames ?md ! c)) \<and> length (bufs ?md ! c) = PAGE_SIZE"
    by (simp add: flush_frame_fields)
  from Cons.IH [OF step(1) d(1) this] step(2) f g show ?case
    by (simp add: flush_frames_Cons del: flush_frames.simps)
qed

lemma foldl_write_back_nth:
  assumes "distinct (map (\<lambda>a. pageNum (page (frames md ! a))) ys)"
    and "\<forall>c \<in> set ys. 0 \<le> pageNum (page (frames md ! c))" and "a \<in> set ys"
  shows "nat (pageNum (page (frames md ! a))) < length (foldl (write_back md) ps ys) \<and>
         foldl (write_back md) ps ys ! nat (pageNum (page (frames md ! a))) = bufs md ! a"
  using assms
proof (induction ys rule: rev_induct)
  case Nil
  then show ?case by simp
next
  case (snoc c ys)
  show ?case
  proof (cases "a = c")
    case True
    then show ?thesis
      by (simp add: write_back_def length_put_block)
  next
    case False
    let ?ps = "foldl (write_back md) ps ys"
    from False snoc.prems have a: "a \<in> set ys"
      by simp
    with snoc.prems have "pageNum (page (frames md ! a)) \<noteq> pageNum (page (frames md ! c))"
      "0 \<le> pageNum (page (frames md ! a))" "0 \<le> pageNum (page (frames md ! c))"
      by (auto simp: image_iff)
    then have ne: "nat (pageNum (page (frames md ! a))) \<noteq> nat (pageNum (page (frames md ! c)))"
      by simp
    from snoc.IH snoc.prems a
    have "nat (pageNum (page (frames md ! a))) < length ?ps"
      "?ps ! nat (pageNum (page (frames md ! a))) = bufs md ! a"
      by simp_all
    with ne show ?thesis
      by (simp add: write_back_def [of md ?ps] length_put_block put_block_nth_other)
  qed
qed

lemma flush_frames_none:
  "\<forall>a \<in> set xs. \<not> flushable (frames md) a \<Longrightarrow> flush_frames xs md st = (md, st)"
  by (induction xs) (simp_all add: flush_frame_def)

lemma pool_ok_flush:
  assumes "pool_ok b xs"
  shows "pool_ok (b\<lparr>mgmtData := fst (flush_frames xs (mgmtData b) st)\<rparr>) xs"
proof -
  let ?md = "mgmtData b" and ?md' = "fst (flush_frames xs (mgmtData b) st)"
  from assms have "distinct xs"
    by (simp add: pool_ok_def frame_list_def)
  note e = flush_frames_effect [OF this, of ?md st]
  from e have "map (\<lambda>f. data (page f)) (frames ?md') = map (\<lambda>f. data (page f)) (frames ?md)"
    "map seq (frames ?md') = map seq (frames ?md)"
    by (auto intro!: nth_equalityI)
  with e assms show ?thesis
    using frame_list_wiring(1) [of ?md' ?md xs] by (simp add: pool_ok_def arena_ok_def)
qed

lemma flush_frames_frames:
  assumes "pool_ok b xs"
  shows "frames (fst (flush_frames xs (mgmtData b) st)) = map flushed (frames (mgmtData b))"
proof (rule nth_equalityI)
  from assms have d: "distinct xs" and s: "set xs = {..<length (frames (mgmtData b))}"
    by (simp_all add: pool_ok_def frame_list_set) (simp add: frame_list_def)
  note e = flush_frames_effect [OF d, of "mgmtData b" st]
  from e show "length (frames (fst (flush_frames xs (mgmtData b) st))) = length (map flushed (frames (mgmtData b)))"
    by simp
  fix c assume "c < length (frames (fst (flush_frames xs (mgmtData b) st)))"
  with e s show "frames (fst (flush_frames xs (mgmtData b) st)) ! c = map flushed (frames (mgmtData b)) ! c"
    by (simp add: flushed_def flushable_def)
qed

lemma forceFlushPool_eq:
  assumes "pool_ok b xs"
  shows "forceFlushPool (Some b) st =
           Some (RC_OK, Some (b\<lparr>mgmtData := fst (flush_frames xs (mgmtData b) st)\<rparr>),
                 snd (flush_frames xs (mgmtData b) st))"
proof -
  from assms have "head (mgmtData b) = start xs None" "nat (numPages b) = length xs"
    "links (frames (mgmtData b)) xs None" "in_arena (frames (mgmtData b)) xs"
    "map (\<lambda>f. data (page f)) (frames (mgmtData b)) = map Some [0..<length (frames (mgmtData b))]"
    "length (bufs (mgmtData b)) = length (frames (mgmtData b))"
    by (simp_all add: pool_ok_def arena_ok_def frame_list_def start_hd)
  then show ?thesis
    using forceFlush_loop_links [of "mgmtData b" xs None st]
    by (simp add: forceFlushPool_def Let_def case_prod_unfold)
qed

lemma free_loop_links:
  "links (frames md) xs q \<Longrightarrow> in_arena (frames md) xs \<Longrightarrow>
     free_loop (length xs) (start xs q) md = Some ()"
  by (induction xs) (simp_all add: links_Cons)

lemma shutdown_loop_clean:
  "links (frames (mgmtData b)) ys q \<Longrightarrow> in_arena (frames (mgmtData b)) ys \<Longrightarrow>
   \<forall>a \<in> set ys. fixBit (frames (mgmtData b) ! a) = 0 \<and> \<not> dirtyBit (frames (mgmtData b) ! a) \<Longrightarrow>
     shutdown_loop (length ys) (start ys q) b st = Some (RC_OK, b, st)"
  by (induction ys) (simp_all add: links_Cons)

lemma flushed_clean:
  assumes "pool_ok b xs" and "\<forall>a \<in> set xs. fixBit (frames (mgmtData b) ! a) = 0" and "c \<in> set xs"
  shows "fixBit (frames (fst (flush_frames xs (mgmtData b) st)) ! c) = 0"
    "\<not> dirtyBit (frames (fst (flush_frames xs (mgmtData b) st)) ! c)"
proof -
  from assms(1) have "distinct xs" "c < length (frames (mgmtData b))"
    using assms(3) by (auto simp: pool_ok_def frame_list_def dest: in_arenaD)
  with flush_frames_effect [of xs "mgmtData b" st] assms(2,3)
  show "fixBit (frames (fst (flush_frames xs (mgmtData b) st)) ! c) = 0"
    "\<not> dirtyBit (frames (fst (flush_frames xs (mgmtData b) st)) ! c)"
    by (auto simp: flushable_def)
qed

lemma shutdown_loop_unpinned:
  assumes ok: "pool_ok b xs" and un: "\<forall>a \<in> set xs. fixBit (frames (mgmtData b) ! a) = 0"
  shows "links (frames (mgmtData b)) ys q \<Longrightarrow> set ys \<subseteq> set xs \<Longrightarrow>
     shutdown_loop (length ys) (start ys q) b st =
       Some (RC_OK,
         if \<exists>a \<in> set ys. dirtyBit (frames (mgmtData b) ! a)
         then (b\<lparr>mgmtData := fst (flush_frames xs (mgmtData b) st)\<rparr>,
               snd (flush_frames xs (mgmtData b) st))
         else (b, st))"
proof (induction ys)
  case Nil
  then show ?case by simp
next
  case (Cons a ys)
  let ?md = "mgmtData b"
  let ?b' = "b\<lparr>mgmtData := fst (flush_frames xs ?md st)\<rparr>" and ?st' = "snd (flush_frames xs ?md st)"
  from ok have fl: "frame_list ?md xs" and d: "distinct xs"
    by (simp_all add: pool_ok_def frame_list_def)
  from Cons.prems fl have a: "a \<in> set xs" "a < length (frames ?md)" "next (frames ?md ! a) = start ys q"
    "links (frames ?md) ys q" "set ys \<subseteq> set xs"
    by (auto simp: links_Cons dest: frame_list_mem)
  note e = flush_frames_effect [OF d, of ?md st]
  show ?case
  proof (cases "dirtyBit (frames ?md ! a)")
    case False
    with a un Cons.IH [OF a(4,5)] show ?thesis
      by simp
  next
    case True
    from e a(4) fl have l: "links (frames (mgmtData ?b')) ys q"
      using links_wiring [of "frames (mgmtData ?b')" "frames ?md" ys q] a(5)
      by (auto simp: wiring_def in_arena_def list_all_iff dest: frame_list_mem)
    from e a have n: "next (frames (mgmtData ?b') ! a) = start ys q"
      using nth_map [of a "frames (mgmtData ?b')" "next"] nth_map [of a "frames ?md" "next"]
      by (simp add: wiring_def)
    from a(5) have c: "\<forall>c \<in> set ys. fixBit (frames (mgmtData ?b') ! c) = 0 \<and>
        \<not> dirtyBit (frames (mgmtData ?b') ! c)"
      using flushed_clean [OF ok un, of _ st] by auto
    from a(5) fl e have "in_arena (frames (mgmtData ?b')) ys"
      by (auto simp: in_arena_def list_all_iff dest: frame_list_mem)
    with l have "shutdown_loop (length ys) (start ys q) ?b' ?st' = Some (RC_OK, ?b', ?st')"
      using c by (rule shutdown_loop_clean)
    with True a un e n show ?thesis
      by (simp add: forceFlushPool_eq [OF ok])
  qed
qed

lemma shutdownBufferPool_unpinned:
  assumes ok: "pool_ok b xs" and un: "\<forall>a \<in> set xs. fixBit (frames (mgmtData b) ! a) = 0"
  shows "shutdownBufferPool (Some b) st =
           Some (RC_OK,
             Some (b\<lparr>mgmtData := (fst (flush_frames xs (mgmtData b) st))
               \<lparr>frames := [], bufs := [], frameContents := [], dirtyFlags := [],
                fixCounts := [], refBits := []\<rparr>\<rparr>),
             snd (flush_frames xs (mgmtData b) st))"
proof -
  let ?md = "mgmtData b" and ?md' = "fst (flush_frames xs (mgmtData b) st)"
  from ok have h: "head ?md = start xs None" "nat (numPages b) = length xs"
    "links (frames ?md) xs None" "in_arena (frames ?md) xs" and d: "distinct xs"
    by (simp_all add: pool_ok_def frame_list_def start_hd)
  have same: "flush_frames xs ?md st = (?md, st)" if "\<not> (\<exists>a \<in> set xs. dirtyBit (frames ?md ! a))"
    using that by (intro flush_frames_none) (simp add: flushable_def)
  from shutdown_loop_unpinned [OF ok un h(3) subset_refl, of st] same
  have loop: "shutdown_loop (length xs) (start xs None) b st =
      Some (RC_OK, b\<lparr>mgmtData := ?md'\<rparr>, snd (flush_frames xs ?md st))"
    by (cases "\<exists>a \<in> set xs. dirtyBit (frames ?md ! a)") simp_all
  note e = flush_frames_effect [OF d, of ?md st]
  from e h have "free_loop (length xs) (start xs None) ?md' = Some ()"
    using links_wiring [of "frames ?md'" "frames ?md" xs None]
    by (intro free_loop_links) (simp_all add: wiring_def in_arena_def)
  with e h loop show ?thesis
    by (simp add: shutdownBufferPool_def wiring_def)
qed

lemma flush_frames_idem:
  assumes "distinct xs" and "in_arena (frames md) xs"
  shows "flush_frames xs (fst (flush_frames xs md st)) st' = (fst (flush_frames xs md st), st')"
  using flush_frames_effect [OF assms(1), of md st] assms(2)
  by (intro flush_frames_none) (auto simp: flushable_def dest: in_arenaD)

lemma shutdown_loop_pinned:
  "pool_ok b xs \<Longrightarrow> links (frames (mgmtData b)) ys q \<Longrightarrow> set ys \<subseteq> set xs \<Longrightarrow>
   \<exists>a \<in> set ys. fixBit (frames (mgmtData b) ! a) \<noteq> 0 \<Longrightarrow>
     \<exists>r. shutdown_loop (length ys) (start ys q) b st = Some (RC_WRITE_FAILED, r) \<and>
         (r = (b, st) \<or>
          r = (b\<lparr>mgmtData := fst (flush_frames xs (mgmtData b) st)\<rparr>,
               snd (flush_frames xs (mgmtData b) st)))"
proof (induction ys arbitrary: b st)
  case Nil
  then show ?case by simp
next
  case (Cons a ys)
  let ?md = "mgmtData b"
  let ?b' = "b\<lparr>mgmtData := fst (flush_frames xs ?md st)\<rparr>" and ?st' = "snd (flush_frames xs ?md st)"
  from Cons.prems(1) have fl: "frame_list ?md xs" and d: "distinct xs"
    and ar: "in_arena (frames ?md) xs"
    by (simp_all add: pool_ok_def frame_list_def)
  from Cons.prems fl have a: "a \<in> set xs" "a < length (frames ?md)" "next (frames ?md ! a) = start ys q"
    "links (frames ?md) ys q" "set ys \<subseteq> set xs"
    by (auto simp: links_Cons dest: frame_list_mem)
  note e = flush_frames_effect [OF d, of ?md st]
  show ?case
  proof (cases "fixBit (frames ?md ! a) = 0")
    case False
    with a show ?thesis
      by simp
  next
    case True
    with Cons.prems(4) have p: "\<exists>c \<in> set ys. fixBit (frames ?md ! c) \<noteq> 0"
      by auto
    show ?thesis
    proof (cases "dirtyBit (frames ?md ! a)")
      case False
      with True a Cons.IH [OF Cons.prems(1) a(4,5) p, of st] show ?thesis
        by simp
    next
      case dirty: True
      have ok': "pool_ok ?b' xs"
        using Cons.prems(1) by (rule pool_ok_flush)
      from e a(4,5) fl have l: "links (frames (mgmtData ?b')) ys q"
        using links_wiring [of "frames (mgmtData ?b')" "frames ?md" ys q]
        by (auto simp: wiring_def in_arena_def list_all_iff dest: frame_list_mem)
      from e a have n: "next (frames (mgmtData ?b') ! a) = start ys q"
        using nth_map [of a "frames (mgmtData ?b')" "next"] nth_map [of a "frames ?md" "next"]
        by (simp add: wiring_def)
      from e p have p': "\<exists>c \<in> set ys. fixBit (frames (mgmtData ?b') ! c) \<noteq> 0"
        by auto
      from Cons.IH [OF ok' l a(5) p', of ?st'] flush_frames_idem [OF d ar, of st ?st']
      have "shutdown_loop (length ys) (start ys q) ?b' ?st' = Some (RC_WRITE_FAILED, ?b', ?st')"
        by auto
      with True dirty a e n show ?thesis
        by (simp add: forceFlushPool_eq [OF Cons.prems(1)])
    qed
  qed
qed

end
