(* ===== verification/Pool_Contract.thy ===== *)
theory Pool_Contract
  imports Buffer_Pool Pool_Flush
begin

text \<open>
  The contract of the buffer pool of \<^verbatim>\<open>buffer_mgr.c\<close> for the FIFO and LRU
  strategies, one theorem per promise, each applied to a small pool of
  three frames over the one-page file of the storage examples.

  \<open>pool_of\<close> builds such a pool in the shape \<^verbatim>\<open>initBufferPool\<close> leaves it
  (frame \<open>n - 1\<close> at the head, frame \<open>0\<close> at the tail) from the page number,
  pin count and dirty flag of every frame.
\<close>

definition frame_of :: "nat \<Rightarrow> nat \<Rightarrow> int \<times> int \<times> bool \<Rightarrow> Frame" where
  "frame_of n i c =
     (case c of
        (pn, fx, d) \<Rightarrow>
          \<lparr>dirtyBit = d, fixBit = fx,
           next = (if i = 0 then None else Some (i - 1)),
           prev = (if Suc i = n then None else Some (Suc i)),
           page = \<lparr>pageNum = pn, data = Some i\<rparr>, seq = int i, refBit = 0\<rparr>)"

definition pool_of ::
  "ReplacementStrategy \<Rightarrow> SM_FileHandle \<Rightarrow> (int \<times> int \<times> bool) list \<Rightarrow> page list
     \<Rightarrow> BM_BufferPool" where
  "pool_of strat fh cfg bs =
     \<lparr>pageFile = Some ''t'', numPages = int (length cfg), strategy = strat,
      mgmtData =
        \<lparr>frameContents = replicate (length cfg) 0, dirtyFlags = replicate (length cfg) False,
         fixCounts = replicate (length cfg) 0, refBits = replicate (length cfg) 0,
         numReadIO = 0, numWriteIO = 0, clkPtr = None,
         head = Some (length cfg - 1), tail = Some 0, fHandle = fh,
         frames = map (\<lambda>i. frame_of (length cfg) i (cfg ! i)) [0..<length cfg],
         bufs = bs\<rparr>\<rparr>"

definition raw_pool :: BM_BufferPool where
  "raw_pool = \<lparr>pageFile = None, numPages = 0, strategy = RS_FIFO, mgmtData = raw_mgmtData 0\<rparr>"

definition pool_free :: "ReplacementStrategy \<Rightarrow> BM_BufferPool" where
  "pool_free strat =
     pool_of strat fh1 [(1, 0, False), (2, 1, True), (3, 1, False)] [page7, page7, emptyPage]"

definition pool_busy :: "ReplacementStrategy \<Rightarrow> BM_BufferPool" where
  "pool_busy strat =
     pool_of strat fh1 [(1, 1, False), (2, 1, False), (3, 0, False)] [page7, page7, emptyPage]"

definition pool_mid :: "ReplacementStrategy \<Rightarrow> BM_BufferPool" where
  "pool_mid strat =
     pool_of strat fh1 [(1, 1, False), (2, 0, True), (3, 1, False)] [page7, page7, emptyPage]"

definition pool_idle :: "ReplacementStrategy \<Rightarrow> BM_BufferPool" where
  "pool_idle strat =
     pool_of strat fh1 [(1, 0, False), (2, 0, True), (3, 0, False)] [page7, page7, emptyPage]"

definition no_handle :: BM_PageHandle where
  "no_handle = \<lparr>pageNum = 0, data = None\<rparr>"

subsection \<open>The example pools\<close>

lemma upt_3 [simp]: "[0..<3] = [0, 1, 2]"
  by (simp add: eval_nat_numeral)

lemmas pool_of_defs = pool_of_def frame_of_def pool_free_def pool_busy_def pool_mid_def
  pool_idle_def

lemmas pool_ok_defs =
  pool_ok_def arena_ok_def frame_list_strict_def frame_list_def

lemma pool_free_ok [simp]:
  "pool_ok (pool_free strat) [2, Suc 0, 0]"
  "frame_list_strict (mgmtData (pool_free strat)) [2, Suc 0, 0]"
  by (simp_all add: pool_ok_defs pool_of_defs)

lemma pool_busy_ok [simp]:
  "pool_ok (pool_busy strat) [2, Suc 0, 0]"
  "frame_list_strict (mgmtData (pool_busy strat)) [2, Suc 0, 0]"
  by (simp_all add: pool_ok_defs pool_of_defs)

lemma pool_mid_ok [simp]:
  "pool_ok (pool_mid strat) [2, Suc 0, 0]"
  "frame_list_strict (mgmtData (pool_mid strat)) [2, Suc 0, 0]"
  by (simp_all add: pool_ok_defs pool_of_defs)

lemma pool_mid_fields [simp]:
  "strategy (pool_mid strat) = strat"
  "fHandle (mgmtData (pool_mid strat)) = fh1"
  "bufs (mgmtData (pool_mid strat)) = [page7, page7, emptyPage]"
  "map (\<lambda>f. (pageNum (page f), fixBit f, dirtyBit f)) (frames (mgmtData (pool_mid strat)))
     = [(1, 1, False), (2, 0, True), (3, 1, False)]"
  by (simp_all add: pool_of_defs)

lemma pool_free_fields [simp]:
  "strategy (pool_free strat) = strat"
  "fHandle (mgmtData (pool_free strat)) = fh1"
  "bufs (mgmtData (pool_free strat)) = [page7, page7, emptyPage]"
  "map (\<lambda>f. (pageNum (page f), fixBit f, dirtyBit f)) (frames (mgmtData (pool_free strat)))
     = [(1, 0, False), (2, 1, True), (3, 1, False)]"
  by (simp_all add: pool_of_defs)

lemma pool_busy_fields [simp]:
  "strategy (pool_busy strat) = strat"
  "fHandle (mgmtData (pool_busy strat)) = fh1"
  "bufs (mgmtData (pool_busy strat)) = [page7, page7, emptyPage]"
  "map (\<lambda>f. (pageNum (page f), fixBit f, dirtyBit f)) (frames (mgmtData (pool_busy strat)))
     = [(1, 1, False), (2, 1, False), (3, 0, False)]"
  by (simp_all add: pool_of_defs)

lemma frame_fields:
  assumes "map (\<lambda>f. (pageNum (page f), fixBit f, dirtyBit f)) fs = cfg" and "a < length cfg"
  shows "pageNum (page (fs ! a)) = fst (cfg ! a)" "fixBit (fs ! a) = fst (snd (cfg ! a))"
    "dirtyBit (fs ! a) = snd (snd (cfg ! a))"
proof -
  from assms have "cfg ! a = (pageNum (page (fs ! a)), fixBit (fs ! a), dirtyBit (fs ! a))"
    by auto
  then show "pageNum (page (fs ! a)) = fst (cfg ! a)" "fixBit (fs ! a) = fst (snd (cfg ! a))"
    "dirtyBit (fs ! a) = snd (snd (cfg ! a))"
    by simp_all
qed

lemmas pool_free_frame = frame_fields [OF pool_free_fields(4)]
lemmas pool_busy_frame = frame_fields [OF pool_busy_fields(4)]
lemmas pool_mid_frame = frame_fields [OF pool_mid_fields(4)]

lemma pool_idle_ok [simp]:
  "pool_ok (pool_idle strat) [2, Suc 0, 0]"
  by (simp add: pool_ok_defs pool_of_defs)

lemma pool_idle_fields [simp]:
  "fHandle (mgmtData (pool_idle strat)) = fh1"
  "bufs (mgmtData (pool_idle strat)) = [page7, page7, emptyPage]"
  "map (\<lambda>f. (pageNum (page f), fixBit f, dirtyBit f)) (frames (mgmtData (pool_idle strat)))
     = [(1, 0, False), (2, 0, True), (3, 0, False)]"
  by (simp_all add: pool_of_defs)

lemmas pool_idle_frame = frame_fields [OF pool_idle_fields(3)]

lemma pool_mid_flush [simp]:
  "\<not> flushable (frames (mgmtData (pool_mid strat))) 0"
  "flushable (frames (mgmtData (pool_mid strat))) (Suc 0)"
  "\<not> flushable (frames (mgmtData (pool_mid strat))) 2"
  "pageNum (page (frames (mgmtData (pool_mid strat)) ! Suc 0)) = 2"
  "fixBit (frames (mgmtData (pool_mid strat)) ! 2) = 1"
  using pool_mid_frame [of 0 strat] pool_mid_frame [of 1 strat] pool_mid_frame [of 2 strat]
  by (simp_all add: flushable_def)

lemma pool_idle_flush [simp]:
  "\<not> flushable (frames (mgmtData (pool_idle strat))) 0"
  "flushable (frames (mgmtData (pool_idle strat))) (Suc 0)"
  "\<not> flushable (frames (mgmtData (pool_idle strat))) 2"
  "pageNum (page (frames (mgmtData (pool_idle strat)) ! Suc 0)) = 2"
  "fixBit (frames (mgmtData (pool_idle strat)) ! 0) = 0"
  "fixBit (frames (mgmtData (pool_idle strat)) ! Suc 0) = 0"
  "fixBit (frames (mgmtData (pool_idle strat)) ! 2) = 0"
  using pool_idle_frame [of 0 strat] pool_idle_frame [of 1 strat] pool_idle_frame [of 2 strat]
  by (simp_all add: flushable_def)

lemma pool_free_reports [simp]: "reports_ok (mgmtData (pool_free strat))"
  by (simp add: reports_ok_def pool_of_defs)

lemma pool_free_resident [simp]: "resident (mgmtData (pool_free strat)) = [1, 2, 3]"
  by (simp add: resident_def pool_of_defs)

lemma pool_free_search [simp]:
  "holds_page (frames (mgmtData (pool_free strat))) pn 0 = (pn = 1)"
  "holds_page (frames (mgmtData (pool_free strat))) pn (Suc 0) = (pn = 2)"
  "holds_page (frames (mgmtData (pool_free strat))) pn 2 = (pn = 3)"
  "unpinned (frames (mgmtData (pool_free strat))) 0"
  "\<not> unpinned (frames (mgmtData (pool_free strat))) (Suc 0)"
  "\<not> unpinned (frames (mgmtData (pool_free strat))) 2"
  "victim_of (frames (mgmtData (pool_free strat))) [2, Suc 0, 0] = 0"
  using pool_free_frame [of 0 strat] pool_free_frame [of 1 strat] pool_free_frame [of 2 strat]
  by (auto simp: holds_page_def victim_of_def unpinned_def)

lemma pool_busy_search [simp]:
  "holds_page (frames (mgmtData (pool_busy strat))) pn 0 = (pn = 1)"
  "holds_page (frames (mgmtData (pool_busy strat))) pn (Suc 0) = (pn = 2)"
  "holds_page (frames (mgmtData (pool_busy strat))) pn 2 = (pn = 3)"
  "\<not> unpinned (frames (mgmtData (pool_busy strat))) 0"
  "\<not> unpinned (frames (mgmtData (pool_busy strat))) (Suc 0)"
  "unpinned (frames (mgmtData (pool_busy strat))) 2"
  using pool_busy_frame [of 0 strat] pool_busy_frame [of 1 strat] pool_busy_frame [of 2 strat]
  by (auto simp: holds_page_def unpinned_def)

lemma pool_mid_search [simp]:
  "holds_page (frames (mgmtData (pool_mid strat))) pn 0 = (pn = 1)"
  "holds_page (frames (mgmtData (pool_mid strat))) pn (Suc 0) = (pn = 2)"
  "holds_page (frames (mgmtData (pool_mid strat))) pn 2 = (pn = 3)"
  "\<not> unpinned (frames (mgmtData (pool_mid strat))) 0"
  "unpinned (frames (mgmtData (pool_mid strat))) (Suc 0)"
  "\<not> unpinned (frames (mgmtData (pool_mid strat))) 2"
  "victim_of (frames (mgmtData (pool_mid strat))) [2, Suc 0, 0] = Suc 0"
  using pool_mid_frame [of 0 strat] pool_mid_frame [of 1 strat] pool_mid_frame [of 2 strat]
  by (auto simp: holds_page_def victim_of_def unpinned_def)

subsection \<open>Creating a pool\<close>

text \<open>
  C7 (invariant). \<^verbatim>\<open>initBufferPool\<close> with \<open>n \<ge> 1\<close> frames and the FIFO or LRU
  strategy returns \<^verbatim>\<open>RC_OK\<close> and a well-formed pool: the frames are linked
  from the last one created (the head) down to the first (the tail), with
  \<^verbatim>\<open>head->prev == NULL\<close>; every frame is empty (page number \<open>-1\<close>), unpinned
  and clean, owns a zeroed buffer and carries its creation index as sequence
  number; both I/O counters are zero and the four report arrays have one
  entry per frame.
\<close>

theorem initBufferPool_pool_ok:
  assumes "0 < n" and "strat \<noteq> RS_CLOCK"
  shows "case initBufferPool (Some b) (Some name) (int n) strat st of
           Some (rc, Some b') \<Rightarrow>
             rc = RC_OK \<and> pool_ok b' (rev [0..<n]) \<and>
             frame_list_strict (mgmtData b') (rev [0..<n]) \<and>
             map unlinked (frames (mgmtData b')) = map fresh_frame [0..<n] \<and>
             bufs (mgmtData b') = replicate n emptyPage \<and>
             numReadIO (mgmtData b') = 0 \<and> numWriteIO (mgmtData b') = 0 \<and>
             reports_ok (mgmtData b')
         | _ \<Rightarrow> False"
  using initBufferPool_run [OF assms, of b name st] by auto

theorem initBufferPool_pool_ok_witness:
  "0 < (3::nat) \<and> RS_LRU \<noteq> RS_CLOCK \<and>
   (case initBufferPool (Some raw_pool) (Some ''t'') (int 3) RS_LRU disk1 of
      Some (rc, Some b') \<Rightarrow>
        rc = RC_OK \<and> pool_ok b' (rev [0..<3]) \<and>
        frame_list_strict (mgmtData b') (rev [0..<3]) \<and>
        map unlinked (frames (mgmtData b')) = map fresh_frame [0..<3] \<and>
        bufs (mgmtData b') = replicate 3 emptyPage \<and>
        numReadIO (mgmtData b') = 0 \<and> numWriteIO (mgmtData b') = 0 \<and>
        reports_ok (mgmtData b')
    | _ \<Rightarrow> False)"
  using initBufferPool_pool_ok [where n = 3 and strat = RS_LRU and b = raw_pool
      and name = "''t''" and st = disk1]
  by simp

subsection \<open>A page fault\<close>

text \<open>
  C2 (refinement). A page fault under FIFO or LRU, in a well-formed pool
  where some frame other than the head is unpinned, returns \<^verbatim>\<open>RC_OK\<close> and a
  handle on the victim's buffer, and changes the pool as \<open>load_page\<close> says:
  the page is read into the victim's buffer through the pool's file handle,
  the victim's pin count goes up by one, its page number becomes the
  requested one and \<^verbatim>\<open>numReadIO\<close> goes up by one. Everything else but the
  links is as before; in particular the dirty flag of the victim survives
  the replacement and nothing is written.
\<close>

theorem pinPage_miss_refines_load_page:
  assumes "pool_ok b xs" and "strategy b \<noteq> RS_CLOCK"
    and "find (holds_page (frames (mgmtData b)) pn) xs = None"
    and "\<exists>a \<in> set (tl xs). unpinned (frames (mgmtData b)) a"
  shows "case pinPage (Some b) (Some h) pn st of
           Some (rc, Some b', Some h') \<Rightarrow>
             rc = RC_OK \<and>
             h' = \<lparr>pageNum = pn, data = Some (victim_of (frames (mgmtData b)) xs)\<rparr> \<and>
             b' = b\<lparr>mgmtData := mgmtData b'\<rparr> \<and>
             strip (mgmtData b') =
               strip (load_page (victim_of (frames (mgmtData b)) xs) pn st (mgmtData b))
         | _ \<Rightarrow> False"
  using pinPage_miss_run [OF assms refl, of h st] by auto

theorem pinPage_miss_refines_load_page_witness:
  "pool_ok (pool_free RS_FIFO) [2, 1, 0] \<and> strategy (pool_free RS_FIFO) \<noteq> RS_CLOCK \<and>
   find (holds_page (frames (mgmtData (pool_free RS_FIFO))) 0) [2, 1, 0] = None \<and>
   (\<exists>a \<in> set (tl [2, 1, 0]). unpinned (frames (mgmtData (pool_free RS_FIFO))) a) \<and>
   (case pinPage (Some (pool_free RS_FIFO)) (Some no_handle) 0 disk1 of
      Some (rc, Some b', Some h') \<Rightarrow>
        rc = RC_OK \<and>
        h' = \<lparr>pageNum = 0,
              data = Some (victim_of (frames (mgmtData (pool_free RS_FIFO))) [2, 1, 0])\<rparr> \<and>
        b' = (pool_free RS_FIFO)\<lparr>mgmtData := mgmtData b'\<rparr> \<and>
        strip (mgmtData b') =
          strip (load_page (victim_of (frames (mgmtData (pool_free RS_FIFO))) [2, 1, 0]) 0 disk1
                   (mgmtData (pool_free RS_FIFO)))
    | _ \<Rightarrow> False)"
  using pinPage_miss_refines_load_page [where b = "pool_free RS_FIFO" and xs = "[2, 1, 0]"
      and pn = 0 and h = no_handle and st = disk1]
  by simp

text \<open>
  C3 (invariant). The same page fault keeps the pool well-formed: the
  victim is unlinked and relinked at the head, so the frames are in the
  order \<open>to_front v xs\<close>, every frame still owns its buffer and sequence
  number, and when the victim was the tail the new head has no predecessor.
\<close>

theorem pinPage_miss_keeps_pool_ok:
  assumes "pool_ok b xs" and "strategy b \<noteq> RS_CLOCK"
    and "find (holds_page (frames (mgmtData b)) pn) xs = None"
    and "\<exists>a \<in> set (tl xs). unpinned (frames (mgmtData b)) a"
  shows "case pinPage (Some b) (Some h) pn st of
           Some (rc, Some b', Some h') \<Rightarrow>
             pool_ok b' (to_front (victim_of (frames (mgmtData b)) xs) xs) \<and>
             (victim_of (frames (mgmtData b)) xs = last xs \<longrightarrow>
                frame_list_strict (mgmtData b') (to_front (victim_of (frames (mgmtData b)) xs) xs))
         | _ \<Rightarrow> False"
proof -
  let ?v = "victim_of (frames (mgmtData b)) xs"
  from pinPage_miss_run [OF assms refl, of h st] obtain md' where
    run: "pinPage (Some b) (Some h) pn st =
            Some (RC_OK, Some (b\<lparr>mgmtData := md'\<rparr>), Some \<lparr>pageNum = pn, data = Some ?v\<rparr>)"
    and fl: "frame_list md' (to_front ?v xs)"
      "?v = last xs \<longrightarrow> frame_list_strict md' (to_front ?v xs)"
    and s: "strip md' = strip (load_page ?v pn st (mgmtData b))"
    by blast
  from assms(1) fl(1) s have "pool_ok (b\<lparr>mgmtData := md'\<rparr>) (to_front ?v xs)"
    by (rule pool_ok_relinked) simp_all
  with fl(2) show ?thesis
    by (simp add: run)
qed

theorem pinPage_miss_keeps_pool_ok_witness:
  "pool_ok (pool_free RS_LRU) [2, 1, 0] \<and> strategy (pool_free RS_LRU) \<noteq> RS_CLOCK \<and>
   find (holds_page (frames (mgmtData (pool_free RS_LRU))) 5) [2, 1, 0] = None \<and>
   (\<exists>a \<in> set (tl [2, 1, 0]). unpinned (frames (mgmtData (pool_free RS_LRU))) a) \<and>
   (case pinPage (Some (pool_free RS_LRU)) (Some no_handle) 5 disk1 of
      Some (rc, Some b', Some h') \<Rightarrow>
        pool_ok b' (to_front (victim_of (frames (mgmtData (pool_free RS_LRU))) [2, 1, 0]) [2, 1, 0]) \<and>
        (victim_of (frames (mgmtData (pool_free RS_LRU))) [2, 1, 0] = last [2, 1, 0] \<longrightarrow>
           frame_list_strict (mgmtData b')
             (to_front (victim_of (frames (mgmtData (pool_free RS_LRU))) [2, 1, 0]) [2, 1, 0]))
    | _ \<Rightarrow> False)"
  using pinPage_miss_keeps_pool_ok [where b = "pool_free RS_LRU" and xs = "[2, 1, 0]"
      and pn = 5 and h = no_handle and st = disk1]
  by simp

text \<open>
  C4 (safety). When some frame other than the head is unpinned, the frame
  a page fault replaces is unpinned: the handle returned points into a frame
  whose pin count was \<open>0\<close> and is \<open>1\<close> afterwards, and every other frame keeps
  its page number, pin count and dirty flag.
\<close>

theorem pinPage_victim_unpinned:
  assumes "pool_ok b xs" and "strategy b \<noteq> RS_CLOCK"
    and "find (holds_page (frames (mgmtData b)) pn) xs = None"
    and "\<exists>a \<in> set (tl xs). unpinned (frames (mgmtData b)) a"
  shows "case pinPage (Some b) (Some h) pn st of
           Some (rc, Some b', Some h') \<Rightarrow>
             (\<exists>v \<in> set (tl xs). data h' = Some v \<and>
                fixBit (frames (mgmtData b) ! v) = 0 \<and> fixBit (frames (mgmtData b') ! v) = 1 \<and>
                pageNum (page (frames (mgmtData b') ! v)) = pn \<and>
                (\<forall>a \<in> set xs. a \<noteq> v \<longrightarrow>
                   pageNum (page (frames (mgmtData b') ! a)) = pageNum (page (frames (mgmtData b) ! a)) \<and>
                   fixBit (frames (mgmtData b') ! a) = fixBit (frames (mgmtData b) ! a) \<and>
                   dirtyBit (frames (mgmtData b') ! a) = dirtyBit (frames (mgmtData b) ! a)))
         | _ \<Rightarrow> False"
proof -
  let ?fs = "frames (mgmtData b)"
  let ?v = "victim_of ?fs xs"
  from pinPage_miss_run [OF assms refl, of h st] obtain md' where
    run: "pinPage (Some b) (Some h) pn st =
            Some (RC_OK, Some (b\<lparr>mgmtData := md'\<rparr>), Some \<lparr>pageNum = pn, data = Some ?v\<rparr>)"
    and s: "strip md' = strip (load_page ?v pn st (mgmtData b))"
    by blast
  note v = victim_in_pool [OF assms(1,4)]
  from assms(1) have lt: "a < length ?fs" if "a \<in> set xs" for a
    using that by (auto dest: pool_ok_frame_list frame_list_mem)
  have "fixBit (frames md' ! a) = (if a = ?v then 1 else fixBit (?fs ! a)) \<and>
        pageNum (page (frames md' ! a)) = (if a = ?v then pn else pageNum (page (?fs ! a))) \<and>
        dirtyBit (frames md' ! a) = dirtyBit (?fs ! a)" if "a \<in> set xs" for a
    using strip_frame [OF s, of a] load_page_frame(1-3) [OF v(4), where pn = pn and st = st and a = a]
      lt [OF that] v(3)
    by simp
  with v(1,2,3) show ?thesis
    by (auto simp: run)
qed

theorem pinPage_victim_unpinned_witness:
  "pool_ok (pool_mid RS_FIFO) [2, 1, 0] \<and> strategy (pool_mid RS_FIFO) \<noteq> RS_CLOCK \<and>
   find (holds_page (frames (mgmtData (pool_mid RS_FIFO))) 5) [2, 1, 0] = None \<and>
   (\<exists>a \<in> set (tl [2, 1, 0]). unpinned (frames (mgmtData (pool_mid RS_FIFO))) a) \<and>
   (case pinPage (Some (pool_mid RS_FIFO)) (Some no_handle) 5 disk1 of
      Some (rc, Some b', Some h') \<Rightarrow>
        (\<exists>v \<in> set (tl [2, 1, 0]). data h' = Some v \<and>
           fixBit (frames (mgmtData (pool_mid RS_FIFO)) ! v) = 0 \<and>
           fixBit (frames (mgmtData b') ! v) = 1 \<and>
           pageNum (page (frames (mgmtData b') ! v)) = 5 \<and>
           (\<forall>a \<in> set [2, 1, 0]. a \<noteq> v \<longrightarrow>
              pageNum (page (frames (mgmtData b') ! a)) =
                pageNum (page (frames (mgmtData (pool_mid RS_FIFO)) ! a)) \<and>
              fixBit (frames (mgmtData b') ! a) = fixBit (frames (mgmtData (pool_mid RS_FIFO)) ! a) \<and>
              dirtyBit (frames (mgmtData b') ! a) =
                dirtyBit (frames (mgmtData (pool_mid RS_FIFO)) ! a)))
    | _ \<Rightarrow> False)"
  using pinPage_victim_unpinned [where b = "pool_mid RS_FIFO" and xs = "[2, 1, 0]"
      and pn = 5 and h = no_handle and st = disk1]
  by simp

text \<open>
  C6 (functional). A page fault on a page that the file has brings the
  bytes of that page, as they are on disk, into the buffer that the returned
  handle points to, and counts one read.
\<close>

theorem pinPage_miss_reads_page:
  assumes "pool_ok b xs" and "strategy b \<noteq> RS_CLOCK"
    and "find (holds_page (frames (mgmtData b)) pn) xs = None"
    and "\<exists>a \<in> set (tl xs). unpinned (frames (mgmtData b)) a"
    and "handle_ok st (fHandle (mgmtData b))" and "0 \<le> pn"
    and "pn < totalNumPages (fHandle (mgmtData b))"
  shows "case pinPage (Some b) (Some h) pn st of
           Some (rc, Some b', Some h') \<Rightarrow>
             rc = RC_OK \<and> pageNum h' = pn \<and>
             map_option (\<lambda>d. bufs (mgmtData b') ! d) (data h') =
               Some (pages_of st (fHandle (mgmtData b)) ! nat pn) \<and>
             numReadIO (mgmtData b') = numReadIO (mgmtData b) + 1
         | _ \<Rightarrow> False"
proof -
  let ?md = "mgmtData b"
  let ?v = "victim_of (frames ?md) xs"
  from pinPage_miss_run [OF assms(1-4) refl, of h st] obtain md' where
    run: "pinPage (Some b) (Some h) pn st =
            Some (RC_OK, Some (b\<lparr>mgmtData := md'\<rparr>), Some \<lparr>pageNum = pn, data = Some ?v\<rparr>)"
    and s: "strip md' = strip (load_page ?v pn st ?md)"
    by blast
  note v = victim_in_pool [OF assms(1,4)]
  from strip_eq_fields(2,4) [OF s] load_page_buffer [OF v(5), of pn st]
    load_page_frame(4) [OF v(4), of pn st] readBlock_ok [OF assms(5-7)]
  show ?thesis
    by (simp add: run)
qed

theorem pinPage_miss_reads_page_witness:
  "pool_ok (pool_free RS_FIFO) [2, 1, 0] \<and> strategy (pool_free RS_FIFO) \<noteq> RS_CLOCK \<and>
   find (holds_page (frames (mgmtData (pool_free RS_FIFO))) 0) [2, 1, 0] = None \<and>
   (\<exists>a \<in> set (tl [2, 1, 0]). unpinned (frames (mgmtData (pool_free RS_FIFO))) a) \<and>
   handle_ok disk1 (fHandle (mgmtData (pool_free RS_FIFO))) \<and> (0::int) \<le> 0 \<and>
   0 < totalNumPages (fHandle (mgmtData (pool_free RS_FIFO))) \<and>
   (case pinPage (Some (pool_free RS_FIFO)) (Some no_handle) 0 disk1 of
      Some (rc, Some b', Some h') \<Rightarrow>
        rc = RC_OK \<and> pageNum h' = 0 \<and>
        map_option (\<lambda>d. bufs (mgmtData b') ! d) (data h') =
          Some (pages_of disk1 (fHandle (mgmtData (pool_free RS_FIFO))) ! nat 0) \<and>
        numReadIO (mgmtData b') = numReadIO (mgmtData (pool_free RS_FIFO)) + 1
    | _ \<Rightarrow> False)"
  using pinPage_miss_reads_page [where b = "pool_free RS_FIFO" and xs = "[2, 1, 0]"
      and pn = 0 and h = no_handle and st = disk1]
  by simp

text \<open>
  C25 (error). \<^verbatim>\<open>pinPage\<close> ignores the return code of \<^verbatim>\<open>readBlock\<close>: a page
  fault on a page number at or beyond the end of the file still returns
  \<^verbatim>\<open>RC_OK\<close> and a handle labelled with that page number, and the buffer it
  points to holds whatever the victim held before.
\<close>

theorem pinPage_missing_page_stale:
  assumes "pool_ok b xs" and "strategy b \<noteq> RS_CLOCK"
    and "find (holds_page (frames (mgmtData b)) pn) xs = None"
    and "\<exists>a \<in> set (tl xs). unpinned (frames (mgmtData b)) a"
    and "totalNumPages (fHandle (mgmtData b)) \<le> pn"
  shows "case pinPage (Some b) (Some h) pn st of
           Some (rc, Some b', Some h') \<Rightarrow>
             rc = RC_OK \<and> pageNum h' = pn \<and>
             (\<exists>v \<in> set (tl xs). data h' = Some v \<and>
                bufs (mgmtData b') ! v = bufs (mgmtData b) ! v \<and>
                pageNum (page (frames (mgmtData b') ! v)) = pn)
         | _ \<Rightarrow> False"
proof -
  let ?md = "mgmtData b"
  let ?v = "victim_of (frames ?md) xs"
  from pinPage_miss_run [OF assms(1-4) refl, of h st] obtain md' where
    run: "pinPage (Some b) (Some h) pn st =
            Some (RC_OK, Some (b\<lparr>mgmtData := md'\<rparr>), Some \<lparr>pageNum = pn, data = Some ?v\<rparr>)"
    and s: "strip md' = strip (load_page ?v pn st ?md)"
    by blast
  note v = victim_in_pool [OF assms(1,4)]
  from assms(5) have "readBlock pn (Some (fHandle ?md)) (Some (bufs ?md ! ?v)) st =
      (RC_READ_NON_EXISTING_PAGE, Some (fHandle ?md), Some (bufs ?md ! ?v))"
    by (simp add: readBlock_def)
  with strip_eq_fields(2) [OF s] load_page_buffer [OF v(5), of pn st]
    strip_frame(3) [OF s, of ?v] load_page_frame(2) [OF v(4), where pn = pn and st = st and a = ?v]
    v(1,4)
  show ?thesis
    by (auto simp: run)
qed

theorem pinPage_missing_page_stale_witness:
  "pool_ok (pool_free RS_FIFO) [2, 1, 0] \<and> strategy (pool_free RS_FIFO) \<noteq> RS_CLOCK \<and>
   find (holds_page (frames (mgmtData (pool_free RS_FIFO))) 5) [2, 1, 0] = None \<and>
   (\<exists>a \<in> set (tl [2, 1, 0]). unpinned (frames (mgmtData (pool_free RS_FIFO))) a) \<and>
   totalNumPages (fHandle (mgmtData (pool_free RS_FIFO))) \<le> 5 \<and>
   (case pinPage (Some (pool_free RS_FIFO)) (Some no_handle) 5 disk1 of
      Some (rc, Some b', Some h') \<Rightarrow>
        rc = RC_OK \<and> pageNum h' = 5 \<and>
        (\<exists>v \<in> set (tl [2, 1, 0]). data h' = Some v \<and>
           bufs (mgmtData b') ! v = bufs (mgmtData (pool_free RS_FIFO)) ! v \<and>
           pageNum (page (frames (mgmtData b') ! v)) = 5)
    | _ \<Rightarrow> False)"
  using pinPage_missing_page_stale [where b = "pool_free RS_FIFO" and xs = "[2, 1, 0]"
      and pn = 5 and h = no_handle and st = disk1]
  by simp

text \<open>
  C11 (error). When every frame but the head is pinned, a page fault under
  FIFO or LRU does not return, whether the head is pinned or not: the walk
  from the tail stops at the head, and relinking the head at the head
  dereferences its null \<^verbatim>\<open>prev\<close> pointer. A pool of one frame is the case
  of an empty tail: its first page fault already does so.
\<close>

theorem pinPage_no_victim_crashes:
  assumes "pool_ok b xs" and "strategy b \<noteq> RS_CLOCK"
    and "frame_list_strict (mgmtData b) xs"
    and "find (holds_page (frames (mgmtData b)) pn) xs = None"
    and "list_all (\<lambda>a. \<not> unpinned (frames (mgmtData b)) a) (tl xs)"
  shows "pinPage (Some b) (Some h) pn st = None"
  using assms by (simp add: pinPage_no_victim list_all_iff)

theorem pinPage_no_victim_crashes_witness:
  "pool_ok (pool_busy RS_FIFO) [2, 1, 0] \<and> strategy (pool_busy RS_FIFO) \<noteq> RS_CLOCK \<and>
   frame_list_strict (mgmtData (pool_busy RS_FIFO)) [2, 1, 0] \<and>
   find (holds_page (frames (mgmtData (pool_busy RS_FIFO))) 0) [2, 1, 0] = None \<and>
   list_all (\<lambda>a. \<not> unpinned (frames (mgmtData (pool_busy RS_FIFO))) a) (tl [2, 1, 0]) \<and>
   unpinned (frames (mgmtData (pool_busy RS_FIFO))) 2 \<and>
   pinPage (Some (pool_busy RS_FIFO)) (Some no_handle) 0 disk1 = None"
  using pinPage_no_victim_crashes [where b = "pool_busy RS_FIFO" and xs = "[2, 1, 0]"
      and pn = 0 and h = no_handle and st = disk1]
  by simp

subsection \<open>A hit\<close>

text \<open>
  C13 (functional). Under FIFO, pinning a resident page returns \<^verbatim>\<open>RC_OK\<close>
  and a handle on the buffer of the frame that holds it, adds one to that
  frame's pin count, sets its reference bit, and changes nothing else: no
  link, no buffer, no counter.
\<close>

theorem pinPage_hit_FIFO:
  assumes "pool_ok b xs" and "strategy b = RS_FIFO"
    and "find (holds_page (frames (mgmtData b)) pn) xs = Some a"
  shows "pinPage (Some b) (Some h) pn st =
           Some (RC_OK, Some (b\<lparr>mgmtData := hit_page a (mgmtData b)\<rparr>),
                 Some \<lparr>pageNum = pn, data = Some a\<rparr>)"
  using assms(2) by (simp add: pinPage_hit_eq [OF assms(1,3)])

theorem pinPage_hit_FIFO_witness:
  "pool_ok (pool_free RS_FIFO) [2, 1, 0] \<and> strategy (pool_free RS_FIFO) = RS_FIFO \<and>
   find (holds_page (frames (mgmtData (pool_free RS_FIFO))) 2) [2, 1, 0] = Some 1 \<and>
   pinPage (Some (pool_free RS_FIFO)) (Some no_handle) 2 disk1 =
     Some (RC_OK, Some ((pool_free RS_FIFO)\<lparr>mgmtData := hit_page 1 (mgmtData (pool_free RS_FIFO))\<rparr>),
           Some \<lparr>pageNum = 2, data = Some 1\<rparr>)"
  using pinPage_hit_FIFO [where b = "pool_free RS_FIFO" and xs = "[2, 1, 0]"
      and pn = 2 and a = 1 and h = no_handle and st = disk1]
  by simp

text \<open>
  C12 (functional). Under LRU, pinning a page that is resident in a frame
  other than the head does the same to that frame and moves it to the head
  of the list; the order of the other frames is kept.
\<close>

theorem pinPage_hit_LRU_promotes:
  assumes "pool_ok b xs" and "strategy b = RS_LRU"
    and "find (holds_page (frames (mgmtData b)) pn) xs = Some a" and "a \<noteq> hd xs"
  shows "case pinPage (Some b) (Some h) pn st of
           Some (rc, Some b', Some h') \<Rightarrow>
             rc = RC_OK \<and> h' = \<lparr>pageNum = pn, data = Some a\<rparr> \<and>
             pool_ok b' (to_front a xs) \<and>
             strip (mgmtData b') = strip (hit_page a (mgmtData b))
         | _ \<Rightarrow> False"
proof -
  from pinPage_hit_LRU_run [OF assms, of h st] obtain md' where
    run: "pinPage (Some b) (Some h) pn st =
            Some (RC_OK, Some (b\<lparr>mgmtData := md'\<rparr>), Some \<lparr>pageNum = pn, data = Some a\<rparr>)"
    and fl: "frame_list md' (to_front a xs)"
    and s: "strip md' = strip (hit_page a (mgmtData b))"
    by blast
  from assms(1) fl s have "pool_ok (b\<lparr>mgmtData := md'\<rparr>) (to_front a xs)"
    by (rule pool_ok_relinked) simp_all
  with s show ?thesis
    by (simp add: run)
qed

theorem pinPage_hit_LRU_promotes_witness:
  "pool_ok (pool_free RS_LRU) [2, 1, 0] \<and> strategy (pool_free RS_LRU) = RS_LRU \<and>
   find (holds_page (frames (mgmtData (pool_free RS_LRU))) 2) [2, 1, 0] = Some 1 \<and>
   (1::nat) \<noteq> hd [2, 1, 0] \<and>
   (case pinPage (Some (pool_free RS_LRU)) (Some no_handle) 2 disk1 of
      Some (rc, Some b', Some h') \<Rightarrow>
        rc = RC_OK \<and> h' = \<lparr>pageNum = 2, data = Some 1\<rparr> \<and>
        pool_ok b' (to_front 1 [2, 1, 0]) \<and>
        strip (mgmtData b') = strip (hit_page 1 (mgmtData (pool_free RS_LRU)))
    | _ \<Rightarrow> False)"
  using pinPage_hit_LRU_promotes [where b = "pool_free RS_LRU" and xs = "[2, 1, 0]"
      and pn = 2 and a = 1 and h = no_handle and st = disk1]
  by simp

text \<open>
  C14 (error). Under LRU, pinning the page held by the head frame of a list
  whose head has no predecessor does not return: the hit path relinks the
  frame like any other and dereferences \<^verbatim>\<open>frame->prev\<close>, which is null. This
  is the state after \<^verbatim>\<open>initBufferPool\<close> and after every replacement of the
  tail, so pinning the page just loaded a second time is enough.
\<close>

theorem pinPage_hit_LRU_head_crashes:
  assumes "pool_ok b xs" and "strategy b = RS_LRU"
    and "frame_list_strict (mgmtData b) xs"
    and "find (holds_page (frames (mgmtData b)) pn) xs = Some (hd xs)"
  shows "pinPage (Some b) (Some h) pn st = None"
  using assms by (rule pinPage_hit_LRU_head)

theorem pinPage_hit_LRU_head_crashes_witness:
  "pool_ok (pool_free RS_LRU) [2, 1, 0] \<and> strategy (pool_free RS_LRU) = RS_LRU \<and>
   frame_list_strict (mgmtData (pool_free RS_LRU)) [2, 1, 0] \<and>
   find (holds_page (frames (mgmtData (pool_free RS_LRU))) 3) [2, 1, 0] = Some (hd [2, 1, 0]) \<and>
   pinPage (Some (pool_free RS_LRU)) (Some no_handle) 3 disk1 = None"
  using pinPage_hit_LRU_head_crashes [where b = "pool_free RS_LRU" and xs = "[2, 1, 0]"
      and pn = 3 and h = no_handle and st = disk1]
  by simp

subsection \<open>Releasing and marking\<close>

text \<open>
  C15 (functional). Unpinning a pinned dirty page with the handle that
  \<^verbatim>\<open>pinPage\<close> returned lowers the pin count by one and writes the frame's
  buffer to the page's place in the file, counting one write; the dirty flag
  is not cleared, so a later unpin of the page writes it again.
\<close>

theorem unpinPage_writes_dirty_page:
  assumes "pool_ok b xs"
    and "find (holds_page (frames (mgmtData b)) pn) xs = Some a"
    and "0 < fixBit (frames (mgmtData b) ! a)" and "dirtyBit (frames (mgmtData b) ! a)"
    and "handle_ok st (fHandle (mgmtData b))" and "0 \<le> pn"
  shows "case unpinPage (Some b) (Some \<lparr>pageNum = pn, data = Some a\<rparr>) st of
           Some (rc, Some b', st') \<Rightarrow>
             rc = RC_OK \<and>
             pages_of st' (fHandle (mgmtData b')) =
               put_block (nat pn) (bufs (mgmtData b) ! a) (pages_of st (fHandle (mgmtData b))) \<and>
             fixBit (frames (mgmtData b') ! a) = fixBit (frames (mgmtData b) ! a) - 1 \<and>
             dirtyBit (frames (mgmtData b') ! a) \<and>
             numWriteIO (mgmtData b') = numWriteIO (mgmtData b) + 1
         | _ \<Rightarrow> False"
proof -
  from find_holds_page(3) [OF assms(1,2)] assms(4)
  have "fixBit (frames (release_page a (mgmtData b)) ! a) = fixBit (frames (mgmtData b) ! a) - 1"
    "dirtyBit (frames (release_page a (mgmtData b)) ! a)"
    by (simp_all add: release_page_def)
  with unpinPage_dirty_run [OF assms, of] show ?thesis
    by auto
qed

theorem unpinPage_writes_dirty_page_witness:
  "pool_ok (pool_free RS_FIFO) [2, 1, 0] \<and>
   find (holds_page (frames (mgmtData (pool_free RS_FIFO))) 2) [2, 1, 0] = Some 1 \<and>
   0 < fixBit (frames (mgmtData (pool_free RS_FIFO)) ! 1) \<and>
   dirtyBit (frames (mgmtData (pool_free RS_FIFO)) ! 1) \<and>
   handle_ok disk1 (fHandle (mgmtData (pool_free RS_FIFO))) \<and> (0::int) \<le> 2 \<and>
   (case unpinPage (Some (pool_free RS_FIFO)) (Some \<lparr>pageNum = 2, data = Some 1\<rparr>) disk1 of
      Some (rc, Some b', st') \<Rightarrow>
        rc = RC_OK \<and>
        pages_of st' (fHandle (mgmtData b')) =
          put_block (nat 2) (bufs (mgmtData (pool_free RS_FIFO)) ! 1)
            (pages_of disk1 (fHandle (mgmtData (pool_free RS_FIFO)))) \<and>
        fixBit (frames (mgmtData b') ! 1) = fixBit (frames (mgmtData (pool_free RS_FIFO)) ! 1) - 1 \<and>
        dirtyBit (frames (mgmtData b') ! 1) \<and>
        numWriteIO (mgmtData b') = numWriteIO (mgmtData (pool_free RS_FIFO)) + 1
    | _ \<Rightarrow> False)"
  using unpinPage_writes_dirty_page [where b = "pool_free RS_FIFO" and xs = "[2, 1, 0]"
      and pn = 2 and a = 1 and st = disk1]
    pool_free_frame [of 1 RS_FIFO]
  by simp

text \<open>
  C22 (functional). Unpinning a pinned clean page lowers the pin count of
  its frame by one and touches neither the file nor any other part of the
  pool.
\<close>

theorem unpinPage_clean:
  assumes "pool_ok b xs"
    and "find (holds_page (frames (mgmtData b)) pn) xs = Some a"
    and "0 < fixBit (frames (mgmtData b) ! a)" and "\<not> dirtyBit (frames (mgmtData b) ! a)"
  shows "unpinPage (Some b) (Some \<lparr>pageNum = pn, data = Some a\<rparr>) st =
           Some (RC_OK, Some (b\<lparr>mgmtData := release_page a (mgmtData b)\<rparr>), st)"
  using assms(3,4) by (simp add: unpinPage_eq [OF assms(1,2)])

theorem unpinPage_clean_witness:
  "pool_ok (pool_free RS_FIFO) [2, 1, 0] \<and>
   find (holds_page (frames (mgmtData (pool_free RS_FIFO))) 3) [2, 1, 0] = Some 2 \<and>
   0 < fixBit (frames (mgmtData (pool_free RS_FIFO)) ! 2) \<and>
   \<not> dirtyBit (frames (mgmtData (pool_free RS_FIFO)) ! 2) \<and>
   unpinPage (Some (pool_free RS_FIFO)) (Some \<lparr>pageNum = 3, data = Some 2\<rparr>) disk1 =
     Some (RC_OK, Some ((pool_free RS_FIFO)\<lparr>mgmtData := release_page 2 (mgmtData (pool_free RS_FIFO))\<rparr>),
           disk1)"
  using unpinPage_clean [where b = "pool_free RS_FIFO" and xs = "[2, 1, 0]"
      and pn = 3 and a = 2 and st = disk1]
    pool_free_frame [of 2 RS_FIFO]
  by simp

text \<open>
  C23 (error). Unpinning a resident page that is not pinned returns
  \<^verbatim>\<open>RC_WRITE_FAILED\<close>, but only after the decrement: the frame is left with a
  negative pin count, and the walk from the tail, which looks for a pin count
  equal to zero, no longer takes it for a victim.
\<close>

theorem unpinPage_underflow:
  assumes "pool_ok b xs"
    and "find (holds_page (frames (mgmtData b)) pn) xs = Some a"
    and "fixBit (frames (mgmtData b) ! a) \<le> 0"
  shows "case unpinPage (Some b) (Some \<lparr>pageNum = pn, data = Some a\<rparr>) st of
           Some (rc, Some b', st') \<Rightarrow>
             rc = RC_WRITE_FAILED \<and> st' = st \<and> b' = b\<lparr>mgmtData := release_page a (mgmtData b)\<rparr> \<and>
             fixBit (frames (mgmtData b') ! a) < 0 \<and> \<not> unpinned (frames (mgmtData b')) a
         | _ \<Rightarrow> False"
  using assms(3) find_holds_page(3) [OF assms(1,2)]
  by (simp add: unpinPage_eq [OF assms(1,2)] release_page_def unpinned_def)

theorem unpinPage_underflow_witness:
  "pool_ok (pool_free RS_FIFO) [2, 1, 0] \<and>
   find (holds_page (frames (mgmtData (pool_free RS_FIFO))) 1) [2, 1, 0] = Some 0 \<and>
   fixBit (frames (mgmtData (pool_free RS_FIFO)) ! 0) \<le> 0 \<and>
   (case unpinPage (Some (pool_free RS_FIFO)) (Some \<lparr>pageNum = 1, data = Some 0\<rparr>) disk1 of
      Some (rc, Some b', st') \<Rightarrow>
        rc = RC_WRITE_FAILED \<and> st' = disk1 \<and>
        b' = (pool_free RS_FIFO)\<lparr>mgmtData := release_page 0 (mgmtData (pool_free RS_FIFO))\<rparr> \<and>
        fixBit (frames (mgmtData b') ! 0) < 0 \<and> \<not> unpinned (frames (mgmtData b')) 0
    | _ \<Rightarrow> False)"
  using unpinPage_underflow [where b = "pool_free RS_FIFO" and xs = "[2, 1, 0]"
      and pn = 1 and a = 0 and st = disk1]
    pool_free_frame [of 0 RS_FIFO]
  by simp

text \<open>
  C24 (functional). \<^verbatim>\<open>markDirty\<close> sets the dirty flag of the frame that holds
  the handle's page and nothing else; for a page that is not resident it
  changes nothing, and it returns \<^verbatim>\<open>RC_OK\<close> in both cases.
\<close>

theorem markDirty_sets_flag:
  assumes "pool_ok b xs"
  shows "markDirty (Some b) (Some h) =
           Some (RC_OK, Some (b\<lparr>mgmtData :=
             (case find (holds_page (frames (mgmtData b)) (pageNum h)) xs of
                None \<Rightarrow> mgmtData b | Some a \<Rightarrow> dirty_page a (mgmtData b))\<rparr>))"
  using assms by (rule markDirty_eq)

theorem markDirty_sets_flag_witness:
  "pool_ok (pool_free RS_FIFO) [2, 1, 0] \<and>
   markDirty (Some (pool_free RS_FIFO)) (Some \<lparr>pageNum = 3, data = Some 2\<rparr>) =
     Some (RC_OK, Some ((pool_free RS_FIFO)\<lparr>mgmtData :=
       (case find (holds_page (frames (mgmtData (pool_free RS_FIFO)))
                     (pageNum \<lparr>pageNum = 3, data = Some 2\<rparr>)) [2, 1, 0] of
          None \<Rightarrow> mgmtData (pool_free RS_FIFO)
        | Some a \<Rightarrow> dirty_page a (mgmtData (pool_free RS_FIFO)))\<rparr>))"
  using markDirty_sets_flag [where b = "pool_free RS_FIFO" and xs = "[2, 1, 0]"
      and h = "\<lparr>pageNum = 3, data = Some 2\<rparr>"]
  by simp

subsection \<open>What every returning call of pinPage keeps\<close>

text \<open>
  C26 (invariant). A page number is resident in at most one frame: if the
  page numbers of the non-empty frames of a well-formed FIFO or LRU pool are
  pairwise different, they are so after every call of \<^verbatim>\<open>pinPage\<close> that
  returns, and the frame of the returned handle holds the requested page.
\<close>

theorem pinPage_resident_distinct:
  assumes "pool_ok b xs" and "strategy b \<noteq> RS_CLOCK" and "distinct (resident (mgmtData b))"
  shows "case pinPage (Some b) (Some h) pn st of
           None \<Rightarrow> True
         | Some (rc, bm', pg') \<Rightarrow>
             distinct (resident (mgmtData (pointee b bm'))) \<and>
             (\<exists>a. map_option data pg' = Some (Some a) \<and>
                  pageNum (page (frames (mgmtData (pointee b bm')) ! a)) = pn)"
proof (cases "pinPage (Some b) (Some h) pn st")
  case None
  then show ?thesis by simp
next
  case (Some r)
  then obtain rc bm' pg' where run: "pinPage (Some b) (Some h) pn st = Some (rc, bm', pg')"
    by (cases r) auto
  from pinPage_effect [OF assms(1,2) run] obtain md' a where
    r: "bm' = Some (b\<lparr>mgmtData := md'\<rparr>)" "pg' = Some \<lparr>pageNum = pn, data = Some a\<rparr>"
      "a < length (frames (mgmtData b))"
    and e: "case find (holds_page (frames (mgmtData b)) pn) xs of
              Some a' \<Rightarrow> a = a' \<and> strip md' = strip (hit_page a (mgmtData b))
            | None \<Rightarrow> strip md' = strip (load_page a pn st (mgmtData b))"
    by blast
  have "distinct (resident md') \<and> pageNum (page (frames md' ! a)) = pn"
  proof (cases "find (holds_page (frames (mgmtData b)) pn) xs")
    case None
    with e assms r(3) show ?thesis
      using resident_strip [of md' "load_page a pn st (mgmtData b)"]
        resident_load_page [OF pool_ok_frame_list [OF assms(1)] None assms(3), of a st]
        strip_frame(3) [of md' "load_page a pn st (mgmtData b)" a]
        load_page_frame(2) [OF r(3), where pn = pn and st = st and a = a]
      by simp
  next
    case (Some a')
    with e assms r(3) find_holds_page(2) [OF assms(1) Some] show ?thesis
      using resident_strip [of md' "hit_page a (mgmtData b)"]
        strip_frame(3) [of md' "hit_page a (mgmtData b)" a] hit_page_frame(2) [OF r(3), of a]
      by simp
  qed
  with r show ?thesis
    by (simp add: run)
qed

theorem pinPage_resident_distinct_witness:
  "pool_ok (pool_free RS_FIFO) [2, 1, 0] \<and> strategy (pool_free RS_FIFO) \<noteq> RS_CLOCK \<and>
   distinct (resident (mgmtData (pool_free RS_FIFO))) \<and>
   pinPage (Some (pool_free RS_FIFO)) (Some no_handle) 0 disk1 \<noteq> None \<and>
   (case pinPage (Some (pool_free RS_FIFO)) (Some no_handle) 0 disk1 of
      None \<Rightarrow> True
    | Some (rc, bm', pg') \<Rightarrow>
        distinct (resident (mgmtData (pointee (pool_free RS_FIFO) bm'))) \<and>
        (\<exists>a. map_option data pg' = Some (Some a) \<and>
             pageNum (page (frames (mgmtData (pointee (pool_free RS_FIFO) bm')) ! a)) = 0))"
  using pinPage_resident_distinct [where b = "pool_free RS_FIFO" and xs = "[2, 1, 0]"
      and pn = 0 and h = no_handle and st = disk1]
    pinPage_miss_run [where b = "pool_free RS_FIFO" and xs = "[2, 1, 0]" and v = 0
      and pn = 0 and h = no_handle and st = disk1]
  by auto

text \<open>
  C27 (functional). Every call of \<^verbatim>\<open>pinPage\<close> that returns adds one to the pin
  count of the frame it returns and leaves the pin counts of the others; it
  counts one read exactly when the page was not resident, and it never
  counts a write.
\<close>

theorem pinPage_counts:
  assumes "pool_ok b xs" and "strategy b \<noteq> RS_CLOCK"
  shows "case pinPage (Some b) (Some h) pn st of
           None \<Rightarrow> True
         | Some (rc, bm', pg') \<Rightarrow>
             numReadIO (mgmtData (pointee b bm')) =
               numReadIO (mgmtData b) +
                 (if find (holds_page (frames (mgmtData b)) pn) xs = None then 1 else 0) \<and>
             numWriteIO (mgmtData (pointee b bm')) = numWriteIO (mgmtData b) \<and>
             map fixBit (frames (mgmtData (pointee b bm'))) =
               map (\<lambda>c. fixBit (frames (mgmtData b) ! c) +
                          (if map_option data pg' = Some (Some c) then 1 else 0))
                   [0..<length (frames (mgmtData b))]"
proof (cases "pinPage (Some b) (Some h) pn st")
  case None
  then show ?thesis by simp
next
  case (Some r)
  then obtain rc bm' pg' where run: "pinPage (Some b) (Some h) pn st = Some (rc, bm', pg')"
    by (cases r) auto
  from pinPage_effect [OF assms run] obtain md' a where
    r: "bm' = Some (b\<lparr>mgmtData := md'\<rparr>)" "pg' = Some \<lparr>pageNum = pn, data = Some a\<rparr>"
      "a < length (frames (mgmtData b))"
    and e: "case find (holds_page (frames (mgmtData b)) pn) xs of
              Some a' \<Rightarrow> a = a' \<and> strip md' = strip (hit_page a (mgmtData b))
            | None \<Rightarrow> strip md' = strip (load_page a pn st (mgmtData b))"
    by blast
  let ?md = "mgmtData b"
  have "numReadIO md' = numReadIO ?md + (if find (holds_page (frames ?md) pn) xs = None then 1 else 0)
      \<and> numWriteIO md' = numWriteIO ?md \<and> length (frames md') = length (frames ?md) \<and>
      (\<forall>c < length (frames ?md). fixBit (frames md' ! c) = fixBit (frames ?md ! c) + (if c = a then 1 else 0))"
  proof (cases "find (holds_page (frames ?md) pn) xs")
    case None
    with e have s: "strip md' = strip (load_page a pn st ?md)"
      by simp
    from strip_eq_fields(4,5,7) [OF s] strip_frame(1) [OF s] load_page_frame(1,4,5) [OF r(3), of pn st]
    show ?thesis
      by (simp add: None)
  next
    case (Some a')
    with e have s: "strip md' = strip (hit_page a ?md)"
      by simp
    from strip_eq_fields(4,5,7) [OF s] strip_frame(1) [OF s] hit_page_frame(1,4,5) [OF r(3)]
    show ?thesis
      by (simp add: Some)
  qed
  with r show ?thesis
    by (auto simp: run intro!: nth_equalityI)
qed

theorem pinPage_counts_witness:
  "pool_ok (pool_free RS_LRU) [2, 1, 0] \<and> strategy (pool_free RS_LRU) \<noteq> RS_CLOCK \<and>
   pinPage (Some (pool_free RS_LRU)) (Some no_handle) 2 disk1 \<noteq> None \<and>
   (case pinPage (Some (pool_free RS_LRU)) (Some no_handle) 2 disk1 of
      None \<Rightarrow> True
    | Some (rc, bm', pg') \<Rightarrow>
        numReadIO (mgmtData (pointee (pool_free RS_LRU) bm')) =
          numReadIO (mgmtData (pool_free RS_LRU)) +
            (if find (holds_page (frames (mgmtData (pool_free RS_LRU))) 2) [2, 1, 0] = None
             then 1 else 0) \<and>
        numWriteIO (mgmtData (pointee (pool_free RS_LRU) bm')) =
          numWriteIO (mgmtData (pool_free RS_LRU)) \<and>
        map fixBit (frames (mgmtData (pointee (pool_free RS_LRU) bm'))) =
          map (\<lambda>c. fixBit (frames (mgmtData (pool_free RS_LRU)) ! c) +
                     (if map_option data pg' = Some (Some c) then 1 else 0))
              [0..<length (frames (mgmtData (pool_free RS_LRU)))])"
  using pinPage_counts [where b = "pool_free RS_LRU" and xs = "[2, 1, 0]"
      and pn = 2 and h = no_handle and st = disk1]
    pinPage_hit_LRU_run [where b = "pool_free RS_LRU" and xs = "[2, 1, 0]" and a = 1
      and pn = 2 and h = no_handle and st = disk1]
  by auto

subsection \<open>Reports\<close>

text \<open>
  C28 (functional). For a well-formed FIFO or LRU pool the three reports
  \<^verbatim>\<open>getFrameContents\<close>, \<^verbatim>\<open>getDirtyFlags\<close> and \<^verbatim>\<open>getFixCounts\<close> list the page
  number, the dirty flag and the pin count of the frames in the order of
  their creation, whatever the order of the list is at that moment.
\<close>

theorem reports_in_creation_order:
  assumes "pool_ok b xs" and "strategy b \<noteq> RS_CLOCK" and "reports_ok (mgmtData b)"
  shows "map_option fst (getFrameContents (Some b)) =
           Some (Inr (map (\<lambda>f. pageNum (page f)) (frames (mgmtData b)))) \<and>
         map_option fst (getDirtyFlags (Some b)) = Some (Inr (map dirtyBit (frames (mgmtData b)))) \<and>
         map_option fst (getFixCounts (Some b)) = Some (Inr (map fixBit (frames (mgmtData b))))"
  using assms(3)
    report_pool [OF assms(1,2), of "frameContents (mgmtData b)" "\<lambda>f. pageNum (page f)"]
    report_pool [OF assms(1,2), of "dirtyFlags (mgmtData b)" dirtyBit]
    report_pool [OF assms(1,2), of "fixCounts (mgmtData b)" fixBit]
  by (simp add: getFrameContents_def getDirtyFlags_def getFixCounts_def reports_ok_def)

theorem reports_in_creation_order_witness:
  "pool_ok (pool_free RS_LRU) [2, 1, 0] \<and> strategy (pool_free RS_LRU) \<noteq> RS_CLOCK \<and>
   reports_ok (mgmtData (pool_free RS_LRU)) \<and>
   map_option fst (getFrameContents (Some (pool_free RS_LRU))) =
     Some (Inr (map (\<lambda>f. pageNum (page f)) (frames (mgmtData (pool_free RS_LRU))))) \<and>
   map_option fst (getDirtyFlags (Some (pool_free RS_LRU))) =
     Some (Inr (map dirtyBit (frames (mgmtData (pool_free RS_LRU))))) \<and>
   map_option fst (getFixCounts (Some (pool_free RS_LRU))) =
     Some (Inr (map fixBit (frames (mgmtData (pool_free RS_LRU)))))"
  using reports_in_creation_order [where b = "pool_free RS_LRU" and xs = "[2, 1, 0]"]
  by simp

text \<open>
  C29 (functional). \<^verbatim>\<open>getRefBits\<close> has no loop over sequence numbers: under
  every strategy it lists the reference bits in the order of the list, head
  first, so that under FIFO and LRU its entries are not aligned with those of
  the other three reports.
\<close>

theorem getRefBits_in_list_order:
  assumes "pool_ok b xs" and "reports_ok (mgmtData b)"
  shows "map_option fst (getRefBits (Some b)) =
           Some (Inr (map (\<lambda>a. refBit (frames (mgmtData b) ! a)) xs))"
  using assms(2) by (intro getRefBits_pool [OF assms(1)]) (simp add: reports_ok_def)

theorem getRefBits_in_list_order_witness:
  "pool_ok (pool_free RS_LRU) [2, 1, 0] \<and> reports_ok (mgmtData (pool_free RS_LRU)) \<and>
   map_option fst (getRefBits (Some (pool_free RS_LRU))) =
     Some (Inr (map (\<lambda>a. refBit (frames (mgmtData (pool_free RS_LRU)) ! a)) [2, 1, 0]))"
  using getRefBits_in_list_order [where b = "pool_free RS_LRU" and xs = "[2, 1, 0]"]
  by simp

subsection \<open>Flushing and shutting down\<close>

text \<open>
  C10 (refinement). On a well-formed pool over a well-formed handle
  \<^verbatim>\<open>forceFlushPool\<close> returns \<open>RC_OK\<close> and the pages of the file are those
  before with \<open>write_back\<close> applied for the dirty unpinned frames in the order
  of the list, head first: each such frame's buffer is put at its page number,
  the file growing by empty pages where the number is beyond its end. The
  handle stays well formed. Pinned frames and clean frames write nothing.
\<close>

theorem forceFlushPool_writes_back:
  assumes "pool_ok b xs" and "handle_ok st (fHandle (mgmtData b))"
    and "list_all (\<lambda>a. flushable (frames (mgmtData b)) a \<longrightarrow>
            0 \<le> pageNum (page (frames (mgmtData b) ! a)) \<and>
            length (bufs (mgmtData b) ! a) = PAGE_SIZE) xs"
  shows "case forceFlushPool (Some b) st of
           Some (rc, Some b', st') \<Rightarrow>
             rc = RC_OK \<and> handle_ok st' (fHandle (mgmtData b')) \<and>
             pages_of st' (fHandle (mgmtData b')) =
               foldl (write_back (mgmtData b)) (pages_of st (fHandle (mgmtData b)))
                 (filter (flushable (frames (mgmtData b))) xs)
         | _ \<Rightarrow> False"
proof -
  from assms(1) have "distinct xs"
    by (simp add: pool_ok_def frame_list_def)
  from flush_frames_disk [OF assms(2) this] assms(3) show ?thesis
    by (simp add: forceFlushPool_eq [OF assms(1)] list_all_iff)
qed

theorem forceFlushPool_writes_back_witness:
  "pool_ok (pool_mid RS_FIFO) [2, 1, 0] \<and> handle_ok disk1 (fHandle (mgmtData (pool_mid RS_FIFO))) \<and>
   list_all (\<lambda>a. flushable (frames (mgmtData (pool_mid RS_FIFO))) a \<longrightarrow>
            0 \<le> pageNum (page (frames (mgmtData (pool_mid RS_FIFO)) ! a)) \<and>
            length (bufs (mgmtData (pool_mid RS_FIFO)) ! a) = PAGE_SIZE) [2, 1, 0] \<and>
   (case forceFlushPool (Some (pool_mid RS_FIFO)) disk1 of
           Some (rc, Some b', st') \<Rightarrow>
             rc = RC_OK \<and> handle_ok st' (fHandle (mgmtData b')) \<and>
             pages_of st' (fHandle (mgmtData b')) =
               foldl (write_back (mgmtData (pool_mid RS_FIFO))) (pages_of disk1 (fHandle (mgmtData (pool_mid RS_FIFO))))
                 (filter (flushable (frames (mgmtData (pool_mid RS_FIFO)))) [2, 1, 0])
         | _ \<Rightarrow> False)"
  using forceFlushPool_writes_back [where b = "pool_mid RS_FIFO" and xs = "[2, 1, 0]" and st = disk1]
  by simp

text \<open>
  C16 (invariant). \<^verbatim>\<open>forceFlushPool\<close> keeps the pool well formed with the same
  list order and the same buffers, clears the dirty flag of exactly the dirty
  frames with pin count zero and changes no other field of any frame, so that
  a dirty pinned frame is still dirty afterwards and no frame is left that a
  second flush would write.
\<close>

theorem forceFlushPool_cleans:
  assumes "pool_ok b xs"
  shows "case forceFlushPool (Some b) st of
           Some (rc, Some b', st') \<Rightarrow>
             pool_ok b' xs \<and> frames (mgmtData b') = map flushed (frames (mgmtData b)) \<and>
             bufs (mgmtData b') = bufs (mgmtData b) \<and>
             list_all (\<lambda>a. \<not> flushable (frames (mgmtData b')) a) xs
         | _ \<Rightarrow> False"
proof -
  from assms have "distinct xs" and s: "set xs = {..<length (frames (mgmtData b))}"
    by (simp_all add: pool_ok_def frame_list_set) (simp add: frame_list_def)
  from flush_frames_effect [OF this(1), of "mgmtData b" st] pool_ok_flush [OF assms, of st] s
  show ?thesis
    by (simp add: forceFlushPool_eq [OF assms] flush_frames_frames [OF assms] list_all_iff
        flushable_def flushed_def)
qed

theorem forceFlushPool_cleans_witness:
  "pool_ok (pool_mid RS_FIFO) [2, 1, 0] \<and>
   (case forceFlushPool (Some (pool_mid RS_FIFO)) disk1 of
           Some (rc, Some b', st') \<Rightarrow>
             pool_ok b' [2, 1, 0] \<and> frames (mgmtData b') = map flushed (frames (mgmtData (pool_mid RS_FIFO))) \<and>
             bufs (mgmtData b') = bufs (mgmtData (pool_mid RS_FIFO)) \<and>
             list_all (\<lambda>a. \<not> flushable (frames (mgmtData b')) a) [2, 1, 0]
         | _ \<Rightarrow> False)"
  using forceFlushPool_cleans [where b = "pool_mid RS_FIFO" and xs = "[2, 1, 0]" and st = disk1]
  by simp

text \<open>
  C30 (functional). \<^verbatim>\<open>forceFlushPool\<close> leaves \<^verbatim>\<open>numWriteIO\<close> as it was, however
  many pages it writes: the loop calls \<^verbatim>\<open>writeBlock\<close> itself and only
  \<^verbatim>\<open>forcePage\<close> increments the counter. In the pool of the witness one page is
  written and the counter stays at zero.
\<close>

theorem forceFlushPool_not_counted:
  assumes "pool_ok b xs"
  shows "map_option (\<lambda>(rc, b', st'). map_option (\<lambda>b'. numWriteIO (mgmtData b')) b')
           (forceFlushPool (Some b) st) = Some (Some (numWriteIO (mgmtData b)))"
proof -
  from assms have "distinct xs"
    by (simp add: pool_ok_def frame_list_def)
  from flush_frames_effect [OF this, of "mgmtData b" st] show ?thesis
    by (simp add: forceFlushPool_eq [OF assms])
qed

theorem forceFlushPool_not_counted_witness:
  "pool_ok (pool_mid RS_FIFO) [2, 1, 0] \<and>
   map_option (\<lambda>(rc, b', st'). map_option (\<lambda>b'. numWriteIO (mgmtData b')) b')
           (forceFlushPool (Some (pool_mid RS_FIFO)) disk1) = Some (Some (numWriteIO (mgmtData (pool_mid RS_FIFO))))"
  using forceFlushPool_not_counted [where b = "pool_mid RS_FIFO" and xs = "[2, 1, 0]" and st = disk1]
  by simp



text \<open>
  C18 (error). With a pinned frame in the pool \<^verbatim>\<open>shutdownBufferPool\<close> returns
  \<open>RC_WRITE_FAILED\<close> and frees nothing: the pool is still well formed with the
  same list. The loop tests the frames one after the other from the head and
  flushes the whole pool when it meets a dirty frame before the first pinned
  one, so pool and storage are either untouched or as after
  \<^verbatim>\<open>forceFlushPool\<close>.
\<close>

theorem shutdownBufferPool_pinned:
  assumes "pool_ok b xs" and "\<not> list_all (\<lambda>a. fixBit (frames (mgmtData b) ! a) = 0) xs"
  shows "case (shutdownBufferPool (Some b) st, forceFlushPool (Some b) st) of
           (Some (rc, Some b', st'), Some (rc2, Some b2, st2)) \<Rightarrow>
             rc = RC_WRITE_FAILED \<and> pool_ok b' xs \<and>
             ((b', st') = (b, st) \<or> (b', st') = (b2, st2))
         | _ \<Rightarrow> False"
proof -
  from assms(1) have h: "head (mgmtData b) = start xs None" "nat (numPages b) = length xs"
    "links (frames (mgmtData b)) xs None"
    by (simp_all add: pool_ok_def frame_list_def start_hd)
  from assms(2) have "\<exists>a \<in> set xs. fixBit (frames (mgmtData b) ! a) \<noteq> 0"
    by (simp add: list_all_iff)
  from shutdown_loop_pinned [OF assms(1) h(3) subset_refl this, of st] h assms(1)
    pool_ok_flush [OF assms(1), of st]
  show ?thesis
    by (auto simp: shutdownBufferPool_def forceFlushPool_eq [OF assms(1)])
qed

theorem shutdownBufferPool_pinned_witness:
  "pool_ok (pool_mid RS_LRU) [2, 1, 0] \<and>
   \<not> list_all (\<lambda>a. fixBit (frames (mgmtData (pool_mid RS_LRU)) ! a) = 0) [2, 1, 0] \<and>
   (case (shutdownBufferPool (Some (pool_mid RS_LRU)) disk1,
          forceFlushPool (Some (pool_mid RS_LRU)) disk1) of
           (Some (rc, Some b', st'), Some (rc2, Some b2, st2)) \<Rightarrow>
             rc = RC_WRITE_FAILED \<and> pool_ok b' [2, 1, 0] \<and>
             ((b', st') = (pool_mid RS_LRU, disk1) \<or> (b', st') = (b2, st2))
         | _ \<Rightarrow> False)"
  using shutdownBufferPool_pinned [where b = "pool_mid RS_LRU" and xs = "[2, 1, 0]" and st = disk1]
  by simp

text \<open>
  C19 (functional). \<^verbatim>\<open>forcePage\<close> with a handle on a buffer of the pool and a page
  number that is not negative returns \<open>RC_OK\<close>, puts the buffer at that page
  of the file (growing the file where the number is beyond its end) and adds
  one to \<^verbatim>\<open>numWriteIO\<close>. It touches no frame: the dirty flag of the frame that
  holds the page is as before.
\<close>

theorem forcePage_writes:
  assumes "d < length (bufs (mgmtData b))" and "handle_ok st (fHandle (mgmtData b))"
    and "0 \<le> pn"
  shows "case forcePage (Some b) (Some \<lparr>pageNum = pn, data = Some d\<rparr>) st of
           Some (rc, Some b', st') \<Rightarrow>
             rc = RC_OK \<and>
             pages_of st' (fHandle (mgmtData b')) =
               put_block (nat pn) (bufs (mgmtData b) ! d) (pages_of st (fHandle (mgmtData b))) \<and>
             numWriteIO (mgmtData b') = numWriteIO (mgmtData b) + 1 \<and>
             frames (mgmtData b') = frames (mgmtData b) \<and> bufs (mgmtData b') = bufs (mgmtData b)
         | _ \<Rightarrow> False"
  using writeBlock_ok [OF assms(2,3), of "bufs (mgmtData b) ! d"]
  by (auto simp: forcePage_eq [OF assms(1)])

theorem forcePage_writes_witness:
  "(1 :: nat) < length (bufs (mgmtData (pool_free RS_FIFO))) \<and>
   handle_ok disk1 (fHandle (mgmtData (pool_free RS_FIFO))) \<and> (0 :: int) \<le> 2 \<and>
   (case forcePage (Some (pool_free RS_FIFO)) (Some \<lparr>pageNum = 2, data = Some 1\<rparr>) disk1 of
           Some (rc, Some b', st') \<Rightarrow>
             rc = RC_OK \<and>
             pages_of st' (fHandle (mgmtData b')) =
               put_block (nat 2) (bufs (mgmtData (pool_free RS_FIFO)) ! 1)
                 (pages_of disk1 (fHandle (mgmtData (pool_free RS_FIFO)))) \<and>
             numWriteIO (mgmtData b') = numWriteIO (mgmtData (pool_free RS_FIFO)) + 1 \<and>
             frames (mgmtData b') = frames (mgmtData (pool_free RS_FIFO)) \<and>
             bufs (mgmtData b') = bufs (mgmtData (pool_free RS_FIFO))
         | _ \<Rightarrow> False)"
  using forcePage_writes [where b = "pool_free RS_FIFO" and d = 1 and pn = 2 and st = disk1]
  by simp

text \<open>
  C31 (error). \<^verbatim>\<open>forcePage\<close> does not look at what \<^verbatim>\<open>writeBlock\<close> returns: for a
  negative page number the write fails, the storage is unchanged, and
  \<^verbatim>\<open>forcePage\<close> still returns \<open>RC_OK\<close> and counts one more write.
\<close>

theorem forcePage_failed_write:
  assumes "d < length (bufs (mgmtData b))" and "handle_ok st (fHandle (mgmtData b))"
    and "pn < 0"
  shows "forcePage (Some b) (Some \<lparr>pageNum = pn, data = Some d\<rparr>) st =
           Some (RC_OK,
             Some (b\<lparr>mgmtData := (mgmtData b)\<lparr>numWriteIO := numWriteIO (mgmtData b) + 1\<rparr>\<rparr>), st)"
proof -
  from assms(2) obtain name f where "mgmtInfo (fHandle (mgmtData b)) = Some name"
    "files st name = Some f" "totalNumPages (fHandle (mgmtData b)) = int (length (blocks f))"
    by (rule handle_okE)
  with assms(3) have "writeBlock pn (Some (fHandle (mgmtData b))) (Some (bufs (mgmtData b) ! d)) st =
      (RC_WRITE_FAILED, Some (fHandle (mgmtData b)), st)"
    by (simp add: writeBlock_def fseek_page_def)
  then show ?thesis
    by (simp add: forcePage_eq [OF assms(1)])
qed

theorem forcePage_failed_write_witness:
  "(1 :: nat) < length (bufs (mgmtData (pool_free RS_FIFO))) \<and>
   handle_ok disk1 (fHandle (mgmtData (pool_free RS_FIFO))) \<and> (- 1 :: int) < 0 \<and>
   forcePage (Some (pool_free RS_FIFO)) (Some \<lparr>pageNum = - 1, data = Some 1\<rparr>) disk1 =
           Some (RC_OK,
             Some ((pool_free RS_FIFO)\<lparr>mgmtData := (mgmtData (pool_free RS_FIFO))
                \<lparr>numWriteIO := numWriteIO (mgmtData (pool_free RS_FIFO)) + 1\<rparr>\<rparr>), disk1)"
  using forcePage_failed_write [where b = "pool_free RS_FIFO" and d = 1 and pn = "- 1" and st = disk1]
  by simp

end
