(* ===== verification/Record_Codec.thy ===== *)
theory Record_Codec
  imports DB_Prelude
begin

text \<open>
  Bytes in a buffer, as \<^verbatim>\<open>record_mgr.c\<close> reads and writes them: an \<^verbatim>\<open>int\<close> stored
  with \<^verbatim>\<open>*(int*)p = v\<close> (four bytes, least significant first, as on the hosts
  the code was written for), a signed \<^verbatim>\<open>char\<close>, a region copied with
  \<^verbatim>\<open>memcpy\<close>, a name copied with \<^verbatim>\<open>strncpy\<close>. A copy that leaves the buffer is
  \<open>None\<close>. The lemmas are the round trips and the two facts a store needs:
  reading back what was written, and reading what lies beside it.
\<close>

definition encode_int32 :: "int \<Rightarrow> byte list" where
  "encode_int32 v = map (\<lambda>i. word_of_int (v div 256 ^ i)) [0..<4]"

definition decode_int32 :: "byte list \<Rightarrow> int" where
  "decode_int32 bs = sint (word_of_int (foldr (\<lambda>b acc. uint b + 256 * acc) bs 0) :: 32 word)"

definition int32 :: "int \<Rightarrow> bool" where
  "int32 v \<longleftrightarrow> - (2 ^ 31) \<le> v \<and> v < 2 ^ 31"

definition load_bytes :: "int \<Rightarrow> int \<Rightarrow> byte list \<Rightarrow> byte list option" where
  "load_bytes ofs n buf =
     (if 0 \<le> ofs \<and> 0 \<le> n \<and> nat ofs + nat n \<le> length buf
      then Some (take (nat n) (drop (nat ofs) buf)) else None)"

definition store_bytes :: "int \<Rightarrow> byte list \<Rightarrow> byte list \<Rightarrow> byte list option" where
  "store_bytes ofs bs buf =
     (if 0 \<le> ofs \<and> nat ofs + length bs \<le> length buf
      then Some (take (nat ofs) buf @ bs @ drop (nat ofs + length bs) buf) else None)"

definition load_int :: "int \<Rightarrow> byte list \<Rightarrow> int option" where
  "load_int ofs buf = map_option decode_int32 (load_bytes ofs 4 buf)"

definition store_int :: "int \<Rightarrow> int \<Rightarrow> byte list \<Rightarrow> byte list option" where
  "store_int ofs v buf = store_bytes ofs (encode_int32 v) buf"

definition load_char :: "int \<Rightarrow> byte list \<Rightarrow> int option" where
  "load_char ofs buf = map_option (\<lambda>bs. sint (hd bs)) (load_bytes ofs 1 buf)"

definition store_char :: "int \<Rightarrow> int \<Rightarrow> byte list \<Rightarrow> byte list option" where
  "store_char ofs v buf = store_bytes ofs [word_of_int v] buf"

definition strncpy :: "nat \<Rightarrow> byte list \<Rightarrow> byte list" where
  "strncpy n src =
     (let s = take n (takeWhile (\<lambda>b. b \<noteq> 0) src) in s @ replicate (n - length s) 0)"

primrec for_each :: "'a list \<Rightarrow> ('a \<Rightarrow> 's \<Rightarrow> 's option) \<Rightarrow> 's \<Rightarrow> 's option" where
  "for_each [] f s = Some s"
| "for_each (x # xs) f s = do { s' \<leftarrow> f x s; for_each xs f s' }"

definition nth_opt :: "'a list \<Rightarrow> int \<Rightarrow> 'a option" where
  "nth_opt xs i = (if 0 \<le> i \<and> nat i < length xs then Some (xs ! nat i) else None)"

subsection \<open>Four bytes and an int\<close>

lemma length_encode_int32 [simp]: "length (encode_int32 v) = 4"
  by (simp add: encode_int32_def)

lemma upt_4: "[0..<4] = [0, 1, 2, 3]"
  by (simp add: eval_nat_numeral)

lemma encode_int32_bytes:
  "encode_int32 v =
     [word_of_int v, word_of_int (v div 256), word_of_int (v div 65536),
      word_of_int (v div 16777216)]"
  by (simp add: encode_int32_def upt_4)

lemma bytes_value:
  "foldr (\<lambda>b acc. uint b + 256 * acc) (encode_int32 v) 0 = take_bit 32 v"
proof -
  have m1: "v mod 4294967296 = 256 * (v div 256 mod 16777216) + v mod 256"
    using zmod_zmult2_eq [of 16777216 v 256] by simp
  have m2: "v div 256 mod 16777216 = 256 * (v div 256 div 256 mod 65536) + v div 256 mod 256"
    using zmod_zmult2_eq [of 65536 "v div 256" 256] by simp
  have m3: "v div 256 div 256 mod 65536 =
       256 * (v div 256 div 256 div 256 mod 256) + v div 256 div 256 mod 256"
    using zmod_zmult2_eq [of 256 "v div 256 div 256" 256] by simp
  have d1: "v div 65536 = v div 256 div 256"
    using zdiv_zmult2_eq [of 256 v 256] by simp
  have d2: "v div 16777216 = v div 256 div 256 div 256"
    using zdiv_zmult2_eq [of 256 v 65536] d1 by simp
  have u: "uint (word_of_int k :: byte) = k mod 256" for k
    by (simp add: uint_word_of_int)
  have "foldr (\<lambda>b acc. uint b + 256 * acc) (encode_int32 v) 0 =
      v mod 256 + 256 * (v div 256 mod 256 + 256 * (v div 256 div 256 mod 256 +
        256 * (v div 256 div 256 div 256 mod 256)))"
    by (simp add: encode_int32_bytes u d1 d2)
  also have "\<dots> = 256 * (256 * (256 * (v div 256 div 256 div 256 mod 256) +
      v div 256 div 256 mod 256) + v div 256 mod 256) + v mod 256"
    by (simp only: add.commute)
  also have "\<dots> = v mod 4294967296"
    by (simp only: m1 m2 m3)
  finally show ?thesis
    by (simp add: take_bit_eq_mod)
qed

lemma decode_encode_int32_wrap: "decode_int32 (encode_int32 v) = signed_take_bit 31 v"
  by (simp add: decode_int32_def bytes_value wi_bintr sint_sbintrunc')

lemma decode_encode_int32 [simp]: "int32 v \<Longrightarrow> decode_int32 (encode_int32 v) = v"
  unfolding decode_encode_int32_wrap int32_def
  by (simp add: signed_take_bit_int_eq_self)

lemma int32_decode [simp]: "int32 (decode_int32 bs)"
  using sint_ge [of "word_of_int (foldr (\<lambda>b acc. uint b + 256 * acc) bs 0) :: 32 word"]
    sint_lt [of "word_of_int (foldr (\<lambda>b acc. uint b + 256 * acc) bs 0) :: 32 word"]
  by (simp add: int32_def decode_int32_def)

lemma int32_simps [simp]: "int32 0" "int32 1" "int32 (- 1)"
  by (simp_all add: int32_def)

lemma int32_small: "- 2147483648 \<le> v \<Longrightarrow> v < 2147483648 \<Longrightarrow> int32 v"
  by (simp add: int32_def)

subsection \<open>Regions of a buffer\<close>

lemma load_bytes_Some:
  "load_bytes ofs n buf = Some bs \<Longrightarrow> length bs = nat n \<and> 0 \<le> ofs \<and> nat ofs + nat n \<le> length buf"
  by (auto simp: load_bytes_def split: if_splits)

lemma store_bytes_Some:
  "store_bytes ofs bs buf = Some buf' \<Longrightarrow>
     length buf' = length buf \<and> 0 \<le> ofs \<and> nat ofs + length bs \<le> length buf"
  by (auto simp: store_bytes_def split: if_splits)

lemma store_bytes_in_range:
  "0 \<le> ofs \<Longrightarrow> nat ofs + length bs \<le> length buf \<Longrightarrow> \<exists>buf'. store_bytes ofs bs buf = Some buf'"
  by (simp add: store_bytes_def)

lemma load_store_same:
  assumes "store_bytes ofs bs buf = Some buf'" and "n = int (length bs)"
  shows "load_bytes ofs n buf' = Some bs"
  using assms by (auto simp: store_bytes_def load_bytes_def split: if_splits)

lemma store_bytes_nth:
  assumes "store_bytes ofs bs buf = Some buf'" and "j < length buf"
  shows "buf' ! j = (if nat ofs \<le> j \<and> j < nat ofs + length bs then bs ! (j - nat ofs) else buf ! j)"
proof -
  from assms(1) have s: "nat ofs + length bs \<le> length buf"
    "buf' = take (nat ofs) buf @ (bs @ drop (nat ofs + length bs) buf)"
    by (auto simp: store_bytes_def split: if_splits)
  consider "j < nat ofs" | "nat ofs \<le> j" "j < nat ofs + length bs" | "nat ofs + length bs \<le> j"
    by linarith
  then show ?thesis
  proof cases
    case 1
    with s(1) show ?thesis
      by (simp add: s(2) nth_append)
  next
    case 2
    then have "j - nat ofs < length bs"
      by linarith
    with 2 s(1) show ?thesis
      by (simp add: s(2) nth_append)
  next
    case 3
    then have n: "\<not> j < nat ofs" "\<not> j - nat ofs < length bs"
      "nat ofs + length bs + (j - nat ofs - length bs) = j"
      by linarith+
    with s(1) assms(2) have "buf' ! j = buf ! j"
      by (simp add: s(2) nth_append)
    with 3 show ?thesis
      by simp
  qed
qed

lemma load_bytes_cong:
  assumes "length buf' = length buf"
    and "\<And>j. 0 \<le> ofs \<Longrightarrow> 0 \<le> n \<Longrightarrow> nat ofs \<le> j \<Longrightarrow> j < nat ofs + nat n \<Longrightarrow>
           j < length buf \<Longrightarrow> buf' ! j = buf ! j"
  shows "load_bytes ofs n buf' = load_bytes ofs n buf"
proof (cases "0 \<le> ofs \<and> 0 \<le> n \<and> nat ofs + nat n \<le> length buf")
  case True
  with assms have "take (nat n) (drop (nat ofs) buf') = take (nat n) (drop (nat ofs) buf)"
    by (intro nth_equalityI) simp_all
  with True assms(1) show ?thesis
    by (simp add: load_bytes_def)
next
  case False
  with assms(1) show ?thesis
    by (auto simp: load_bytes_def)
qed

lemma load_store_other:
  assumes "store_bytes ofs bs buf = Some buf'"
    and "o' + n \<le> ofs \<or> ofs + int (length bs) \<le> o'"
  shows "load_bytes o' n buf' = load_bytes o' n buf"
proof (rule load_bytes_cong)
  from assms(1) show "length buf' = length buf"
    by (simp add: store_bytes_Some)
  fix j assume j: "0 \<le> o'" "0 \<le> n" "nat o' \<le> j" "j < nat o' + nat n" "j < length buf"
  from assms(1) have "0 \<le> ofs"
    by (simp add: store_bytes_Some)
  with assms(2) j have "\<not> (nat ofs \<le> j \<and> j < nat ofs + length bs)"
    by linarith
  with store_bytes_nth [OF assms(1) j(5)] show "buf' ! j = buf ! j"
    by simp
qed

lemma load_int_store_int_same:
  "store_int ofs v buf = Some buf' \<Longrightarrow> int32 v \<Longrightarrow> load_int ofs buf' = Some v"
  by (simp add: store_int_def load_int_def load_store_same [where n = 4])

lemma load_int_store_int_other:
  "store_int ofs v buf = Some buf' \<Longrightarrow> o' + 4 \<le> ofs \<or> ofs + 4 \<le> o' \<Longrightarrow>
     load_int o' buf' = load_int o' buf"
  by (simp add: store_int_def load_int_def load_store_other)

lemma load_char_store_char_same:
  "store_char ofs v buf = Some buf' \<Longrightarrow> - 128 \<le> v \<Longrightarrow> v < 128 \<Longrightarrow> load_char ofs buf' = Some v"
  by (simp add: store_char_def load_char_def load_store_same [where n = 1] sint_sbintrunc'
      signed_take_bit_int_eq_self)

subsection \<open>Names\<close>

lemma length_strncpy [simp]: "length (strncpy n src) = n"
  by (simp add: strncpy_def Let_def)

lemma takeWhile_nonzero_pad:
  "\<forall>b \<in> set s. b \<noteq> (0 :: byte) \<Longrightarrow> takeWhile (\<lambda>b. b \<noteq> 0) (s @ replicate k 0) = s"
  by (induction s) simp_all

lemma strncpy_idem [simp]: "strncpy n (strncpy n src) = strncpy n src"
proof -
  define s where "s = take n (takeWhile (\<lambda>b. b \<noteq> 0) src)"
  have z: "\<forall>b \<in> set s. b \<noteq> 0" and l: "length s \<le> n"
    by (auto simp: s_def dest: in_set_takeD set_takeWhileD)
  have e: "strncpy n src = s @ replicate (n - length s) 0"
    by (simp add: strncpy_def s_def Let_def)
  from l have "strncpy n (s @ replicate (n - length s) 0) = s @ replicate (n - length s) 0"
    unfolding strncpy_def takeWhile_nonzero_pad [OF z] by (simp add: Let_def)
  then show ?thesis
    by (simp only: e)
qed

lemma strncpy_plain:
  "\<forall>b \<in> set s. b \<noteq> 0 \<Longrightarrow> length s \<le> n \<Longrightarrow> strncpy n s = s @ replicate (n - length s) 0"
  by (simp add: strncpy_def Let_def takeWhile_eq_all_conv [THEN iffD2])

subsection \<open>Loops over an index\<close>

lemma for_each_append [simp]:
  "for_each (xs @ ys) f s = do { s' \<leftarrow> for_each xs f s; for_each ys f s' }"
  by (induction xs arbitrary: s) simp_all

lemma nth_opt_Some [simp]: "0 \<le> i \<Longrightarrow> nat i < length xs \<Longrightarrow> nth_opt xs i = Some (xs ! nat i)"
  by (simp add: nth_opt_def)

lemma nth_opt_nat [simp]: "i < length xs \<Longrightarrow> nth_opt xs (int i) = Some (xs ! i)"
  by (simp add: nth_opt_def)

end
