(* ===== verification/Record_Mgr.thy ===== *)
theory Record_Mgr
  imports Record_Codec Buffer_Mgr
begin

text \<open>
  \<^verbatim>\<open>record_mgr.c\<close>: tables of fixed-size records in the pages of a page file,
  reached through a buffer pool of 1000 frames with FIFO replacement. Every
  function of the file is one definition, in the order of the file.

  \<^item> A table is the record \<open>RM_TableData\<close>; its \<^verbatim>\<open>mgmtData\<close> and \<^verbatim>\<open>schema\<close> are
    pointers that \<^verbatim>\<open>closeTable\<close> sets to \<^verbatim>\<open>NULL\<close> and are options. The pool
    \<^verbatim>\<open>td->bm\<close> and the handle \<^verbatim>\<open>td->h\<close> are embedded structs and are plain
    fields. A pointer into a page (\<^verbatim>\<open>dataPtr\<close>) is the index of the page's
    buffer in the pool, as \<^verbatim>\<open>page.data\<close> is in \<open>Buffer_Mgr\<close>.
  \<^item> The return codes of \<^verbatim>\<open>pinPage\<close>, \<^verbatim>\<open>markDirty\<close> and \<^verbatim>\<open>unpinPage\<close> are
    dropped as the code drops them (\<open>pin_page\<close>, \<open>mark_page\<close>, \<open>unpin_page\<close>).
  \<^item> Every operation is in the option monad: \<open>None\<close> is a run that leaves a
    buffer, dereferences \<^verbatim>\<open>NULL\<close>, divides by zero or does not return.
  \<^item> \<^verbatim>\<open>tables.h\<close>, \<^verbatim>\<open>dt.h\<close> and \<^verbatim>\<open>expr.h\<close> are not part of the sources: the
    types \<open>DataType\<close>, \<open>Value\<close>, \<open>Schema\<close>, \<open>RID\<close>, \<open>Record\<close>, \<open>RM_TableData\<close>
    and \<open>RM_ScanHandle\<close> follow the use the code makes of them. A \<open>Value\<close> is
    its tag and the bytes of its union (for a string the characters it
    points to); an expression is the function \<^verbatim>\<open>evalExpr\<close> computes from it.
  \<^item> Memory from \<^verbatim>\<open>malloc\<close> is zero until written.
\<close>

subsection \<open>Types\<close>

datatype DataType = DT_INT | DT_STRING | DT_FLOAT | DT_BOOL

record Value =
  dt :: DataType
  v :: "byte list"

record Schema =
  numAttr :: int
  attrNames :: "byte list list"
  dataTypes :: "DataType list"
  typeLength :: "int list"
  keyAttrs :: "int list"
  keySize :: int

record RID =
  rid_page :: int
  rid_slot :: int

record Record =
  rec_id :: RID
  rec_data :: "byte list"

type_synonym Expr = "Record \<Rightarrow> Schema \<Rightarrow> bool"

record RM_MgmtData_Table =
  recCnt :: int
  initFreePg :: int
  bm :: BM_BufferPool
  h :: BM_PageHandle

record RM_TableData =
  rel_name :: "string option"
  rel_schema :: "Schema option"
  rel_mgmtData :: "RM_MgmtData_Table option"

record RM_MgmtData_Scan =
  rid :: RID
  recScanCnt :: int
  cond :: "Expr option"
  dataPtr :: "nat option"
  scan_h :: BM_PageHandle

record RM_ScanHandle =
  scan_mgmtData :: "RM_MgmtData_Scan option"

subsection \<open>Constants and raw memory\<close>

definition REC_SZ :: int where
  "REC_SZ = int PAGE_SIZE - (1 + 2 * 4 + 0)"

definition to_size_t :: "int \<Rightarrow> int" where
  "to_size_t x = x mod 2 ^ 64"

definition sizeof_DataType :: "DataType \<Rightarrow> int option" where
  "sizeof_DataType t =
     (case t of DT_STRING \<Rightarrow> None | DT_INT \<Rightarrow> Some 4 | DT_FLOAT \<Rightarrow> Some 4 | DT_BOOL \<Rightarrow> Some 2)"

definition int_of_DataType :: "DataType \<Rightarrow> int" where
  "int_of_DataType t = (case t of DT_INT \<Rightarrow> 0 | DT_STRING \<Rightarrow> 1 | DT_FLOAT \<Rightarrow> 2 | DT_BOOL \<Rightarrow> 3)"

definition DataType_of_int :: "int \<Rightarrow> DataType option" where
  "DataType_of_int i =
     (if i = 0 then Some DT_INT else if i = 1 then Some DT_STRING
      else if i = 2 then Some DT_FLOAT else if i = 3 then Some DT_BOOL else None)"

definition raw_handle :: BM_PageHandle where
  "raw_handle = \<lparr>pageNum = 0, data = None\<rparr>"

definition raw_fHandle :: SM_FileHandle where
  "raw_fHandle = \<lparr>fileName = None, totalNumPages = 0, curPagePos = 0, mgmtInfo = None\<rparr>"

definition raw_bm :: BM_BufferPool where
  "raw_bm = \<lparr>pageFile = None, numPages = 0, strategy = RS_FIFO, mgmtData = raw_mgmtData 0\<rparr>"

definition raw_schema :: "int \<Rightarrow> int \<Rightarrow> Schema" where
  "raw_schema n k =
     \<lparr>numAttr = n, attrNames = replicate (nat n) (replicate 64 0),
      dataTypes = replicate (nat n) DT_INT, typeLength = replicate (nat n) 0,
      keyAttrs = replicate (nat k) 0, keySize = k\<rparr>"

subsection \<open>Calls into the buffer pool and page memory\<close>

definition pin_page ::
  "BM_BufferPool \<Rightarrow> BM_PageHandle \<Rightarrow> int \<Rightarrow> storage \<Rightarrow> (BM_BufferPool \<times> BM_PageHandle) option" where
  "pin_page b ph pn st =
     do {
       (rc, b', ph') \<leftarrow> pinPage (Some b) (Some ph) pn st;
       Some (pointee b b', pointee ph ph')
     }"

definition mark_page :: "BM_BufferPool \<Rightarrow> BM_PageHandle \<Rightarrow> BM_BufferPool option" where
  "mark_page b ph =
     do {
       (rc, b') \<leftarrow> markDirty (Some b) (Some ph);
       Some (pointee b b')
     }"

definition unpin_page ::
  "BM_BufferPool \<Rightarrow> BM_PageHandle \<Rightarrow> storage \<Rightarrow> (BM_BufferPool \<times> storage) option" where
  "unpin_page b ph st =
     do {
       (rc, b', st') \<leftarrow> unpinPage (Some b) (Some ph) st;
       Some (pointee b b', st')
     }"

definition page_at :: "BM_BufferPool \<Rightarrow> nat option \<Rightarrow> page option" where
  "page_at b p =
     (case p of
        None \<Rightarrow> None
      | Some d \<Rightarrow> if d < length (bufs (mgmtData b)) then Some (bufs (mgmtData b) ! d) else None)"

definition poke :: "nat option \<Rightarrow> (page \<Rightarrow> page option) \<Rightarrow> BM_BufferPool \<Rightarrow> BM_BufferPool option" where
  "poke p f b =
     do {
       pg \<leftarrow> page_at b p;
       pg' \<leftarrow> f pg;
       Some (b\<lparr>mgmtData := (mgmtData b)\<lparr>bufs := (bufs (mgmtData b))[the p := pg']\<rparr>\<rparr>)
     }"

definition peek_int :: "nat option \<Rightarrow> int \<Rightarrow> BM_BufferPool \<Rightarrow> int option" where
  "peek_int p ofs b = do { pg \<leftarrow> page_at b p; load_int ofs pg }"

definition slot_ofs :: "int \<Rightarrow> int \<Rightarrow> int" where
  "slot_ofs slot recordSize = 8 + slot * (recordSize + 1)"

definition slots_of :: "int \<Rightarrow> int option" where
  "slots_of recSz = (if to_size_t recSz = 0 then None else Some (REC_SZ div to_size_t recSz))"

subsection \<open>Manager and schemas\<close>

definition initRecordManager :: "storage \<Rightarrow> RC \<times> storage" where
  "initRecordManager st = (RC_OK, initStorageManager st)"

definition shutdownRecordManager :: RC where
  "shutdownRecordManager = RC_OK"

definition getRecordSize :: "Schema \<Rightarrow> int option" where
  "getRecordSize schema =
     for_each [0..<nat (numAttr schema)]
       (\<lambda>i recSz. do { l \<leftarrow> nth_opt (typeLength schema) (int i); Some (recSz + l) }) 0"

definition createSchema ::
  "int \<Rightarrow> byte list list \<Rightarrow> DataType list \<Rightarrow> int list \<Rightarrow> int \<Rightarrow> int list \<Rightarrow> Schema option" where
  "createSchema nAttr names types lens kSize keys =
     for_each [0..<nat nAttr]
       (\<lambda>i sch.
          do {
            name \<leftarrow> nth_opt names (int i);
            let sch = sch\<lparr>attrNames := (attrNames sch)[i := strncpy 64 name]\<rparr>;
            t \<leftarrow> nth_opt types (int i);
            let sch = sch\<lparr>dataTypes := (dataTypes sch)[i := t]\<rparr>;
            sch \<leftarrow> (if int i < kSize then
                      do { k \<leftarrow> nth_opt keys (int i); Some (sch\<lparr>keyAttrs := (keyAttrs sch)[i := k]\<rparr>) }
                    else Some sch);
            l \<leftarrow> (case t of DT_STRING \<Rightarrow> nth_opt lens (int i) | _ \<Rightarrow> sizeof_DataType t);
            Some (sch\<lparr>typeLength := (typeLength sch)[i := l]\<rparr>)
          })
       (raw_schema nAttr kSize)"

definition freeSchema :: "Schema \<Rightarrow> RC" where
  "freeSchema schema = RC_OK"

subsection \<open>Tables\<close>

definition table_page :: "Schema \<Rightarrow> page option" where
  "table_page schema =
     do {
       pg \<leftarrow> store_int 0 0 (replicate PAGE_SIZE 0);
       pg \<leftarrow> store_int 4 0 pg;
       pg \<leftarrow> store_int 8 (numAttr schema) pg;
       pg \<leftarrow> store_int 12 (keySize schema) pg;
       (pg, ofst) \<leftarrow>
         for_each [0..<nat (numAttr schema)]
           (\<lambda>i (pg, ofst).
              do {
                name \<leftarrow> nth_opt (attrNames schema) (int i);
                pg \<leftarrow> store_bytes ofst (strncpy 64 name) pg;
                t \<leftarrow> nth_opt (dataTypes schema) (int i);
                pg \<leftarrow> store_int (ofst + 64) (int_of_DataType t) pg;
                l \<leftarrow> nth_opt (typeLength schema) (int i);
                pg \<leftarrow> store_int (ofst + 68) l pg;
                pg \<leftarrow> (if int i < keySize schema then
                         do { k \<leftarrow> nth_opt (keyAttrs schema) (int i); store_int (ofst + 72) k pg }
                       else Some pg);
                Some (pg, ofst + 76)
              })
           (pg, 16);
       Some pg
     }"

definition createTable :: "string \<Rightarrow> Schema \<Rightarrow> storage \<Rightarrow> (RC \<times> storage) option" where
  "createTable name schema st =
     (if 4 * 4 + 76 * numAttr schema > int PAGE_SIZE then Some (RC_RM_LARGE_SCHEMA, st)
      else
        do {
          sz \<leftarrow> getRecordSize schema;
          if to_size_t (sz + 1) > REC_SZ then Some (RC_RM_LARGE_RECORD, st)
          else
            do {
              pg \<leftarrow> table_page schema;
              (case createPageFile (Some name) st of
                 (rc, st) \<Rightarrow>
                   (case openPageFile (Some name) (Some raw_fHandle) st of
                      (rc, fh) \<Rightarrow>
                        (case writeBlock 0 fh (Some pg) st of
                           (rc, fh, st) \<Rightarrow>
                             (case closePageFile fh of (rc, fh) \<Rightarrow> Some (RC_OK, st)))))
            }
        })"

definition parse_table_page :: "page \<Rightarrow> (int \<times> int \<times> Schema) option" where
  "parse_table_page pg =
     do {
       cnt \<leftarrow> load_int 0 pg;
       free \<leftarrow> load_int 4 pg;
       numAttrs \<leftarrow> load_int 8 pg;
       kSize \<leftarrow> load_int 12 pg;
       (schema, ofst) \<leftarrow>
         for_each [0..<nat numAttrs]
           (\<lambda>i (schema, ofst).
              do {
                let schema = schema\<lparr>attrNames := (attrNames schema)[i := strncpy 64 (drop (nat ofst) pg)]\<rparr>;
                c \<leftarrow> load_int (ofst + 64) pg;
                t \<leftarrow> DataType_of_int c;
                let schema = schema\<lparr>dataTypes := (dataTypes schema)[i := t]\<rparr>;
                l \<leftarrow> load_int (ofst + 68) pg;
                let schema = schema\<lparr>typeLength := (typeLength schema)[i := l]\<rparr>;
                schema \<leftarrow> (if int i < kSize then
                             do { k \<leftarrow> load_int (ofst + 72) pg;
                                  Some (schema\<lparr>keyAttrs := (keyAttrs schema)[i := k]\<rparr>) }
                           else Some schema);
                Some (schema, ofst + 76)
              })
           (raw_schema numAttrs kSize, 16);
       Some (cnt, free, schema)
     }"

definition openTable ::
  "RM_TableData \<Rightarrow> string \<Rightarrow> storage \<Rightarrow> (RC \<times> RM_TableData \<times> storage) option" where
  "openTable rel name st =
     do {
       let td = \<lparr>recCnt = 0, initFreePg = 0, bm = raw_bm, h = raw_handle\<rparr>;
       let rel = rel\<lparr>rel_mgmtData := Some td, rel_name := Some name\<rparr>;
       (rc, b) \<leftarrow> initBufferPool (Some (bm td)) (rel_name rel) 1000 RS_FIFO st;
       let td = td\<lparr>bm := pointee (bm td) b\<rparr>;
       (b, ph) \<leftarrow> pin_page (bm td) (h td) 0 st;
       let td = td\<lparr>bm := b, h := ph\<rparr>;
       pg \<leftarrow> page_at (bm td) (data (h td));
       (cnt, free, schema) \<leftarrow> parse_table_page pg;
       let td = td\<lparr>recCnt := cnt, initFreePg := free\<rparr>;
       (b, st) \<leftarrow> unpin_page (bm td) (h td) st;
       Some (RC_OK, rel\<lparr>rel_schema := Some schema, rel_mgmtData := Some (td\<lparr>bm := b\<rparr>)\<rparr>, st)
     }"

definition closeTable ::
  "RM_TableData \<Rightarrow> storage \<Rightarrow> (RC \<times> RM_TableData \<times> storage) option" where
  "closeTable rel st =
     do {
       td \<leftarrow> rel_mgmtData rel;
       (b, ph) \<leftarrow> pin_page (bm td) (h td) 0 st;
       let td = td\<lparr>bm := b, h := ph\<rparr>;
       b \<leftarrow> mark_page (bm td) (h td);
       b \<leftarrow> poke (data (h td)) (store_int 0 (recCnt td)) b;
       (b, st) \<leftarrow> unpin_page b (h td) st;
       (rc, b', st) \<leftarrow> shutdownBufferPool (Some b) st;
       schema \<leftarrow> rel_schema rel;
       Some (RC_OK, rel\<lparr>rel_schema := None, rel_mgmtData := None\<rparr>, st)
     }"

definition deleteTable :: "string \<Rightarrow> storage \<Rightarrow> RC \<times> storage" where
  "deleteTable name st = (case destroyPageFile (Some name) st of (rc, st) \<Rightarrow> (RC_OK, st))"

definition getNumTuples :: "RM_TableData \<Rightarrow> int option" where
  "getNumTuples rel = map_option recCnt (rel_mgmtData rel)"

subsection \<open>Records\<close>

fun findFreeSlot_loop :: "nat \<Rightarrow> int \<Rightarrow> int \<Rightarrow> int \<Rightarrow> page \<Rightarrow> int option" where
  "findFreeSlot_loop 0 i slotNo recSz pg = Some (- 1)"
| "findFreeSlot_loop (Suc k) i slotNo recSz pg =
     do {
       t \<leftarrow> load_char slotNo pg;
       if \<not> t > 0 then Some i else findFreeSlot_loop k (i + 1) (slotNo + recSz) recSz pg
     }"

definition findFreeSlot :: "page \<Rightarrow> Schema \<Rightarrow> int option" where
  "findFreeSlot pg schema =
     do {
       sz \<leftarrow> getRecordSize schema;
       let recSz = sz + 1;
       n \<leftarrow> slots_of recSz;
       findFreeSlot_loop (nat n) 0 8 recSz pg
     }"

definition recordSize_of :: "RM_TableData \<Rightarrow> int option" where
  "recordSize_of rel = do { schema \<leftarrow> rel_schema rel; getRecordSize schema }"

definition free_slot_at :: "RM_TableData \<Rightarrow> BM_BufferPool \<Rightarrow> nat option \<Rightarrow> int option" where
  "free_slot_at rel b p =
     do { pg \<leftarrow> page_at b p; schema \<leftarrow> rel_schema rel; findFreeSlot pg schema }"

definition append_page ::
  "RM_MgmtData_Table \<Rightarrow> RID \<Rightarrow> storage
     \<Rightarrow> (RC \<times> RM_MgmtData_Table \<times> RID \<times> nat option \<times> storage) option" where
  "append_page td r st =
     (case appendEmptyBlock (Some (fHandle (mgmtData (bm td)))) st of
        (rc, fh, st) \<Rightarrow>
          do {
            let md = mgmtData (bm td);
            let td = td\<lparr>bm := (bm td)\<lparr>mgmtData := md\<lparr>fHandle := pointee (fHandle md) fh\<rparr>\<rparr>\<rparr>;
            if rc \<noteq> RC_OK then Some (RC_RM_INSERT_FAILED, td, r, None, st)
            else
              do {
                let r = r\<lparr>rid_page := totalNumPages (fHandle (mgmtData (bm td))) - 1\<rparr>;
                (b, ph) \<leftarrow> pin_page (bm td) (h td) (rid_page r) st;
                let td = td\<lparr>bm := b, h := ph\<rparr>;
                Some (RC_OK, td, r\<lparr>rid_slot := 0\<rparr>, data (h td), st)
              }
          })"

definition insert_place ::
  "RM_TableData \<Rightarrow> RM_MgmtData_Table \<Rightarrow> RID \<Rightarrow> storage
     \<Rightarrow> (RC \<times> RM_MgmtData_Table \<times> RID \<times> nat option \<times> storage) option" where
  "insert_place rel td r st =
     (if initFreePg td = 0 then append_page td r st
      else
        do {
          let r = r\<lparr>rid_page := initFreePg td\<rparr>;
          (b, ph) \<leftarrow> pin_page (bm td) (h td) (rid_page r) st;
          let td = td\<lparr>bm := b, h := ph\<rparr>;
          let dp = data (h td);
          slot \<leftarrow> free_slot_at rel (bm td) dp;
          let r = r\<lparr>rid_slot := slot\<rparr>;
          if rid_slot r = - 1 then
            do {
              (b, st) \<leftarrow> unpin_page (bm td) (h td) st;
              append_page (td\<lparr>bm := b\<rparr>) r st
            }
          else Some (RC_OK, td, r, dp, st)
        })"

definition link_head ::
  "RM_MgmtData_Table \<Rightarrow> int \<Rightarrow> nat option \<Rightarrow> storage \<Rightarrow> (RM_MgmtData_Table \<times> storage) option" where
  "link_head td pg dp st =
     (if initFreePg td = 0 then
        do {
          b \<leftarrow> poke dp (store_int 4 pg) (bm td);
          b \<leftarrow> poke dp (store_int 0 pg) b;
          Some (td\<lparr>bm := b, initFreePg := pg\<rparr>, st)
        }
      else
        do {
          (b, ph) \<leftarrow> pin_page (bm td) raw_handle (initFreePg td) st;
          b \<leftarrow> mark_page b ph;
          b \<leftarrow> poke (data ph) (store_int 4 pg) b;
          (b, st) \<leftarrow> unpin_page b ph st;
          b \<leftarrow> poke dp (store_int 0 (initFreePg td)) b;
          let td = td\<lparr>initFreePg := pg\<rparr>;
          b \<leftarrow> poke dp (store_int 4 0) b;
          Some (td\<lparr>bm := b\<rparr>, st)
        })"

definition clear_links :: "nat option \<Rightarrow> BM_BufferPool \<Rightarrow> BM_BufferPool option" where
  "clear_links dp b =
     do { b \<leftarrow> poke dp (store_int 4 0) b; poke dp (store_int 0 0) b }"

definition unlink_full ::
  "RM_MgmtData_Table \<Rightarrow> int \<Rightarrow> nat option \<Rightarrow> storage \<Rightarrow> (RM_MgmtData_Table \<times> storage) option" where
  "unlink_full td pg dp st =
     do {
       nx \<leftarrow> peek_int dp 0 (bm td);
       if pg = initFreePg td then
         (if nx = 0 then
            do {
              b \<leftarrow> poke dp (store_int 4 0) (bm td);
              Some (td\<lparr>bm := b, initFreePg := 0\<rparr>, st)
            }
          else
            do {
              (b, ph) \<leftarrow> pin_page (bm td) raw_handle nx st;
              b \<leftarrow> mark_page b ph;
              b \<leftarrow> poke (data ph) (store_int 4 0) b;
              (b, st) \<leftarrow> unpin_page b ph st;
              nx \<leftarrow> peek_int dp 0 b;
              b \<leftarrow> clear_links dp b;
              Some (td\<lparr>bm := b, initFreePg := nx\<rparr>, st)
            })
       else if nx = 0 then
         do {
           pv \<leftarrow> peek_int dp 4 (bm td);
           (b, ph) \<leftarrow> pin_page (bm td) raw_handle pv st;
           b \<leftarrow> mark_page b ph;
           b \<leftarrow> poke (data ph) (store_int 0 0) b;
           (b, st) \<leftarrow> unpin_page b ph st;
           b \<leftarrow> clear_links dp b;
           Some (td\<lparr>bm := b\<rparr>, st)
         }
       else
         do {
           pv \<leftarrow> peek_int dp 4 (bm td);
           if nx \<noteq> 0 \<and> pv \<noteq> 0 then
         do {
           (b, ph) \<leftarrow> pin_page (bm td) raw_handle pv st;
           (b, ph2) \<leftarrow> pin_page b raw_handle nx st;
           b \<leftarrow> mark_page b ph;
           b \<leftarrow> mark_page b ph2;
           nx \<leftarrow> peek_int dp 0 b;
           b \<leftarrow> poke (data ph) (store_int 0 nx) b;
           pv \<leftarrow> peek_int dp 4 b;
           b \<leftarrow> poke (data ph2) (store_int 4 pv) b;
           (b, st) \<leftarrow> unpin_page b ph st;
           (b, st) \<leftarrow> unpin_page b ph2 st;
           b \<leftarrow> clear_links dp b;
           Some (td\<lparr>bm := b\<rparr>, st)
         }
           else Some (td, st)
         }
     }"

definition write_record :: "int \<Rightarrow> int \<Rightarrow> byte list \<Rightarrow> page \<Rightarrow> page option" where
  "write_record slot recordSize src pg =
     do {
       bs \<leftarrow> load_bytes 0 recordSize src;
       store_bytes (slot_ofs slot recordSize + 1) bs pg
     }"

definition insertRecord ::
  "RM_TableData \<Rightarrow> Record \<Rightarrow> storage \<Rightarrow> (RC \<times> RM_TableData \<times> Record \<times> storage) option" where
  "insertRecord rel record st =
     do {
       td \<leftarrow> rel_mgmtData rel;
       (rc, td, r, dp, st) \<leftarrow> insert_place rel td (rec_id record) st;
       let record = record\<lparr>rec_id := r\<rparr>;
       if rc \<noteq> RC_OK then Some (rc, rel\<lparr>rel_mgmtData := Some td\<rparr>, record, st)
       else
         do {
           b \<leftarrow> mark_page (bm td) (h td);
           sz \<leftarrow> recordSize_of rel;
           b \<leftarrow> poke dp (write_record (rid_slot r) sz (rec_data record)) b;
           b \<leftarrow> poke dp (store_char (slot_ofs (rid_slot r) sz) 1) b;
           let td = td\<lparr>bm := b\<rparr>;
           free \<leftarrow> free_slot_at rel (bm td) dp;
           (td, st) \<leftarrow> (if free \<noteq> - 1 then link_head td (rid_page r) dp st
                       else unlink_full td (rid_page r) dp st);
           (b, st) \<leftarrow> unpin_page (bm td) (h td) st;
           let td = td\<lparr>bm := b, recCnt := recCnt td + 1\<rparr>;
           Some (RC_OK, rel\<lparr>rel_mgmtData := Some td\<rparr>, record, st)
         }
     }"

definition deleteRecord ::
  "RM_TableData \<Rightarrow> RID \<Rightarrow> storage \<Rightarrow> (RC \<times> RM_TableData \<times> storage) option" where
  "deleteRecord rel r st =
     (if rid_page r = - 1 \<or> rid_slot r = - 1 then Some (RC_RM_DELETE_FAILED, rel, st)
      else
         do {
           td \<leftarrow> rel_mgmtData rel;
           (b, ph) \<leftarrow> pin_page (bm td) (h td) (rid_page r) st;
           let td = td\<lparr>bm := b, h := ph\<rparr>;
           let dp = data (h td);
           sz \<leftarrow> recordSize_of rel;
           b \<leftarrow> mark_page (bm td) (h td);
           b \<leftarrow> poke dp (store_char (slot_ofs (rid_slot r) sz) (- 1)) b;
           (td, st) \<leftarrow> link_head (td\<lparr>bm := b\<rparr>) (rid_page r) dp st;
           (b, st) \<leftarrow> unpin_page (bm td) (h td) st;
           let td = td\<lparr>bm := b, recCnt := recCnt td - 1\<rparr>;
           Some (RC_OK, rel\<lparr>rel_mgmtData := Some td\<rparr>, st)
         })"

definition updateRecord ::
  "RM_TableData \<Rightarrow> Record \<Rightarrow> storage \<Rightarrow> (RC \<times> RM_TableData \<times> storage) option" where
  "updateRecord rel record st =
     (let r = rec_id record in
      if rid_page r = - 1 \<or> rid_slot r = - 1 then Some (RC_RM_UPDATE_FAILED, rel, st)
      else
         do {
           td \<leftarrow> rel_mgmtData rel;
           (b, ph) \<leftarrow> pin_page (bm td) (h td) (rid_page r) st;
           let td = td\<lparr>bm := b, h := ph\<rparr>;
           let dp = data (h td);
           sz \<leftarrow> recordSize_of rel;
           b \<leftarrow> mark_page (bm td) (h td);
           b \<leftarrow> poke dp (write_record (rid_slot r) sz (rec_data record)) b;
           (b, st) \<leftarrow> unpin_page b (h td) st;
           Some (RC_OK, rel\<lparr>rel_mgmtData := Some (td\<lparr>bm := b\<rparr>)\<rparr>, st)
         })"

definition read_record :: "int \<Rightarrow> int \<Rightarrow> page \<Rightarrow> byte list \<Rightarrow> byte list option" where
  "read_record slot recordSize pg dst =
     do {
       bs \<leftarrow> load_bytes (slot_ofs slot recordSize + 1) recordSize pg;
       store_bytes 0 bs dst
     }"

definition getRecord ::
  "RM_TableData \<Rightarrow> RID \<Rightarrow> Record \<Rightarrow> storage
     \<Rightarrow> (RC \<times> RM_TableData \<times> Record \<times> storage) option" where
  "getRecord rel r record st =
     (if rid_page r = - 1 \<or> rid_slot r = - 1 then Some (RC_RM_UPDATE_FAILED, rel, record, st)
      else
         do {
           td \<leftarrow> rel_mgmtData rel;
           (b, ph) \<leftarrow> pin_page (bm td) (h td) (rid_page r) st;
           let td = td\<lparr>bm := b, h := ph\<rparr>;
           let dp = data (h td);
           sz \<leftarrow> recordSize_of rel;
           pg \<leftarrow> page_at (bm td) dp;
           bs \<leftarrow> read_record (rid_slot r) sz pg (rec_data record);
           let record = record\<lparr>rec_data := bs\<rparr>;
           (b, st) \<leftarrow> unpin_page (bm td) (h td) st;
           Some (RC_OK, rel\<lparr>rel_mgmtData := Some (td\<lparr>bm := b\<rparr>)\<rparr>, record\<lparr>rec_id := r\<rparr>, st)
         })"

subsection \<open>Scans\<close>

definition startScan :: "RM_ScanHandle \<Rightarrow> Expr option \<Rightarrow> RC \<times> RM_ScanHandle" where
  "startScan scan c =
     (RC_OK,
      scan\<lparr>scan_mgmtData :=
        Some \<lparr>rid = \<lparr>rid_page = - 1, rid_slot = - 1\<rparr>, recScanCnt = 0, cond = c,
              dataPtr = None, scan_h = raw_handle\<rparr>\<rparr>)"

definition evalExpr :: "Record \<Rightarrow> Schema \<Rightarrow> Expr \<Rightarrow> bool" where
  "evalExpr record schema c = c record schema"

definition scan_advance ::
  "RM_TableData \<Rightarrow> RM_MgmtData_Table \<Rightarrow> RM_MgmtData_Scan \<Rightarrow> storage
     \<Rightarrow> (RM_MgmtData_Table \<times> RM_MgmtData_Scan) option" where
  "scan_advance rel td sd st =
     (if recScanCnt sd = 0 then
        do {
          let sd = sd\<lparr>rid := \<lparr>rid_page = 1, rid_slot = 0\<rparr>\<rparr>;
          (b, ph) \<leftarrow> pin_page (bm td) (scan_h sd) (rid_page (rid sd)) st;
          Some (td\<lparr>bm := b\<rparr>, sd\<lparr>scan_h := ph, dataPtr := data ph\<rparr>)
        }
      else
        do {
          sz \<leftarrow> recordSize_of rel;
          totSlots \<leftarrow> slots_of (sz + 1);
          let sd = sd\<lparr>rid := (rid sd)\<lparr>rid_slot := rid_slot (rid sd) + 1\<rparr>\<rparr>;
          if rid_slot (rid sd) = totSlots then
            do {
              let sd = sd\<lparr>rid := \<lparr>rid_page = rid_page (rid sd) + 1, rid_slot = 0\<rparr>\<rparr>;
              (b, ph) \<leftarrow> pin_page (bm td) (scan_h sd) (rid_page (rid sd)) st;
              Some (td\<lparr>bm := b\<rparr>, sd\<lparr>scan_h := ph, dataPtr := data ph\<rparr>)
            }
          else Some (td, sd)
        })"

partial_function (option) next_loop ::
  "RM_TableData \<Rightarrow> RM_MgmtData_Table \<Rightarrow> RM_MgmtData_Scan \<Rightarrow> Record \<Rightarrow> storage
     \<Rightarrow> (RC \<times> RM_MgmtData_Table \<times> RM_MgmtData_Scan \<times> Record \<times> storage) option" where
  "next_loop rel td sd record st =
     (if recScanCnt sd \<noteq> 0 \<and> recScanCnt sd = recCnt td then
        do {
          (b, st) \<leftarrow> unpin_page (bm td) (scan_h sd) st;
          Some (RC_RM_NO_MORE_TUPLES, td\<lparr>bm := b\<rparr>,
                sd\<lparr>rid := \<lparr>rid_page = - 1, rid_slot = - 1\<rparr>, recScanCnt := 0, dataPtr := None\<rparr>,
                record, st)
        }
      else
        do {
          (td, sd) \<leftarrow> scan_advance rel td sd st;
          sz \<leftarrow> recordSize_of rel;
          pg \<leftarrow> page_at (bm td) (dataPtr sd);
          bs \<leftarrow> read_record (rid_slot (rid sd)) sz pg (rec_data record);
          let record = \<lparr>rec_id = rid sd, rec_data = bs\<rparr>;
          let sd = sd\<lparr>recScanCnt := recScanCnt sd + 1\<rparr>;
          schema \<leftarrow> rel_schema rel;
          let result = (case cond sd of None \<Rightarrow> True | Some c \<Rightarrow> evalExpr record schema c);
          if \<not> result \<and> cond sd \<noteq> None then next_loop rel td sd record st
          else Some (RC_OK, td, sd, record, st)
        })"

declare next_loop.simps [code]

definition next_scan ::
  "RM_TableData \<Rightarrow> RM_ScanHandle \<Rightarrow> Record \<Rightarrow> storage
     \<Rightarrow> (RC \<times> RM_TableData \<times> RM_ScanHandle \<times> Record \<times> storage) option" where
  "next_scan rel scan record st =
     do {
       td \<leftarrow> rel_mgmtData rel;
       if recCnt td = 0 then Some (RC_RM_NO_MORE_TUPLES, rel, scan, record, st)
       else
         do {
           sd \<leftarrow> scan_mgmtData scan;
           (rc, td, sd, record, st) \<leftarrow> next_loop rel td sd record st;
           Some (rc, rel\<lparr>rel_mgmtData := Some td\<rparr>, scan\<lparr>scan_mgmtData := Some sd\<rparr>, record, st)
         }
     }"

definition closeScan ::
  "RM_TableData \<Rightarrow> RM_ScanHandle \<Rightarrow> storage \<Rightarrow> (RC \<times> RM_TableData \<times> RM_ScanHandle \<times> storage) option" where
  "closeScan rel scan st =
     do {
       sd \<leftarrow> scan_mgmtData scan;
       (rel, st) \<leftarrow>
         (if recScanCnt sd > 0 then
            do {
              td \<leftarrow> rel_mgmtData rel;
              (b, st) \<leftarrow> unpin_page (bm td) (scan_h sd) st;
              Some (rel\<lparr>rel_mgmtData := Some (td\<lparr>bm := b\<rparr>)\<rparr>, st)
            }
          else Some (rel, st));
       Some (RC_OK, rel, scan\<lparr>scan_mgmtData := None\<rparr>, st)
     }"

subsection \<open>Records in memory and their attributes\<close>

definition createRecord :: "Schema \<Rightarrow> (RC \<times> Record) option" where
  "createRecord schema =
     do {
       sz \<leftarrow> getRecordSize schema;
       Some (RC_OK, \<lparr>rec_id = \<lparr>rid_page = 0, rid_slot = 0\<rparr>, rec_data = replicate (nat sz) 0\<rparr>)
     }"

definition freeRecord :: "Record \<Rightarrow> RC" where
  "freeRecord record = RC_OK"

fun getAttr_loop ::
  "nat \<Rightarrow> int \<Rightarrow> int \<Rightarrow> Record \<Rightarrow> Schema \<Rightarrow> int \<Rightarrow> DataType \<Rightarrow> Value \<Rightarrow> Value option" where
  "getAttr_loop 0 i recOfst record schema attrNum dataType value1 = Some value1"
| "getAttr_loop (Suc k) i recOfst record schema attrNum dataType value1 =
     do {
       l \<leftarrow> nth_opt (typeLength schema) i;
       if i = attrNum then
         do {
           bs \<leftarrow> load_bytes recOfst l (rec_data record);
           Some (case dataType of
                   DT_STRING \<Rightarrow> \<lparr>dt = dataType, v = bs @ [0]\<rparr>
                 | _ \<Rightarrow> \<lparr>dt = dataType, v = bs\<rparr>)
         }
       else getAttr_loop k (i + 1) (recOfst + l) record schema attrNum dataType value1
     }"

definition getAttr :: "Record \<Rightarrow> Schema \<Rightarrow> int \<Rightarrow> (RC \<times> Value) option" where
  "getAttr record schema attrNum =
     do {
       dataType \<leftarrow> nth_opt (dataTypes schema) attrNum;
       value1 \<leftarrow> getAttr_loop (nat (numAttr schema)) 0 0 record schema attrNum dataType
                  \<lparr>dt = DT_INT, v = []\<rparr>;
       Some (RC_OK, value1)
     }"

definition setAttr :: "Record \<Rightarrow> Schema \<Rightarrow> int \<Rightarrow> Value \<Rightarrow> (RC \<times> Record) option" where
  "setAttr record schema attrNum val =
     do {
       dataType \<leftarrow> nth_opt (dataTypes schema) attrNum;
       (buf, recOfst) \<leftarrow>
         for_each [0..<nat (numAttr schema)]
           (\<lambda>i (buf, recOfst).
              do {
                l \<leftarrow> nth_opt (typeLength schema) (int i);
                buf \<leftarrow> (if int i = attrNum then
                          do { bs \<leftarrow> load_bytes 0 l (v val); store_bytes recOfst bs buf }
                        else Some buf);
                Some (buf, recOfst + l)
              })
           (rec_data record, 0);
       Some (RC_OK, record\<lparr>rec_data := buf\<rparr>)
     }"

end
