(* ===== verification/Record_Page.thy ===== *)
theory Record_Page
  imports Record_Mgr
begin

text \<open>
  What \<^verbatim>\<open>record_mgr.c\<close> computes on a schema, a record buffer and the bytes
  of one page, without the pool: the record size, the slots of a data page
  and the search for a free one, attribute access, and page 0 of a table
  written by \<^verbatim>\<open>createTable\<close> and read by \<^verbatim>\<open>openTable\<close>. Each loop is shown
  equal to a function on lists.
\<close>

definition schema_ok :: "Schema \<Rightarrow> bool" where
  "schema_ok s \<longleftrightarrow>
     0 \<le> numAttr s \<and> length (attrNames s) = nat (numAttr s) \<and>
     length (dataTypes s) = nat (numAttr s) \<and> length (typeLength s) = nat (numAttr s) \<and>
     list_all (\<lambda>l. 0 \<le> l \<and> int32 l) (typeLength s)"

definition record_ok :: "Schema \<Rightarrow> bool" where
  "record_ok s \<longleftrightarrow> schema_ok s \<and> sum_list (typeLength s) + 1 \<le> REC_SZ"

definition slot_count :: "Schema \<Rightarrow> nat" where
  "slot_count s = nat (REC_SZ div (sum_list (typeLength s) + 1))"

definition rec_size :: "Schema \<Rightarrow> int" where
  "rec_size s = sum_list (typeLength s)"

definition attr_ofs :: "Schema \<Rightarrow> nat \<Rightarrow> int" where
  "attr_ofs s a = sum_list (take a (typeLength s))"

definition attr_value :: "Schema \<Rightarrow> nat \<Rightarrow> byte list \<Rightarrow> Value" where
  "attr_value s a bs =
     (case dataTypes s ! a of
        DT_STRING \<Rightarrow> \<lparr>dt = DT_STRING, v = bs @ [0]\<rparr>
      | t \<Rightarrow> \<lparr>dt = t, v = bs\<rparr>)"

definition tombstone :: "page \<Rightarrow> int \<Rightarrow> nat \<Rightarrow> int" where
  "tombstone pg recSz i = sint (pg ! nat (8 + int i * recSz))"

definition first_free :: "page \<Rightarrow> int \<Rightarrow> nat list \<Rightarrow> int" where
  "first_free pg recSz is =
     (case find (\<lambda>i. tombstone pg recSz i \<le> 0) is of Some i \<Rightarrow> int i | None \<Rightarrow> - 1)"

definition slot_view :: "Schema \<Rightarrow> page \<Rightarrow> nat \<Rightarrow> int \<times> byte list" where
  "slot_view s pg i =
     (tombstone pg (rec_size s + 1) i,
      take (nat (rec_size s)) (drop (nat (slot_ofs (int i) (rec_size s) + 1)) pg))"

definition rows :: "Schema \<Rightarrow> page \<Rightarrow> (int \<times> byte list) list" where
  "rows s pg = map (slot_view s pg) [0..<slot_count s]"

definition free_in :: "(int \<times> byte list) list \<Rightarrow> int" where
  "free_in rs =
     (case find (\<lambda>i. fst (rs ! i) \<le> 0) [0..<length rs] of Some i \<Rightarrow> int i | None \<Rightarrow> - 1)"

definition page_links :: "page \<Rightarrow> int \<times> int" where
  "page_links pg = (decode_int32 (take 4 pg), decode_int32 (take 4 (drop 4 pg)))"

subsection \<open>Record size\<close>

lemma upt_Suc_snoc: "[0..<Suc n] = [0..<n] @ [n]"
  by simp

lemma sum_loop:
  fixes xs :: "int list"
  shows "n \<le> length xs \<Longrightarrow>
     for_each [0..<n] (\<lambda>i acc. do { l \<leftarrow> nth_opt xs (int i); Some (acc + l) }) a =
       Some (a + sum_list (take n xs))"
proof (induction n)
  case 0
  then show ?case by simp
next
  case (Suc n)
  then show ?case
    by (simp add: take_Suc_conv_app_nth del: upt_Suc) (simp add: upt_Suc_snoc)
qed

lemma getRecordSize_sum:
  "nat (numAttr s) \<le> length (typeLength s) \<Longrightarrow>
     getRecordSize s = Some (sum_list (take (nat (numAttr s)) (typeLength s)))"
  by (simp add: getRecordSize_def sum_loop)

lemma getRecordSize_ok:
  assumes "schema_ok s"
  shows "getRecordSize s = Some (sum_list (typeLength s))" "0 \<le> sum_list (typeLength s)"
proof -
  from assms show "getRecordSize s = Some (sum_list (typeLength s))"
    by (simp add: getRecordSize_sum schema_ok_def)
  from assms have "\<forall>l \<in> set (typeLength s). 0 \<le> l"
    by (simp add: schema_ok_def list_all_iff)
  then show "0 \<le> sum_list (typeLength s)"
    by (simp add: sum_list_nonneg)
qed

subsection \<open>Slots\<close>

lemma REC_SZ_eq: "REC_SZ = 4087"
  by (simp add: REC_SZ_def PAGE_SIZE_def)

lemma to_size_t_id [simp]: "0 \<le> x \<Longrightarrow> x < 2 ^ 64 \<Longrightarrow> to_size_t x = x"
  by (simp add: to_size_t_def)

lemma slots_of_pos:
  assumes "0 < recSz" and "recSz < 2 ^ 64"
  shows "slots_of recSz = Some (4087 div recSz)" "0 \<le> 4087 div recSz"
    "8 + (4087 div recSz) * recSz \<le> 4095"
proof -
  from assms show "slots_of recSz = Some (4087 div recSz)"
    by (simp add: slots_of_def REC_SZ_eq)
  from assms show "0 \<le> 4087 div recSz"
    by (simp add: pos_imp_zdiv_nonneg_iff)
  have "(4087 div recSz) * recSz + 4087 mod recSz = 4087" "0 \<le> 4087 mod recSz"
    using assms(1) by simp_all
  then have "(4087 div recSz) * recSz \<le> 4087"
    by linarith
  then show "8 + (4087 div recSz) * recSz \<le> 4095"
    by simp
qed

lemma load_char_nth:
  "0 \<le> ofs \<Longrightarrow> nat ofs < length pg \<Longrightarrow> load_char ofs pg = Some (sint (pg ! nat ofs))"
  by (simp add: load_char_def load_bytes_def take_Suc_conv_app_nth hd_drop_conv_nth)

lemma first_free_Cons:
  "first_free pg recSz (i # is) = (if tombstone pg recSz i \<le> 0 then int i else first_free pg recSz is)"
  by (simp add: first_free_def)

lemma findFreeSlot_loop_eq:
  assumes "0 < recSz"
  shows "8 + int (i + k) * recSz \<le> int (length pg) \<Longrightarrow>
     findFreeSlot_loop k (int i) (8 + int i * recSz) recSz pg =
       Some (first_free pg recSz [i..<i + k])"
proof (induction k arbitrary: i)
  case 0
  then show ?case by (simp add: first_free_def)
next
  case (Suc k)
  from assms have "int i * recSz < int (i + Suc k) * recSz" "0 \<le> int i * recSz"
    by (simp_all add: mult_strict_right_mono)
  with Suc.prems have lt: "nat (8 + int i * recSz) < length pg" "0 \<le> 8 + int i * recSz"
    by linarith+
  have step: "8 + int i * recSz + recSz = 8 + int (Suc i) * recSz" "int i + 1 = int (Suc i)"
    by (simp_all add: algebra_simps)
  have u: "[i..<i + Suc k] = i # [Suc i..<Suc i + k]"
    by (simp add: upt_rec)
  from Suc.prems have "8 + int (Suc i + k) * recSz \<le> int (length pg)"
    by simp
  from Suc.IH [OF this] have ih:
    "findFreeSlot_loop k (int i + 1) (8 + int i * recSz + recSz) recSz pg =
       Some (first_free pg recSz [Suc i..<Suc i + k])"
    by (simp only: step)
  show ?case
    unfolding u findFreeSlot_loop.simps load_char_nth [OF lt(2,1)] first_free_Cons ih tombstone_def
    by (simp add: not_less)
qed

lemma record_ok_size:
  assumes "record_ok s"
  shows "getRecordSize s = Some (sum_list (typeLength s))"
    "0 < sum_list (typeLength s) + 1" "sum_list (typeLength s) + 1 \<le> 4087"
    "slots_of (sum_list (typeLength s) + 1) = Some (int (slot_count s))"
    "8 + int (slot_count s) * (sum_list (typeLength s) + 1) \<le> 4095"
proof -
  let ?r = "sum_list (typeLength s) + 1"
  from assms have ok: "schema_ok s" and le: "?r \<le> 4087"
    by (simp_all add: record_ok_def REC_SZ_eq)
  from getRecordSize_ok [OF ok] show "getRecordSize s = Some (sum_list (typeLength s))"
    and pos: "0 < ?r"
    by simp_all
  from le show "?r \<le> 4087" .
  from le have "?r < 2 ^ 64"
    by simp
  from slots_of_pos [OF pos this] show "slots_of ?r = Some (int (slot_count s))"
    "8 + int (slot_count s) * ?r \<le> 4095"
    by (simp_all add: slot_count_def REC_SZ_eq)
qed

lemma findFreeSlot_eq:
  assumes "record_ok s" and "length pg = PAGE_SIZE"
  shows "findFreeSlot pg s =
           Some (first_free pg (sum_list (typeLength s) + 1) [0..<slot_count s])"
  using record_ok_size [OF assms(1)] assms(2)
    findFreeSlot_loop_eq [of "sum_list (typeLength s) + 1" 0 "slot_count s" pg]
  by (simp add: findFreeSlot_def PAGE_SIZE_def)

lemma first_free_range:
  "first_free pg recSz [0..<n] = - 1 \<or>
   (0 \<le> first_free pg recSz [0..<n] \<and> first_free pg recSz [0..<n] < int n \<and>
    tombstone pg recSz (nat (first_free pg recSz [0..<n])) \<le> 0)"
  by (auto simp: first_free_def split: option.splits dest: find_Some_set)

lemma first_free_none:
  "first_free pg recSz is = - 1 \<longleftrightarrow> (\<forall>i \<in> set is. 0 < tombstone pg recSz i)"
  using find_Some_set [of "\<lambda>i. tombstone pg recSz i \<le> 0" "is"]
  by (fastforce simp: first_free_def find_None_iff not_le split: option.splits)

subsection \<open>The slots of a data page\<close>

lemma slot_bounds:
  assumes "record_ok s" and "i < slot_count s"
  shows "8 \<le> slot_ofs (int i) (rec_size s)"
    "slot_ofs (int i) (rec_size s) + (rec_size s + 1) \<le> 4095" "0 \<le> rec_size s"
proof -
  let ?r = "rec_size s + 1"
  from record_ok_size [OF assms(1)] have r: "0 < ?r" "8 + int (slot_count s) * ?r \<le> 4095"
    by (simp_all add: rec_size_def)
  then show "0 \<le> rec_size s"
    by simp
  from r(1) have "0 \<le> int i * ?r"
    by simp
  then show "8 \<le> slot_ofs (int i) (rec_size s)"
    by (simp add: slot_ofs_def)
  from assms(2) r(1) have "int (Suc i) * ?r \<le> int (slot_count s) * ?r"
    by (intro mult_right_mono) simp_all
  with r(2) show "slot_ofs (int i) (rec_size s) + ?r \<le> 4095"
    by (simp add: slot_ofs_def algebra_simps)
qed

lemma slot_apart:
  assumes "0 \<le> sz" and "i < j"
  shows "slot_ofs (int i) sz + (sz + 1) \<le> slot_ofs (int j) sz"
proof -
  from assms have "int (Suc i) * (sz + 1) \<le> int j * (sz + 1)"
    by (intro mult_right_mono) simp_all
  then show ?thesis
    by (simp add: slot_ofs_def algebra_simps)
qed

lemma slot_view_cong:
  assumes "length pg' = length pg"
    and "\<And>k. nat (slot_ofs (int j) (rec_size s)) \<le> k \<Longrightarrow>
           k < nat (slot_ofs (int j) (rec_size s)) + nat (rec_size s + 1) \<Longrightarrow> k < length pg \<Longrightarrow>
           pg' ! k = pg ! k"
    and "0 \<le> rec_size s" and "nat (slot_ofs (int j) (rec_size s)) + nat (rec_size s + 1) \<le> length pg"
  shows "slot_view s pg' j = slot_view s pg j"
proof -
  let ?o = "slot_ofs (int j) (rec_size s)"
  from assms(3) have o: "0 \<le> ?o" "nat (?o + 1) = Suc (nat ?o)" "?o = 8 + int j * (rec_size s + 1)"
    by (simp_all add: slot_ofs_def nat_add_distrib)
  from assms(2,3,4) have "pg' ! nat ?o = pg ! nat ?o"
    by simp
  moreover have "take (nat (rec_size s)) (drop (nat (?o + 1)) pg') =
      take (nat (rec_size s)) (drop (nat (?o + 1)) pg)"
    using assms by (intro nth_equalityI) (simp_all add: o(2) nat_add_distrib)
  ultimately show ?thesis
    by (simp add: slot_view_def tombstone_def o(3))
qed

lemma slot_view_store_other:
  assumes "store_bytes ofs bs pg = Some pg'" and "record_ok s" and "j < slot_count s"
    and "length pg = PAGE_SIZE"
    and "ofs + int (length bs) \<le> slot_ofs (int j) (rec_size s) \<or>
         slot_ofs (int j) (rec_size s) + (rec_size s + 1) \<le> ofs"
  shows "slot_view s pg' j = slot_view s pg j"
proof (rule slot_view_cong)
  note b = slot_bounds [OF assms(2,3)]
  from assms(1) show "length pg' = length pg"
    by (simp add: store_bytes_Some)
  from b show "0 \<le> rec_size s"
    by simp
  from b assms(4) show "nat (slot_ofs (int j) (rec_size s)) + nat (rec_size s + 1) \<le> length pg"
    by (simp add: PAGE_SIZE_def)
  fix k assume k: "nat (slot_ofs (int j) (rec_size s)) \<le> k"
    "k < nat (slot_ofs (int j) (rec_size s)) + nat (rec_size s + 1)" "k < length pg"
  from assms(1) have "0 \<le> ofs"
    by (simp add: store_bytes_Some)
  with assms(5) k b have "\<not> (nat ofs \<le> k \<and> k < nat ofs + length bs)"
    by linarith
  with store_bytes_nth [OF assms(1) k(3)] show "pg' ! k = pg ! k"
    by simp
qed

lemma rows_store_links:
  assumes "store_int ofs x pg = Some pg'" and "ofs = 0 \<or> ofs = 4" and "record_ok s"
    and "length pg = PAGE_SIZE"
  shows "rows s pg' = rows s pg"
proof -
  have "slot_view s pg' j = slot_view s pg j" if "j < slot_count s" for j
  proof -
    from slot_bounds(1) [OF assms(3) that] assms(2)
    have "ofs + int (length (encode_int32 x)) \<le> slot_ofs (int j) (rec_size s) \<or>
         slot_ofs (int j) (rec_size s) + (rec_size s + 1) \<le> ofs"
      by auto
    with assms(1) show ?thesis
      unfolding store_int_def by (rule slot_view_store_other [OF _ assms(3) that assms(4)])
  qed
  then show ?thesis
    by (simp add: rows_def)
qed

lemma slot_in_page:
  assumes "record_ok s" and "i < slot_count s" and "length pg = PAGE_SIZE"
  shows "0 \<le> slot_ofs (int i) (rec_size s)"
    "nat (slot_ofs (int i) (rec_size s)) + nat (rec_size s) < length pg"
    "nat (slot_ofs (int i) (rec_size s) + 1) = Suc (nat (slot_ofs (int i) (rec_size s)))"
  using slot_bounds [OF assms(1,2)] assms(3) by (simp_all add: PAGE_SIZE_def)

lemma slot_view_record:
  assumes "store_bytes (slot_ofs (int i) (rec_size s) + 1) bs pg = Some pg'"
    and "int (length bs) = rec_size s" and "record_ok s" and "i < slot_count s"
    and "length pg = PAGE_SIZE"
  shows "slot_view s pg' i = (fst (slot_view s pg i), bs)"
proof -
  let ?o = "slot_ofs (int i) (rec_size s)"
  note p = slot_in_page [OF assms(3,4,5)]
  from assms(2) have l: "nat (rec_size s) = length bs"
    by simp
  from assms(1) have len: "length pg' = length pg"
    by (simp add: store_bytes_Some)
  from p have "nat ?o < length pg"
    by simp
  from store_bytes_nth [OF assms(1) this] p have t: "pg' ! nat ?o = pg ! nat ?o"
    by simp
  have "take (length bs) (drop (Suc (nat ?o)) pg') = bs"
  proof (rule nth_equalityI)
    from p len l show "length (take (length bs) (drop (Suc (nat ?o)) pg')) = length bs"
      by simp
    fix k assume "k < length (take (length bs) (drop (Suc (nat ?o)) pg'))"
    then have k: "k < length bs" "Suc (nat ?o) + k < length pg"
      using p len l by simp_all
    from store_bytes_nth [OF assms(1) k(2)] k p len
    show "take (length bs) (drop (Suc (nat ?o)) pg') ! k = bs ! k"
      by simp
  qed
  with t p show ?thesis
    by (simp add: slot_view_def tombstone_def l slot_ofs_def)
qed

lemma slot_view_tombstone:
  assumes "store_char (slot_ofs (int i) (rec_size s)) t pg = Some pg'"
    and "- 128 \<le> t" and "t < 128" and "record_ok s" and "i < slot_count s"
    and "length pg = PAGE_SIZE"
  shows "slot_view s pg' i = (t, snd (slot_view s pg i))"
proof -
  let ?o = "slot_ofs (int i) (rec_size s)"
  note p = slot_in_page [OF assms(4,5,6)]
  note st = assms(1) [unfolded store_char_def]
  from st have len: "length pg' = length pg"
    by (simp add: store_bytes_Some)
  from p have "nat ?o < length pg"
    by simp
  from store_bytes_nth [OF st this] assms(2,3) have t: "sint (pg' ! nat ?o) = t"
    by (simp add: sint_sbintrunc' signed_take_bit_int_eq_self)
  have "take (nat (rec_size s)) (drop (Suc (nat ?o)) pg') =
      take (nat (rec_size s)) (drop (Suc (nat ?o)) pg)"
  proof (rule nth_equalityI)
    show "length (take (nat (rec_size s)) (drop (Suc (nat ?o)) pg')) =
        length (take (nat (rec_size s)) (drop (Suc (nat ?o)) pg))"
      by (simp add: len)
    fix k assume "k < length (take (nat (rec_size s)) (drop (Suc (nat ?o)) pg'))"
    then have k: "Suc (nat ?o) + k < length pg" "k < nat (rec_size s)"
      using p by (simp_all add: len)
    from store_bytes_nth [OF st k(1)] k len
    show "take (nat (rec_size s)) (drop (Suc (nat ?o)) pg') ! k =
        take (nat (rec_size s)) (drop (Suc (nat ?o)) pg) ! k"
      by simp
  qed
  with t p show ?thesis
    by (simp add: slot_view_def tombstone_def slot_ofs_def)
qed

lemma rows_update:
  assumes "\<And>j. j < slot_count s \<Longrightarrow> j \<noteq> i \<Longrightarrow> slot_view s pg' j = slot_view s pg j"
    and "slot_view s pg' i = x" and "i < slot_count s"
  shows "rows s pg' = (rows s pg)[i := x]"
  using assms by (intro nth_equalityI) (auto simp: rows_def nth_list_update)

lemma slot_disjoint:
  assumes "0 \<le> sz" and "i \<noteq> j"
  shows "slot_ofs (int i) sz + (sz + 1) \<le> slot_ofs (int j) sz \<or>
         slot_ofs (int j) sz + (sz + 1) \<le> slot_ofs (int i) sz"
  using slot_apart [OF assms(1), of i j] slot_apart [OF assms(1), of j i] assms(2)
  by (cases "i < j") auto

lemma rows_write_record:
  assumes "write_record (int i) (rec_size s) src pg = Some pg'"
    and "record_ok s" and "i < slot_count s" and "length pg = PAGE_SIZE"
  shows "rows s pg' = (rows s pg)[i := (fst (rows s pg ! i), take (nat (rec_size s)) src)]"
    and "length pg' = PAGE_SIZE" and "int (length src) \<ge> rec_size s"
proof -
  let ?o = "slot_ofs (int i) (rec_size s)"
  note b = slot_bounds [OF assms(2,3)]
  from assms(1) obtain bs where ld: "load_bytes 0 (rec_size s) src = Some bs"
    and st: "store_bytes (?o + 1) bs pg = Some pg'"
    by (auto simp: write_record_def bind_eq_Some_conv)
  from ld have bs: "bs = take (nat (rec_size s)) src" "nat (rec_size s) \<le> length src"
    by (auto simp: load_bytes_def split: if_splits)
  with b show "int (length src) \<ge> rec_size s"
    by simp
  from bs b have l: "int (length bs) = rec_size s"
    by simp
  from st assms(4) show "length pg' = PAGE_SIZE"
    by (simp add: store_bytes_Some)
  show "rows s pg' = (rows s pg)[i := (fst (rows s pg ! i), take (nat (rec_size s)) src)]"
  proof (rule rows_update [OF _ _ assms(3)])
    from slot_view_record [OF st l assms(2,3,4)] assms(3)
    show "slot_view s pg' i = (fst (rows s pg ! i), take (nat (rec_size s)) src)"
      by (simp add: rows_def bs)
    fix j assume j: "j < slot_count s" "j \<noteq> i"
    from slot_disjoint [OF b(3), of i j] j(2) l
    have "?o + 1 + int (length bs) \<le> slot_ofs (int j) (rec_size s) \<or>
        slot_ofs (int j) (rec_size s) + (rec_size s + 1) \<le> ?o + 1"
      by auto
    with st show "slot_view s pg' j = slot_view s pg j"
      by (rule slot_view_store_other [OF _ assms(2) j(1) assms(4)])
  qed
qed

lemma rows_store_tombstone:
  assumes "store_char (slot_ofs (int i) (rec_size s)) t pg = Some pg'"
    and "- 128 \<le> t" and "t < 128" and "record_ok s" and "i < slot_count s"
    and "length pg = PAGE_SIZE"
  shows "rows s pg' = (rows s pg)[i := (t, snd (rows s pg ! i))]" and "length pg' = PAGE_SIZE"
proof -
  note b = slot_bounds [OF assms(4,5)]
  from assms(1,6) show "length pg' = PAGE_SIZE"
    by (simp add: store_char_def store_bytes_Some)
  show "rows s pg' = (rows s pg)[i := (t, snd (rows s pg ! i))]"
  proof (rule rows_update [OF _ _ assms(5)])
    from slot_view_tombstone [OF assms] assms(5)
    show "slot_view s pg' i = (t, snd (rows s pg ! i))"
      by (simp add: rows_def)
    fix j assume j: "j < slot_count s" "j \<noteq> i"
    from slot_disjoint [OF b(3), of i j] j(2)
    have "slot_ofs (int i) (rec_size s) + int (length [word_of_int t :: byte])
          \<le> slot_ofs (int j) (rec_size s) \<or>
        slot_ofs (int j) (rec_size s) + (rec_size s + 1) \<le> slot_ofs (int i) (rec_size s)"
      using b(3) by auto
    with assms(1) show "slot_view s pg' j = slot_view s pg j"
      unfolding store_char_def by (rule slot_view_store_other [OF _ assms(4) j(1) assms(6)])
  qed
qed

lemma read_record_rows:
  assumes "record_ok s" and "i < slot_count s" and "length pg = PAGE_SIZE"
    and "int (length dst) = rec_size s"
  shows "read_record (int i) (rec_size s) pg dst = Some (snd (rows s pg ! i))"
proof -
  note p = slot_in_page [OF assms(1,2,3)] and b = slot_bounds [OF assms(1,2)]
  from p b assms(4) show ?thesis
    by (simp add: read_record_def load_bytes_def store_bytes_def rows_def slot_view_def assms(2)
        nat_add_distrib)
qed

subsection \<open>The free slot and the links of a page\<close>

lemma length_rows [simp]: "length (rows s pg) = slot_count s"
  by (simp add: rows_def)

lemma findFreeSlot_rows:
  assumes "record_ok s" and "length pg = PAGE_SIZE"
  shows "findFreeSlot pg s = Some (free_in (rows s pg))"
proof -
  have "find (\<lambda>i. tombstone pg (rec_size s + 1) i \<le> 0) [0..<slot_count s] =
      find (\<lambda>i. fst (rows s pg ! i) \<le> 0) [0..<slot_count s]"
    by (rule find_cong) (simp_all add: rows_def slot_view_def)
  then show ?thesis
    by (simp add: findFreeSlot_eq [OF assms] first_free_def free_in_def rec_size_def)
qed

lemma free_in_cases:
  "free_in rs = - 1 \<and> (\<forall>r \<in> set rs. 0 < fst r) \<or>
   (\<exists>i < length rs. free_in rs = int i \<and> fst (rs ! i) \<le> 0 \<and> (\<forall>j < i. 0 < fst (rs ! j)))"
proof (cases "find (\<lambda>i. fst (rs ! i) \<le> 0) [0..<length rs]")
  case None
  then have "\<forall>i < length rs. 0 < fst (rs ! i)"
    by (auto simp: find_None_iff not_le)
  then have "\<forall>r \<in> set rs. 0 < fst r"
    by (metis in_set_conv_nth)
  with None show ?thesis
    by (simp add: free_in_def)
next
  case (Some i)
  then have "i < length rs \<and> fst (rs ! i) \<le> 0 \<and> (\<forall>j < i. 0 < fst (rs ! j))"
    by (auto simp: find_Some_iff not_le)
  with Some show ?thesis
    by (auto simp: free_in_def)
qed

lemma load_int_links:
  assumes "8 \<le> length pg"
  shows "load_int 0 pg = Some (fst (page_links pg))" "load_int 4 pg = Some (snd (page_links pg))"
  using assms by (simp_all add: load_int_def load_bytes_def page_links_def)

lemma page_links_store:
  assumes "store_int ofs x pg = Some pg'" and "int32 x"
  shows "ofs = 0 \<Longrightarrow> 8 \<le> length pg \<Longrightarrow> page_links pg' = (x, snd (page_links pg))"
    and "ofs = 4 \<Longrightarrow> page_links pg' = (fst (page_links pg), x)"
    and "8 \<le> ofs \<Longrightarrow> page_links pg' = page_links pg"
proof -
  from assms(1) have l: "length pg' = length pg" "0 \<le> ofs" "nat ofs + 4 \<le> length pg"
    using store_bytes_Some [of ofs "encode_int32 x" pg pg'] by (simp_all add: store_int_def)
  then have l8: "8 \<le> length pg'" if "4 \<le> ofs"
    using that by simp
  { fix o' :: int assume "o' = 0 \<or> o' = 4" "8 \<le> length pg" "o' \<noteq> ofs" "ofs = 0 \<or> ofs = 4 \<or> 8 \<le> ofs"
    with load_int_store_int_other [OF assms(1), of o'] have "load_int o' pg' = load_int o' pg"
      by auto }
  note other = this
  { assume "ofs = 0" "8 \<le> length pg"
    with load_int_store_int_same [OF assms] other [of 4] l(1)
    show "page_links pg' = (x, snd (page_links pg))"
      by (simp add: load_int_links prod_eq_iff) }
  { assume "ofs = 4"
    with load_int_store_int_same [OF assms] other [of 0] l
    show "page_links pg' = (fst (page_links pg), x)"
      by (simp add: load_int_links prod_eq_iff) }
  { assume "8 \<le> ofs"
    with other [of 0] other [of 4] l
    show "page_links pg' = page_links pg"
      by (simp add: load_int_links prod_eq_iff) }
qed

lemma page_links_store_bytes:
  assumes "store_bytes ofs bs pg = Some pg'" and "8 \<le> ofs"
  shows "page_links pg' = page_links pg"
proof -
  from store_bytes_Some [OF assms(1)] assms(2) have l: "length pg' = length pg" "8 \<le> length pg"
    by linarith+
  from assms(2) load_store_other [OF assms(1), of 0 4] load_store_other [OF assms(1), of 4 4] l
  show ?thesis
    by (simp add: load_bytes_def page_links_def)
qed

lemma page_links_write_record:
  assumes "write_record (int i) (rec_size s) src pg = Some pg'" and "record_ok s"
    and "i < slot_count s"
  shows "page_links pg' = page_links pg"
proof -
  from assms(1) obtain bs where
    "store_bytes (slot_ofs (int i) (rec_size s) + 1) bs pg = Some pg'"
    by (auto simp: write_record_def bind_eq_Some_conv)
  with slot_bounds(1) [OF assms(2,3)] show ?thesis
    by (intro page_links_store_bytes [of "slot_ofs (int i) (rec_size s) + 1" bs pg pg']) simp_all
qed

lemma page_links_tombstone:
  assumes "store_char (slot_ofs (int i) (rec_size s)) t pg = Some pg'" and "record_ok s"
    and "i < slot_count s"
  shows "page_links pg' = page_links pg"
  using assms(1) slot_bounds(1) [OF assms(2,3)]
  unfolding store_char_def by (rule page_links_store_bytes)

lemma store_in_page:
  assumes "record_ok s" and "i < slot_count s" and "length pg = PAGE_SIZE"
  shows "int (length src) \<ge> rec_size s \<Longrightarrow> \<exists>pg'. write_record (int i) (rec_size s) src pg = Some pg'"
    and "\<exists>pg'. store_char (slot_ofs (int i) (rec_size s)) t pg = Some pg'"
  using slot_in_page [OF assms] slot_bounds [OF assms(1,2)]
  by (simp_all add: write_record_def store_char_def load_bytes_def store_bytes_def)

lemma store_links_in_page:
  "length pg = PAGE_SIZE \<Longrightarrow> ofs = 0 \<or> ofs = 4 \<Longrightarrow> \<exists>pg'. store_int ofs x pg = Some pg'"
  by (auto simp: store_int_def store_bytes_def PAGE_SIZE_def)

subsection \<open>Attributes\<close>

lemma attr_ofs_Suc:
  "a < length (typeLength s) \<Longrightarrow> attr_ofs s (Suc a) = attr_ofs s a + typeLength s ! a"
  by (simp add: attr_ofs_def take_Suc_conv_app_nth)

lemma attr_ofs_0 [simp]: "attr_ofs s 0 = 0"
  by (simp add: attr_ofs_def)

lemma attr_ofs_mono:
  assumes "schema_ok s" and "a \<le> b"
  shows "attr_ofs s a \<le> attr_ofs s b"
proof -
  from assms(1) have nn: "\<forall>l \<in> set (typeLength s). 0 \<le> l"
    by (simp add: schema_ok_def list_all_iff)
  from assms(2) have "take b (typeLength s) = take a (typeLength s) @ take (b - a) (drop a (typeLength s))"
    by (metis le_add_diff_inverse take_add)
  moreover from nn have "0 \<le> sum_list (take (b - a) (drop a (typeLength s)))"
    by (intro sum_list_nonneg) (auto dest: in_set_takeD in_set_dropD)
  ultimately show ?thesis
    by (simp add: attr_ofs_def)
qed

lemma attr_region:
  assumes "schema_ok s" and "a < nat (numAttr s)"
  shows "0 \<le> attr_ofs s a" "0 \<le> typeLength s ! a"
    "attr_ofs s a + typeLength s ! a \<le> rec_size s"
    "a < b \<Longrightarrow> attr_ofs s a + typeLength s ! a \<le> attr_ofs s b"
proof -
  from assms have a: "a < length (typeLength s)"
    by (simp add: schema_ok_def)
  with assms(1) show "0 \<le> typeLength s ! a"
    by (simp add: schema_ok_def list_all_length)
  from attr_ofs_mono [OF assms(1), of 0 a] show "0 \<le> attr_ofs s a"
    by simp
  from attr_ofs_mono [OF assms(1), of "Suc a" "length (typeLength s)"] a
  show "attr_ofs s a + typeLength s ! a \<le> rec_size s"
    by (simp add: attr_ofs_Suc) (simp add: attr_ofs_def rec_size_def)
  assume "a < b"
  with attr_ofs_mono [OF assms(1), of "Suc a" b] a
  show "attr_ofs s a + typeLength s ! a \<le> attr_ofs s b"
    by (simp add: attr_ofs_Suc)
qed

lemma getAttr_loop_eq:
  assumes "length (typeLength s) = n" and "a < n"
  shows "i \<le> a \<Longrightarrow> i + k = n \<Longrightarrow>
     getAttr_loop k (int i) (attr_ofs s i) r s (int a) t v0 =
       map_option (\<lambda>bs. case t of DT_STRING \<Rightarrow> \<lparr>dt = t, v = bs @ [0]\<rparr> | _ \<Rightarrow> \<lparr>dt = t, v = bs\<rparr>)
         (load_bytes (attr_ofs s a) (typeLength s ! a) (rec_data r))"
proof (induction k arbitrary: i)
  case 0
  with assms show ?case by simp
next
  case (Suc k)
  with assms have i: "i < length (typeLength s)"
    by simp
  show ?case
  proof (cases "i = a")
    case True
    with i show ?thesis
      by (cases "load_bytes (attr_ofs s a) (typeLength s ! a) (rec_data r)") simp_all
  next
    case False
    with Suc.prems have "Suc i \<le> a" "Suc i + k = n"
      by simp_all
    from Suc.IH [OF this] False i show ?thesis
      by (simp add: attr_ofs_Suc add.commute [of 1])
  qed
qed

lemma getAttr_eq:
  assumes "schema_ok s" and "a < nat (numAttr s)"
  shows "getAttr r s (int a) =
           map_option (\<lambda>bs. (RC_OK, attr_value s a bs))
             (load_bytes (attr_ofs s a) (typeLength s ! a) (rec_data r))"
proof -
  from assms have l: "length (typeLength s) = nat (numAttr s)" "a < length (dataTypes s)"
    by (simp_all add: schema_ok_def)
  from getAttr_loop_eq [OF l(1) assms(2), of 0 "nat (numAttr s)" r "dataTypes s ! a"] l(2)
  show ?thesis
    by (cases "load_bytes (attr_ofs s a) (typeLength s ! a) (rec_data r)")
       (simp_all add: getAttr_def attr_value_def split: DataType.splits)
qed

lemma setAttr_loop:
  assumes "length (typeLength s) = n"
  shows "i \<le> n \<Longrightarrow>
     for_each [0..<i]
       (\<lambda>i (buf, recOfst).
          do {
            l \<leftarrow> nth_opt (typeLength s) (int i);
            buf \<leftarrow> (if int i = int a then
                      do { bs \<leftarrow> load_bytes 0 l (v val); store_bytes recOfst bs buf }
                    else Some buf);
            Some (buf, recOfst + l)
          })
       (buf0, 0) =
     (if a < i then
        do { bs \<leftarrow> load_bytes 0 (typeLength s ! a) (v val);
             buf \<leftarrow> store_bytes (attr_ofs s a) bs buf0;
             Some (buf, attr_ofs s i) }
      else Some (buf0, attr_ofs s i))"
proof (induction i)
  case 0
  then show ?case by simp
next
  case (Suc i)
  with assms have i: "i < length (typeLength s)" "i \<le> n"
    by simp_all
  show ?case
  proof (cases "a = i")
    case True
    with i(1) show ?thesis
      unfolding upt_Suc_snoc for_each_append Suc.IH [OF i(2)]
      by (simp add: attr_ofs_Suc split: bind_splits)
  next
    case False
    with i(1) show ?thesis
      unfolding upt_Suc_snoc for_each_append Suc.IH [OF i(2)]
      by (auto simp: attr_ofs_Suc split: bind_splits)
  qed
qed

lemma setAttr_eq:
  assumes "schema_ok s" and "a < nat (numAttr s)"
  shows "setAttr r s (int a) val =
           do { bs \<leftarrow> load_bytes 0 (typeLength s ! a) (v val);
                buf \<leftarrow> store_bytes (attr_ofs s a) bs (rec_data r);
                Some (RC_OK, r\<lparr>rec_data := buf\<rparr>) }"
proof -
  from assms have l: "length (typeLength s) = nat (numAttr s)" "a < length (dataTypes s)"
    by (simp_all add: schema_ok_def)
  from setAttr_loop [OF l(1) order_refl, of a val "rec_data r"] assms(2) l(2) show ?thesis
    by (simp add: setAttr_def)
qed

end
