(* ===== verification/Schema_Page.thy ===== *)
theory Schema_Page
  imports Record_Page
begin

text \<open>
  Page 0 of a table file: the record count, the head of the free list, the
  number of attributes, the key size, and one entry of 76 bytes per attribute.
  \<open>table_page\<close> writes it in \<^verbatim>\<open>createTable\<close> and \<open>parse_table_page\<close> reads it
  in \<^verbatim>\<open>openTable\<close>; both loops are shown equal to a list of entries, and the
  second to undo the first.
\<close>

definition fill :: "nat \<Rightarrow> (nat \<Rightarrow> 'a) \<Rightarrow> 'a \<Rightarrow> nat \<Rightarrow> 'a list" where
  "fill i g d n = map (\<lambda>j. if j < i then g j else d) [0..<n]"

definition schema_entry :: "Schema \<Rightarrow> nat \<Rightarrow> byte list" where
  "schema_entry s i =
     strncpy 64 (attrNames s ! i) @ encode_int32 (int_of_DataType (dataTypes s ! i)) @
     encode_int32 (typeLength s ! i) @
     encode_int32 (if int i < keySize s then keyAttrs s ! i else 0)"

definition schema_image :: "Schema \<Rightarrow> nat \<Rightarrow> page" where
  "schema_image s i =
     (encode_int32 0 @ encode_int32 0 @ encode_int32 (numAttr s) @ encode_int32 (keySize s)) @
     concat (map (schema_entry s) [0..<i]) @ replicate (PAGE_SIZE - 16 - 76 * i) 0"

definition stored_schema :: "Schema \<Rightarrow> Schema" where
  "stored_schema s =
     \<lparr>numAttr = numAttr s, attrNames = map (strncpy 64) (attrNames s),
      dataTypes = dataTypes s, typeLength = typeLength s,
      keyAttrs = fill (nat (numAttr s)) (\<lambda>j. keyAttrs s ! j) 0 (nat (keySize s)),
      keySize = keySize s\<rparr>"

definition schema_prefix :: "Schema \<Rightarrow> nat \<Rightarrow> Schema" where
  "schema_prefix s i =
     \<lparr>numAttr = numAttr s,
      attrNames = fill i (\<lambda>j. strncpy 64 (attrNames s ! j)) (replicate 64 0) (nat (numAttr s)),
      dataTypes = fill i (\<lambda>j. dataTypes s ! j) DT_INT (nat (numAttr s)),
      typeLength = fill i (\<lambda>j. typeLength s ! j) 0 (nat (numAttr s)),
      keyAttrs = fill i (\<lambda>j. keyAttrs s ! j) 0 (nat (keySize s)),
      keySize = keySize s\<rparr>"

definition table_ok :: "Schema \<Rightarrow> bool" where
  "table_ok s \<longleftrightarrow>
     record_ok s \<and> 16 + 76 * numAttr s \<le> int PAGE_SIZE \<and> int32 (keySize s) \<and>
     nat (keySize s) \<le> length (keyAttrs s) \<and> list_all int32 (keyAttrs s)"

definition table_image :: "page \<Rightarrow> Schema \<Rightarrow> bool" where
  "table_image pg s \<longleftrightarrow>
     length pg = PAGE_SIZE \<and> drop 8 pg = drop 8 (schema_image s (nat (numAttr s)))"

subsection \<open>Lists filled by a counting loop\<close>

lemma for_each_upt:
  assumes "\<And>i. i < n \<Longrightarrow> f i (g i) = Some (g (Suc i))"
  shows "for_each [0..<n] f (g 0) = Some (g n)"
  using assms by (induction n) (simp_all add: upt_Suc_snoc del: upt_Suc)

lemma length_fill [simp]: "length (fill i g d n) = n"
  by (simp add: fill_def)

lemma fill_0: "fill 0 g d n = replicate n d"
  by (simp add: fill_def map_replicate_const)

lemma fill_Suc:
  "fill (Suc i) g d n = (if i < n then (fill i g d n)[i := g i] else fill i g d n)"
  by (rule nth_equalityI) (auto simp: fill_def nth_list_update less_Suc_eq)

lemma fill_full: "length xs = n \<Longrightarrow> fill n (\<lambda>j. f (xs ! j)) d n = map f xs"
  by (rule nth_equalityI) (simp_all add: fill_def)

subsection \<open>Writing the page\<close>

lemma encode_int32_0: "encode_int32 0 = replicate 4 0"
  by (simp add: encode_int32_bytes eval_nat_numeral)

lemma length_schema_entry [simp]: "length (schema_entry s i) = 76"
  by (simp add: schema_entry_def)

lemma length_entries [simp]: "length (concat (map (schema_entry s) [0..<i])) = 76 * i"
  by (induction i) simp_all

lemma table_ok_bound:
  assumes "table_ok s" and "i \<le> nat (numAttr s)"
  shows "16 + 76 * i \<le> PAGE_SIZE"
  using assms by (simp add: table_ok_def PAGE_SIZE_def) linarith

lemma length_schema_image [simp]:
  "table_ok s \<Longrightarrow> i \<le> nat (numAttr s) \<Longrightarrow> length (schema_image s i) = PAGE_SIZE"
  using table_ok_bound [of s i] by (simp add: schema_image_def)

lemma store_at:
  "length p = nat ofs \<Longrightarrow> 0 \<le> ofs \<Longrightarrow> length bs \<le> length z \<Longrightarrow>
     store_bytes ofs bs (p @ z) = Some (p @ bs @ drop (length bs) z)"
  by (simp add: store_bytes_def)

lemma store_entry:
  assumes "length p = nat ofs" and "0 \<le> ofs" and "76 \<le> m" and "length name = 64"
  shows "store_bytes ofs name (p @ replicate m 0) = Some ((p @ name) @ replicate (m - 64) 0)"
    and "store_int (ofs + 64) a ((p @ name) @ replicate (m - 64) 0) =
           Some ((p @ name @ encode_int32 a) @ replicate (m - 68) 0)"
    and "store_int (ofs + 68) b ((p @ name @ encode_int32 a) @ replicate (m - 68) 0) =
           Some ((p @ name @ encode_int32 a @ encode_int32 b) @ replicate (m - 72) 0)"
    and "store_int (ofs + 72) k ((p @ name @ encode_int32 a @ encode_int32 b) @ replicate (m - 72) 0) =
           Some ((p @ name @ encode_int32 a @ encode_int32 b @ encode_int32 k) @ replicate (m - 76) 0)"
    and "replicate (m - 72) (0 :: byte) = encode_int32 0 @ replicate (m - 76) 0"
proof -
  from assms show "store_bytes ofs name (p @ replicate m 0) = Some ((p @ name) @ replicate (m - 64) 0)"
    by (simp add: store_at)
  from assms show "store_int (ofs + 64) a ((p @ name) @ replicate (m - 64) 0) =
      Some ((p @ name @ encode_int32 a) @ replicate (m - 68) 0)"
    unfolding store_int_def by (subst store_at) (simp_all add: nat_add_distrib)
  from assms show "store_int (ofs + 68) b ((p @ name @ encode_int32 a) @ replicate (m - 68) 0) =
      Some ((p @ name @ encode_int32 a @ encode_int32 b) @ replicate (m - 72) 0)"
    unfolding store_int_def by (subst store_at) (simp_all add: nat_add_distrib)
  from assms show "store_int (ofs + 72) k ((p @ name @ encode_int32 a @ encode_int32 b) @ replicate (m - 72) 0) =
      Some ((p @ name @ encode_int32 a @ encode_int32 b @ encode_int32 k) @ replicate (m - 76) 0)"
    unfolding store_int_def by (subst store_at) (simp_all add: nat_add_distrib)
  from assms(3) show "replicate (m - 72) (0 :: byte) = encode_int32 0 @ replicate (m - 76) 0"
    by (simp add: encode_int32_0 replicate_add [symmetric])
qed

lemma schema_image_split:
  "schema_image s i =
     ((encode_int32 0 @ encode_int32 0 @ encode_int32 (numAttr s) @ encode_int32 (keySize s)) @
      concat (map (schema_entry s) [0..<i])) @ replicate (PAGE_SIZE - 16 - 76 * i) 0"
  by (simp add: schema_image_def)

lemma schema_image_Suc:
  "schema_image s (Suc i) =
     ((encode_int32 0 @ encode_int32 0 @ encode_int32 (numAttr s) @ encode_int32 (keySize s)) @
      concat (map (schema_entry s) [0..<i])) @ schema_entry s i @
     replicate (PAGE_SIZE - 16 - 76 * i - 76) 0"
  by (simp add: schema_image_def)

lemma table_page_step:
  assumes "table_ok s" and "i < nat (numAttr s)"
  shows "do { name \<leftarrow> nth_opt (attrNames s) (int i);
              pg \<leftarrow> store_bytes (16 + 76 * int i) (strncpy 64 name) (schema_image s i);
              t \<leftarrow> nth_opt (dataTypes s) (int i);
              pg \<leftarrow> store_int (16 + 76 * int i + 64) (int_of_DataType t) pg;
              l \<leftarrow> nth_opt (typeLength s) (int i);
              pg \<leftarrow> store_int (16 + 76 * int i + 68) l pg;
              pg \<leftarrow> (if int i < keySize s then
                       do { k \<leftarrow> nth_opt (keyAttrs s) (int i); store_int (16 + 76 * int i + 72) k pg }
                     else Some pg);
              Some (pg, 16 + 76 * int i + 76) } =
         Some (schema_image s (Suc i), 16 + 76 * int (Suc i))"
proof -
  from assms have n: "nth_opt (attrNames s) (int i) = Some (attrNames s ! i)"
    "nth_opt (dataTypes s) (int i) = Some (dataTypes s ! i)"
    "nth_opt (typeLength s) (int i) = Some (typeLength s ! i)"
    "int i < keySize s \<Longrightarrow> nth_opt (keyAttrs s) (int i) = Some (keyAttrs s ! i)"
    by (auto simp: table_ok_def record_ok_def schema_ok_def)
  from table_ok_bound [OF assms(1), of "Suc i"] assms(2)
  have m: "76 \<le> PAGE_SIZE - 16 - 76 * i"
    by simp
  have "length ((encode_int32 0 @ encode_int32 0 @ encode_int32 (numAttr s) @ encode_int32 (keySize s)) @
        concat (map (schema_entry s) [0..<i])) = nat (16 + 76 * int i)"
    by (simp add: nat_add_distrib nat_mult_distrib)
  note e = store_entry [OF this _ m length_strncpy]
  show ?thesis
  proof (cases "int i < keySize s")
    case True
    show ?thesis
      by (simp only: n(1-3) n(4) [OF True] True bind.bind_lunit schema_image_split e(1-4) if_True)
         (simp add: schema_image_Suc schema_entry_def True)
  next
    case False
    then show ?thesis
      by (simp only: n(1-3) bind.bind_lunit schema_image_split e if_False)
         (simp add: schema_image_Suc schema_entry_def e(5))
  qed
qed

lemma bind4:
  fixes m :: "'a option"
  shows "do { a \<leftarrow> m; b \<leftarrow> f a; c \<leftarrow> g b; d \<leftarrow> q c; k d } =
         do { d \<leftarrow> do { a \<leftarrow> m; b \<leftarrow> f a; c \<leftarrow> g b; q c }; k d }"
  by simp

lemma table_page_eq:
  assumes "table_ok s"
  shows "table_page s = Some (schema_image s (nat (numAttr s)))"
proof -
  define f where "f = (\<lambda>i (pg, ofst).
      do {
        name \<leftarrow> nth_opt (attrNames s) (int i);
        pg \<leftarrow> store_bytes ofst (strncpy 64 name) pg;
        t \<leftarrow> nth_opt (dataTypes s) (int i);
        pg \<leftarrow> store_int (ofst + 64) (int_of_DataType t) pg;
        l \<leftarrow> nth_opt (typeLength s) (int i);
        pg \<leftarrow> store_int (ofst + 68) l pg;
        pg \<leftarrow> (if int i < keySize s then
                 do { k \<leftarrow> nth_opt (keyAttrs s) (int i); store_int (ofst + 72) k pg }
               else Some pg);
        Some (pg, ofst + 76)
      })"
  have hd: "do { pg \<leftarrow> store_int 0 0 (replicate PAGE_SIZE 0); pg \<leftarrow> store_int 4 0 pg;
                pg \<leftarrow> store_int 8 (numAttr s) pg; store_int 12 (keySize s) pg } =
           Some (schema_image s 0)"
    by (simp add: store_int_def store_bytes_def schema_image_def PAGE_SIZE_def)
  have "for_each [0..<nat (numAttr s)] f (schema_image s 0, 16 + 76 * int 0) =
      Some (schema_image s (nat (numAttr s)), 16 + 76 * int (nat (numAttr s)))"
    using assms unfolding f_def
    by (intro for_each_upt [where g = "\<lambda>i. (schema_image s i, 16 + 76 * int i)"])
       (simp only: prod.case table_page_step)
  then have l: "for_each [0..<nat (numAttr s)] f (schema_image s 0, 16) =
      Some (schema_image s (nat (numAttr s)), 16 + 76 * int (nat (numAttr s)))"
    by simp
  show ?thesis
    unfolding table_page_def f_def [symmetric]
    by (subst bind4) (simp only: hd l bind.bind_lunit prod.case)
qed

subsection \<open>Reading the page\<close>

lemma strncpy_prefix: "length xs = n \<Longrightarrow> strncpy n (xs @ ys) = strncpy n xs"
proof (cases "\<forall>b \<in> set xs. b \<noteq> 0")
  case True
  assume "length xs = n"
  with True show ?thesis
    by (simp add: strncpy_def Let_def takeWhile_eq_all_conv [THEN iffD2])
next
  case False
  then obtain b where "b \<in> set xs" "\<not> b \<noteq> 0"
    by blast
  then have "takeWhile (\<lambda>b. b \<noteq> 0) (xs @ ys) = takeWhile (\<lambda>b. b \<noteq> 0) xs"
    by (rule takeWhile_append1)
  then show ?thesis
    by (simp add: strncpy_def)
qed

lemma load_at:
  assumes "drop (nat ofs) pg = e @ r" and "0 \<le> ofs" and "nat d + 4 \<le> length e" and "0 \<le> d"
  shows "load_int (ofs + d) pg = Some (decode_int32 (take 4 (drop (nat d) e)))"
proof -
  from assms(1) have "length pg - nat ofs = length e + length r"
    by (metis length_append length_drop)
  with assms(3) have "nat ofs + nat d + 4 \<le> length pg"
    by linarith
  moreover have "drop (nat (ofs + d)) pg = drop (nat d) (e @ r)"
    using assms by (simp add: nat_add_distrib add.commute [of "nat ofs"] drop_drop [symmetric])
  ultimately show ?thesis
    using assms by (simp add: load_int_def load_bytes_def nat_add_distrib)
qed

lemma entry_at:
  assumes "i < n"
  shows "drop (16 + 76 * i) (schema_image s n) =
           schema_entry s i @ concat (map (schema_entry s) [Suc i..<n]) @
           replicate (PAGE_SIZE - 16 - 76 * n) 0"
proof -
  from assms have "[0..<n] = [0..<i] @ i # [Suc i..<n]"
    by (metis le_add_diff_inverse less_imp_le upt_add_eq_append upt_conv_Cons zero_le)
  then show ?thesis
    by (simp add: schema_image_def)
qed

lemma table_image_drop:
  assumes "table_image pg s" and "8 \<le> k"
  shows "drop k pg = drop k (schema_image s (nat (numAttr s)))"
proof -
  from assms(2) have "drop k pg = drop (k - 8) (drop 8 pg)"
    by simp
  also from assms(1) have "\<dots> = drop (k - 8) (drop 8 (schema_image s (nat (numAttr s))))"
    by (simp only: table_image_def)
  finally show ?thesis
    using assms(2) by simp
qed

lemma table_image_entry:
  assumes "table_image pg s" and "i < nat (numAttr s)"
  shows "drop (nat (16 + 76 * int i)) pg =
           schema_entry s i @ concat (map (schema_entry s) [Suc i..<nat (numAttr s)]) @
           replicate (PAGE_SIZE - 16 - 76 * nat (numAttr s)) 0"
  using table_image_drop [OF assms(1), of "16 + 76 * i"] entry_at [OF assms(2), of s]
  by (simp add: nat_add_distrib nat_mult_distrib)

lemma int32_DataType [simp]: "int32 (int_of_DataType t)"
  by (cases t) (simp_all add: int_of_DataType_def int32_def)

lemma DataType_of_int_inverse [simp]: "DataType_of_int (int_of_DataType t) = Some t"
  by (cases t) (simp_all add: int_of_DataType_def DataType_of_int_def)

lemma table_image_fields:
  assumes "table_ok s" and "table_image pg s" and "i < nat (numAttr s)"
  shows "strncpy 64 (drop (nat (16 + 76 * int i)) pg) = strncpy 64 (attrNames s ! i)"
    and "load_int (16 + 76 * int i + 64) pg = Some (int_of_DataType (dataTypes s ! i))"
    and "load_int (16 + 76 * int i + 68) pg = Some (typeLength s ! i)"
    and "int i < keySize s \<Longrightarrow> load_int (16 + 76 * int i + 72) pg = Some (keyAttrs s ! i)"
proof -
  note e = table_image_entry [OF assms(2,3)]
  from assms(1,3) have t: "int32 (typeLength s ! i)"
    by (simp add: table_ok_def record_ok_def schema_ok_def list_all_length)
  show "strncpy 64 (drop (nat (16 + 76 * int i)) pg) = strncpy 64 (attrNames s ! i)"
    unfolding e schema_entry_def by (simp add: strncpy_prefix)
  show "load_int (16 + 76 * int i + 64) pg = Some (int_of_DataType (dataTypes s ! i))"
    by (subst load_at [OF e]) (simp_all add: schema_entry_def)
  from t show "load_int (16 + 76 * int i + 68) pg = Some (typeLength s ! i)"
    by (subst load_at [OF e]) (simp_all add: schema_entry_def)
  assume k: "int i < keySize s"
  with assms(1) have "i < length (keyAttrs s)"
    by (simp add: table_ok_def) linarith
  with assms(1) have "int32 (keyAttrs s ! i)"
    by (simp add: table_ok_def list_all_length)
  with k show "load_int (16 + 76 * int i + 72) pg = Some (keyAttrs s ! i)"
    by (subst load_at [OF e]) (simp_all add: schema_entry_def)
qed

lemma table_image_header:
  assumes "table_ok s" and "table_image pg s"
  shows "load_int 0 pg = Some (fst (page_links pg))" "load_int 4 pg = Some (snd (page_links pg))"
    "load_int 8 pg = Some (numAttr s)" "load_int 12 pg = Some (keySize s)"
proof -
  from assms(2) have l: "length pg = PAGE_SIZE"
    by (simp add: table_image_def)
  then show "load_int 0 pg = Some (fst (page_links pg))" "load_int 4 pg = Some (snd (page_links pg))"
    by (simp_all add: load_int_def load_bytes_def page_links_def PAGE_SIZE_def)
  from assms(1) have n: "int32 (numAttr s)" "int32 (keySize s)"
    by (simp_all add: table_ok_def record_ok_def schema_ok_def int32_def PAGE_SIZE_def)
  have "take 4 (drop 8 (schema_image s (nat (numAttr s)))) = encode_int32 (numAttr s)"
    "take 4 (drop 12 (schema_image s (nat (numAttr s)))) = encode_int32 (keySize s)"
    by (simp_all add: schema_image_def)
  with table_image_drop [OF assms(2), of 8] table_image_drop [OF assms(2), of 12] l n
  show "load_int 8 pg = Some (numAttr s)" "load_int 12 pg = Some (keySize s)"
    by (simp_all add: load_int_def load_bytes_def PAGE_SIZE_def)
qed

lemma schema_prefix_0: "schema_prefix s 0 = raw_schema (numAttr s) (keySize s)"
  by (simp add: schema_prefix_def raw_schema_def fill_0)

lemma schema_prefix_full:
  "schema_ok s \<Longrightarrow> schema_prefix s (nat (numAttr s)) = stored_schema s"
  by (simp add: schema_prefix_def stored_schema_def schema_ok_def fill_full
      fill_full [where f = "\<lambda>x. x", simplified])

lemma schema_prefix_Suc:
  assumes "i < nat (numAttr s)"
  shows "schema_prefix s (Suc i) =
    (schema_prefix s i)
      \<lparr>attrNames := (attrNames (schema_prefix s i))[i := strncpy 64 (attrNames s ! i)],
       dataTypes := (dataTypes (schema_prefix s i))[i := dataTypes s ! i],
       typeLength := (typeLength (schema_prefix s i))[i := typeLength s ! i],
       keyAttrs := (if int i < keySize s then (keyAttrs (schema_prefix s i))[i := keyAttrs s ! i]
                    else keyAttrs (schema_prefix s i))\<rparr>"
proof -
  have "i < nat (keySize s) \<longleftrightarrow> int i < keySize s"
    by linarith
  with assms show ?thesis
    by (simp add: schema_prefix_def fill_Suc)
qed

lemma parse_table_page_eq:
  assumes "table_ok s" and "table_image pg s"
  shows "parse_table_page pg = Some (fst (page_links pg), snd (page_links pg), stored_schema s)"
proof -
  define f :: "nat \<Rightarrow> Schema \<times> int \<Rightarrow> (Schema \<times> int) option" where "f = (\<lambda>i (schema, ofst).
      do {
        let schema = schema\<lparr>attrNames := (attrNames schema)[i := strncpy 64 (drop (nat ofst) pg)]\<rparr>;
        c \<leftarrow> load_int (ofst + 64) pg;
        t \<leftarrow> DataType_of_int c;
        let schema = schema\<lparr>dataTypes := (dataTypes schema)[i := t]\<rparr>;
        l \<leftarrow> load_int (ofst + 68) pg;
        let schema = schema\<lparr>typeLength := (typeLength schema)[i := l]\<rparr>;
        schema \<leftarrow> (if int i < keySize s then
                     do { k \<leftarrow> load_int (ofst + 72) pg;
                          Some (schema\<lparr>keyAttrs := (keyAttrs schema)[i := k]\<rparr>) }
                   else Some schema);
        Some (schema, ofst + 76)
      })"
  have "f i (schema_prefix s i, 16 + 76 * int i) = Some (schema_prefix s (Suc i), 16 + 76 * int (Suc i))"
    if "i < nat (numAttr s)" for i
  proof (cases "int i < keySize s")
    case True
    show ?thesis
      unfolding f_def
      by (simp only: prod.case Let_def table_image_fields [OF assms that] True if_True
          bind.bind_lunit DataType_of_int_inverse schema_prefix_Suc [OF that]) simp
  next
    case False
    show ?thesis
      unfolding f_def
      by (simp only: prod.case Let_def table_image_fields(1-3) [OF assms that] False if_False
          bind.bind_lunit DataType_of_int_inverse schema_prefix_Suc [OF that]) simp
  qed
  then have "for_each [0..<nat (numAttr s)] f (schema_prefix s 0, 16 + 76 * int 0) =
      Some (schema_prefix s (nat (numAttr s)), 16 + 76 * int (nat (numAttr s)))"
    by (intro for_each_upt [where g = "\<lambda>i. (schema_prefix s i, 16 + 76 * int i)"])
  with assms(1) have l: "for_each [0..<nat (numAttr s)] f (raw_schema (numAttr s) (keySize s), 16) =
      Some (stored_schema s, 16 + 76 * int (nat (numAttr s)))"
    by (simp add: schema_prefix_0 schema_prefix_full table_ok_def record_ok_def)
  show ?thesis
    unfolding parse_table_page_def
    by (simp only: table_image_header [OF assms] bind.bind_lunit f_def [symmetric] l prod.case)
qed

subsection \<open>The page as a table header\<close>

lemma table_image_schema_image:
  "table_ok s \<Longrightarrow> table_image (schema_image s (nat (numAttr s))) s"
  by (simp add: table_image_def)

lemma page_links_schema_image: "page_links (schema_image s n) = (0, 0)"
  by (simp add: page_links_def schema_image_def)

lemma table_image_store:
  assumes "table_image pg s" and "store_int ofs x pg = Some pg'" and "ofs = 0 \<or> ofs = 4"
  shows "table_image pg' s"
proof -
  from assms(2) have "pg' = take (nat ofs) pg @ encode_int32 x @ drop (nat ofs + 4) pg"
    "length pg' = length pg"
    by (auto simp: store_int_def store_bytes_def split: if_splits)
  with assms(1,3) show ?thesis
    by (auto simp: table_image_def)
qed

lemma table_page_parse:
  assumes "table_ok s"
  shows "do { pg \<leftarrow> table_page s; parse_table_page pg } = Some (0, 0, stored_schema s)"
  using parse_table_page_eq [OF assms table_image_schema_image [OF assms]]
  by (simp add: table_page_eq [OF assms] page_links_schema_image)

end
