(* ===== verification/Page_Cache.thy ===== *)
theory Page_Cache
  imports DB_Prelude
begin

text \<open>
  What a client of the buffer pool relies on, without the frame list: a cache
  is a table of slots (the page a frame holds, its fix count, its dirty
  flag), one buffer per slot, and the pages of the file. \<open>view\<close> is the
  content of the file as the client sees it, a page read from its slot when
  it has one and from the file otherwise; \<open>pins\<close> is the fix count of a page.
  The functions \<open>c_hit\<close>, \<open>c_load\<close>, \<open>c_mark\<close>, \<open>c_poke\<close>, \<open>c_release\<close> and
  \<open>c_append\<close> are the effects of the calls of a client, and the lemmas show
  that they keep \<open>cache_inv\<close> and what they do to \<open>view\<close> and \<open>pins\<close>.
\<close>

type_synonym slot = "int \<times> int \<times> bool"

record cache =
  c_slots :: "slot list"
  c_bufs :: "page list"
  c_disk :: "page list"

definition slot_for :: "cache \<Rightarrow> int \<Rightarrow> nat option" where
  "slot_for c pn = find (\<lambda>a. fst (c_slots c ! a) = pn) [0..<length (c_slots c)]"

definition view :: "cache \<Rightarrow> page list" where
  "view c =
     map (\<lambda>p. case slot_for c (int p) of Some a \<Rightarrow> c_bufs c ! a | None \<Rightarrow> c_disk c ! p)
       [0..<length (c_disk c)]"

definition pins :: "cache \<Rightarrow> int \<Rightarrow> int" where
  "pins c pn = (case slot_for c pn of Some a \<Rightarrow> fst (snd (c_slots c ! a)) | None \<Rightarrow> 0)"

definition busy :: "cache \<Rightarrow> nat" where
  "busy c = sum_list (map (\<lambda>s. nat (fst (snd s))) (c_slots c))"

definition coherent :: "cache \<Rightarrow> nat \<Rightarrow> bool" where
  "coherent c a \<longleftrightarrow>
     (case c_slots c ! a of
        (pn, fix, dirty) \<Rightarrow>
          length (c_bufs c ! a) = PAGE_SIZE \<and> 0 \<le> fix \<and> - 1 \<le> pn \<and> (pn = - 1 \<longrightarrow> fix = 0) \<and>
          (pn \<noteq> - 1 \<longrightarrow> nat pn < length (c_disk c) \<and>
             (fix = 0 \<or> \<not> dirty \<longrightarrow> c_bufs c ! a = c_disk c ! nat pn)))"

definition cache_inv :: "cache \<Rightarrow> bool" where
  "cache_inv c \<longleftrightarrow>
     length (c_bufs c) = length (c_slots c) \<and>
     distinct (filter (\<lambda>p. p \<noteq> - 1) (map fst (c_slots c))) \<and>
     list_all (\<lambda>b. length b = PAGE_SIZE) (c_disk c) \<and>
     list_all (coherent c) [0..<length (c_slots c)]"

definition c_hit :: "nat \<Rightarrow> cache \<Rightarrow> cache" where
  "c_hit a c =
     (case c_slots c ! a of
        (pn, fix, dirty) \<Rightarrow> c\<lparr>c_slots := (c_slots c)[a := (pn, fix + 1, dirty)]\<rparr>)"

definition c_load :: "nat \<Rightarrow> int \<Rightarrow> cache \<Rightarrow> cache" where
  "c_load a pn c =
     (case c_slots c ! a of
        (old, fix, dirty) \<Rightarrow>
          c\<lparr>c_slots := (c_slots c)[a := (pn, fix + 1, dirty)],
            c_bufs := (c_bufs c)[a := c_disk c ! nat pn]\<rparr>)"

definition c_mark :: "nat \<Rightarrow> cache \<Rightarrow> cache" where
  "c_mark a c =
     (case c_slots c ! a of
        (pn, fix, dirty) \<Rightarrow> c\<lparr>c_slots := (c_slots c)[a := (pn, fix, True)]\<rparr>)"

definition c_poke :: "nat \<Rightarrow> page \<Rightarrow> cache \<Rightarrow> cache" where
  "c_poke a pg c = c\<lparr>c_bufs := (c_bufs c)[a := pg]\<rparr>"

definition c_release :: "nat \<Rightarrow> cache \<Rightarrow> cache" where
  "c_release a c =
     (case c_slots c ! a of
        (pn, fix, dirty) \<Rightarrow>
          c\<lparr>c_slots := (c_slots c)[a := (pn, fix - 1, dirty)],
            c_disk := (if dirty then (c_disk c)[nat pn := c_bufs c ! a] else c_disk c)\<rparr>)"

definition c_append :: "cache \<Rightarrow> cache" where
  "c_append c = c\<lparr>c_disk := c_disk c @ [emptyPage]\<rparr>"

subsection \<open>The slot of a page\<close>

lemma distinct_filter_nth:
  "distinct (filter P xs) \<longleftrightarrow>
     (\<forall>i < length xs. \<forall>j < length xs. xs ! i = xs ! j \<and> P (xs ! i) \<longrightarrow> i = j)"
proof (induction xs)
  case Nil
  then show ?case by simp
next
  case (Cons x xs)
  show ?case
    by (simp add: Cons All_less_Suc2 in_set_conv_nth) blast
qed

lemma slots_unique:
  assumes "cache_inv c" and "a < length (c_slots c)" and "a' < length (c_slots c)"
    and "fst (c_slots c ! a) = pn" and "fst (c_slots c ! a') = pn" and "pn \<noteq> - 1"
  shows "a = a'"
  using assms by (simp add: cache_inv_def distinct_filter_nth)

lemma slot_for_None: "slot_for c pn = None \<longleftrightarrow> (\<forall>a < length (c_slots c). fst (c_slots c ! a) \<noteq> pn)"
  by (auto simp: slot_for_def find_None_set)

lemma slot_for_Some:
  assumes "cache_inv c" and "pn \<noteq> - 1"
  shows "slot_for c pn = Some a \<longleftrightarrow> a < length (c_slots c) \<and> fst (c_slots c ! a) = pn"
proof
  assume "slot_for c pn = Some a"
  then show "a < length (c_slots c) \<and> fst (c_slots c ! a) = pn"
    by (auto simp: slot_for_def dest: find_Some_set)
next
  assume a: "a < length (c_slots c) \<and> fst (c_slots c ! a) = pn"
  then obtain a' where f: "slot_for c pn = Some a'"
    by (cases "slot_for c pn") (auto simp: slot_for_None)
  then have "a' < length (c_slots c)" "fst (c_slots c ! a') = pn"
    by (auto simp: slot_for_def dest: find_Some_set)
  with a assms have "a = a'"
    by (auto intro: slots_unique)
  with f show "slot_for c pn = Some a"
    by simp
qed

lemma coherentD:
  assumes "cache_inv c" and "a < length (c_slots c)" and "c_slots c ! a = (pn, fx, dirty)"
  shows "length (c_bufs c ! a) = PAGE_SIZE" "0 \<le> fx" "- 1 \<le> pn" "pn = - 1 \<Longrightarrow> fx = 0"
    "pn \<noteq> - 1 \<Longrightarrow> nat pn < length (c_disk c)"
    "pn \<noteq> - 1 \<Longrightarrow> fx = 0 \<or> \<not> dirty \<Longrightarrow> c_bufs c ! a = c_disk c ! nat pn"
proof -
  from assms(1,2) have "coherent c a"
    by (simp add: cache_inv_def list_all_iff)
  with assms(3) show "length (c_bufs c ! a) = PAGE_SIZE" "0 \<le> fx" "- 1 \<le> pn"
    "pn = - 1 \<Longrightarrow> fx = 0" "pn \<noteq> - 1 \<Longrightarrow> nat pn < length (c_disk c)"
    "pn \<noteq> - 1 \<Longrightarrow> fx = 0 \<or> \<not> dirty \<Longrightarrow> c_bufs c ! a = c_disk c ! nat pn"
    by (auto simp: coherent_def)
qed

lemma pins_negative:
  assumes "cache_inv c" and "pn < 0"
  shows "pins c pn = 0"
proof (cases "slot_for c pn")
  case None
  then show ?thesis
    by (simp add: pins_def)
next
  case (Some a)
  then have a: "a < length (c_slots c)" "fst (c_slots c ! a) = pn"
    by (auto simp: slot_for_def dest: find_Some_set)
  obtain fx dirty where s: "c_slots c ! a = (pn, fx, dirty)"
    using a(2) by (cases "c_slots c ! a") simp
  from coherentD(3,4) [OF assms(1) a(1) s] assms(2) have "fx = 0"
    by simp
  with Some s show ?thesis
    by (simp add: pins_def)
qed

lemma length_view [simp]: "length (view c) = length (c_disk c)"
  by (simp add: view_def)

lemma view_nth:
  "p < length (c_disk c) \<Longrightarrow>
     view c ! p = (case slot_for c (int p) of Some a \<Rightarrow> c_bufs c ! a | None \<Rightarrow> c_disk c ! p)"
  by (simp add: view_def split: option.split)

lemma view_slot:
  assumes "cache_inv c" and "a < length (c_slots c)" and "fst (c_slots c ! a) = pn" and "0 \<le> pn"
  shows "nat pn < length (c_disk c)" "view c ! nat pn = c_bufs c ! a"
proof -
  obtain fx dirty where s: "c_slots c ! a = (pn, fx, dirty)"
    using assms(3) by (cases "c_slots c ! a") simp
  from coherentD(5) [OF assms(1,2) s] assms(4) show l: "nat pn < length (c_disk c)"
    by simp
  from assms have "slot_for c pn = Some a"
    by (simp add: slot_for_Some)
  with l assms(4) show "view c ! nat pn = c_bufs c ! a"
    by (simp add: view_nth)
qed

lemma view_idle:
  assumes "cache_inv c" and "\<forall>pn. pins c pn = 0"
  shows "view c = c_disk c"
proof (rule nth_equalityI)
  fix p assume "p < length (view c)"
  then have p: "p < length (c_disk c)"
    by simp
  show "view c ! p = c_disk c ! p"
  proof (cases "slot_for c (int p)")
    case None
    with p show ?thesis
      by (simp add: view_nth)
  next
    case (Some a)
    with assms(1) have a: "a < length (c_slots c)" "fst (c_slots c ! a) = int p"
      by (simp_all add: slot_for_Some)
    obtain fx dirty where s: "c_slots c ! a = (int p, fx, dirty)"
      using a(2) by (cases "c_slots c ! a") simp
    from assms(2) Some s have "fx = 0"
      by (auto simp: pins_def dest: spec [of _ "int p"])
    with coherentD(6) [OF assms(1) a(1) s] Some p show ?thesis
      by (simp add: view_nth)
  qed
qed simp

subsection \<open>Changing one slot\<close>

lemma cache_invI:
  assumes "length (c_bufs c) = length (c_slots c)"
    and "\<And>a a'. a < length (c_slots c) \<Longrightarrow> a' < length (c_slots c) \<Longrightarrow>
           fst (c_slots c ! a) = fst (c_slots c ! a') \<Longrightarrow> fst (c_slots c ! a) \<noteq> - 1 \<Longrightarrow> a = a'"
    and "list_all (\<lambda>b. length b = PAGE_SIZE) (c_disk c)"
    and "\<And>a. a < length (c_slots c) \<Longrightarrow> coherent c a"
  shows "cache_inv c"
  using assms by (auto simp: cache_inv_def distinct_filter_nth list_all_iff)

lemma cache_invD:
  assumes "cache_inv c"
  shows "length (c_bufs c) = length (c_slots c)"
    and "list_all (\<lambda>b. length b = PAGE_SIZE) (c_disk c)"
    and "a < length (c_slots c) \<Longrightarrow> coherent c a"
  using assms by (auto simp: cache_inv_def list_all_iff)

lemma slot_for_cong:
  "map fst (c_slots c') = map fst (c_slots c) \<Longrightarrow> slot_for c' = slot_for c"
proof (rule ext)
  fix pn assume m: "map fst (c_slots c') = map fst (c_slots c)"
  then have l: "length (c_slots c') = length (c_slots c)"
    by (rule map_eq_imp_length_eq)
  have "fst (c_slots c' ! a) = fst (c_slots c ! a)" if "a < length (c_slots c)" for a
    using that l nth_map [of a "c_slots c'" fst] nth_map [of a "c_slots c" fst] by (simp add: m)
  then show "slot_for c' pn = slot_for c pn"
    unfolding slot_for_def l by (intro find_cong) simp_all
qed

lemma busy_update:
  assumes "a < length (c_slots c)" and "c_slots c ! a = (pn, fx, dirty)"
  shows "busy (c\<lparr>c_slots := (c_slots c)[a := (pn', fx', dirty')]\<rparr>) + nat fx = busy c + nat fx'"
proof -
  from assms have "nat fx \<le> sum_list (map (\<lambda>s. nat (fst (snd s))) (c_slots c))"
    using member_le_sum_list [of "nat fx" "map (\<lambda>s. nat (fst (snd s))) (c_slots c)"]
    by (force simp: in_set_conv_nth)
  with assms show ?thesis
    by (simp add: busy_def map_update sum_list_update)
qed

lemma pins_slot:
  assumes "cache_inv c" and "a < length (c_slots c)" and "c_slots c ! a = (pn, fx, dirty)"
    and "pn \<noteq> - 1"
  shows "pins c pn = fx" "slot_for c pn = Some a"
proof -
  from assms show "slot_for c pn = Some a"
    by (simp add: slot_for_Some)
  with assms(3) show "pins c pn = fx"
    by (simp add: pins_def)
qed

lemma view_cong:
  "slot_for c' = slot_for c \<Longrightarrow> c_bufs c' = c_bufs c \<Longrightarrow> c_disk c' = c_disk c \<Longrightarrow> view c' = view c"
  by (simp add: view_def cong: option.case_cong)

lemma pins_other:
  assumes "slot_for c' = slot_for c" and "length (c_slots c') = length (c_slots c)"
    and "\<And>a'. a' < length (c_slots c) \<Longrightarrow> fst (c_slots c ! a') = p \<Longrightarrow>
           fst (snd (c_slots c' ! a')) = fst (snd (c_slots c ! a'))"
  shows "pins c' p = pins c p"
proof (cases "slot_for c p")
  case None
  with assms(1) show ?thesis
    by (simp add: pins_def)
next
  case (Some a')
  then have "a' < length (c_slots c)" "fst (c_slots c ! a') = p"
    by (auto simp: slot_for_def dest: find_Some_set)
  with assms Some show ?thesis
    by (simp add: pins_def)
qed

lemma slots_update:
  assumes "cache_inv c" and "a < length (c_slots c)" and "c_slots c ! a = (pn, fx, dirty)"
    and "c_slots c' = (c_slots c)[a := (pn, fx', dirty')]"
  shows "slot_for c' = slot_for c"
    and "cache_inv c' \<Longrightarrow> pn \<noteq> - 1 \<Longrightarrow> pins c' = (pins c)(pn := fx')"
    and "busy c' + nat fx = busy c + nat fx'"
    and "b < length (c_slots c') \<Longrightarrow> b' < length (c_slots c') \<Longrightarrow>
           fst (c_slots c' ! b) = fst (c_slots c' ! b') \<Longrightarrow> fst (c_slots c' ! b) \<noteq> - 1 \<Longrightarrow> b = b'"
proof -
  from assms(2,3) have "map fst (c_slots c') = map fst (c_slots c)"
    unfolding assms(4) by (simp add: map_update) (metis fst_conv list_update_id map_update)
  then show sf: "slot_for c' = slot_for c"
    by (rule slot_for_cong)
  from busy_update [OF assms(2,3), of pn fx' dirty'] show "busy c' + nat fx = busy c + nat fx'"
    by (simp add: busy_def assms(4))
  show "b = b'" if "b < length (c_slots c')" "b' < length (c_slots c')"
    "fst (c_slots c' ! b) = fst (c_slots c' ! b')" "fst (c_slots c' ! b) \<noteq> - 1"
    using that assms(3) slots_unique [OF assms(1), of b b']
    by (auto simp: assms(4) nth_list_update_if split: if_splits)
  assume inv: "cache_inv c'" and pn: "pn \<noteq> - 1"
  show "pins c' = (pins c)(pn := fx')"
  proof (rule ext)
    fix p
    show "pins c' p = ((pins c)(pn := fx')) p"
    proof (cases "p = pn")
      case True
      from assms(2) have "c_slots c' ! a = (pn, fx', dirty')" "a < length (c_slots c')"
        by (simp_all add: assms(4))
      from pins_slot(1) [OF inv this(2,1) pn] True show ?thesis
        by simp
    next
      case False
      with assms(3) have "pins c' p = pins c p"
        by (intro pins_other sf) (auto simp: assms(4) nth_list_update_if)
      with False show ?thesis
        by simp
    qed
  qed
qed

lemma cache_inv_update:
  assumes "cache_inv c" and "a < length (c_slots c)" and "c_slots c ! a = (pn, fx, dirty)"
    and "c_slots c' = (c_slots c)[a := (pn, fx', dirty')]"
    and "length (c_bufs c') = length (c_bufs c)"
    and "list_all (\<lambda>b. length b = PAGE_SIZE) (c_disk c')"
    and "\<And>b. b < length (c_slots c) \<Longrightarrow> coherent c b \<Longrightarrow> coherent c' b"
  shows "cache_inv c'"
proof (rule cache_invI)
  from assms(1,5) show "length (c_bufs c') = length (c_slots c')"
    by (simp add: cache_invD assms(4))
  fix b assume "b < length (c_slots c')"
  with assms(1,7) show "coherent c' b"
    by (simp add: cache_invD assms(4))
next
  fix b b' assume "b < length (c_slots c')" "b' < length (c_slots c')"
    "fst (c_slots c' ! b) = fst (c_slots c' ! b')" "fst (c_slots c' ! b) \<noteq> - 1"
  then show "b = b'"
    by (rule slots_update(4) [OF assms(1-4)])
qed (rule assms(6))

subsection \<open>The calls of a client\<close>

lemma c_hit:
  assumes "cache_inv c" and "a < length (c_slots c)" and "c_slots c ! a = (pn, fx, dirty)"
    and "pn \<noteq> - 1"
  shows "cache_inv (c_hit a c)" "view (c_hit a c) = view c"
    "pins (c_hit a c) = (pins c)(pn := pins c pn + 1)" "busy (c_hit a c) = Suc (busy c)"
    "slot_for (c_hit a c) = slot_for c"
proof -
  from assms(3) have e: "c_slots (c_hit a c) = (c_slots c)[a := (pn, fx + 1, dirty)]"
    "c_bufs (c_hit a c) = c_bufs c" "c_disk (c_hit a c) = c_disk c"
    by (simp_all add: c_hit_def)
  note u = slots_update [OF assms(1-3) e(1)]
  note d = coherentD [OF assms(1-3)]
  from u(1) show "slot_for (c_hit a c) = slot_for c"
    by simp
  then show "view (c_hit a c) = view c"
    by (rule view_cong) (simp_all add: e)
  show inv: "cache_inv (c_hit a c)"
  proof (rule cache_inv_update [OF assms(1-3) e(1)])
    fix b assume "b < length (c_slots c)" "coherent c b"
    with assms(3,4) d show "coherent (c_hit a c) b"
      by (cases "b = a") (auto simp: coherent_def e)
  qed (use assms(1) in \<open>simp_all add: cache_invD e(2,3)\<close>)
  from d(2) u(3) show "busy (c_hit a c) = Suc (busy c)"
    by (simp add: nat_add_distrib)
  from u(2) [OF inv assms(4)] pins_slot(1) [OF assms] show "pins (c_hit a c) = (pins c)(pn := pins c pn + 1)"
    by simp
qed

lemma c_mark:
  assumes "cache_inv c" and "a < length (c_slots c)" and "c_slots c ! a = (pn, fx, dirty)"
    and "pn \<noteq> - 1" and "0 < fx"
  shows "cache_inv (c_mark a c)" "view (c_mark a c) = view c" "pins (c_mark a c) = pins c"
    "busy (c_mark a c) = busy c" "slot_for (c_mark a c) = slot_for c"
proof -
  from assms(3) have e: "c_slots (c_mark a c) = (c_slots c)[a := (pn, fx, True)]"
    "c_bufs (c_mark a c) = c_bufs c" "c_disk (c_mark a c) = c_disk c"
    by (simp_all add: c_mark_def)
  note u = slots_update [OF assms(1-3) e(1)]
  note d = coherentD [OF assms(1-3)]
  from u(1) show "slot_for (c_mark a c) = slot_for c"
    by simp
  then show "view (c_mark a c) = view c"
    by (rule view_cong) (simp_all add: e)
  show inv: "cache_inv (c_mark a c)"
  proof (rule cache_inv_update [OF assms(1-3) e(1)])
    fix b assume "b < length (c_slots c)" "coherent c b"
    with assms(3-5) d show "coherent (c_mark a c) b"
      by (cases "b = a") (auto simp: coherent_def e)
  qed (use assms(1) in \<open>simp_all add: cache_invD e(2,3)\<close>)
  from u(3) show "busy (c_mark a c) = busy c"
    by simp
  from u(2) [OF inv assms(4)] pins_slot(1) [OF assms(1-4)] show "pins (c_mark a c) = pins c"
    by auto
qed

lemma c_poke_fields:
  assumes "a < length (c_slots c)" and "c_slots c ! a = (pn, fx, True)"
  shows "c_slots (c_poke a pg c) = (c_slots c)[a := (pn, fx, True)]"
    "c_bufs (c_poke a pg c) = (c_bufs c)[a := pg]" "c_disk (c_poke a pg c) = c_disk c"
  using assms by (simp_all add: c_poke_def) (metis list_update_id)

lemma c_poke:
  assumes "cache_inv c" and "a < length (c_slots c)" and "c_slots c ! a = (pn, fx, True)"
    and "pn \<noteq> - 1" and "0 < fx" and "length pg = PAGE_SIZE"
  shows "cache_inv (c_poke a pg c)" "pins (c_poke a pg c) = pins c"
    "busy (c_poke a pg c) = busy c" "slot_for (c_poke a pg c) = slot_for c"
proof -
  note e = c_poke_fields [OF assms(2,3), of pg]
  note u = slots_update [OF assms(1-3) e(1)]
  from u(1) show "slot_for (c_poke a pg c) = slot_for c"
    by simp
  show inv: "cache_inv (c_poke a pg c)"
  proof (rule cache_inv_update [OF assms(1-3) e(1)])
    fix b assume "b < length (c_slots c)" "coherent c b"
    with assms(2-6) cache_invD(1) [OF assms(1)] show "coherent (c_poke a pg c) b"
      by (cases "b = a") (auto simp: coherent_def c_poke_def)
  qed (use assms(1) in \<open>simp_all add: cache_invD e(2,3)\<close>)
  from u(3) show "busy (c_poke a pg c) = busy c"
    by simp
  from u(2) [OF inv assms(4)] pins_slot(1) [OF assms(1-4)] show "pins (c_poke a pg c) = pins c"
    by auto
qed

lemma c_poke_view:
  assumes "cache_inv c" and "a < length (c_slots c)" and "c_slots c ! a = (pn, fx, True)"
    and "pn \<noteq> - 1" and "0 < fx" and "length pg = PAGE_SIZE"
  shows "view (c_poke a pg c) = (view c)[nat pn := pg]"
proof (rule nth_equalityI)
  note e = c_poke_fields [OF assms(2,3), of pg]
  note sf = c_poke(4) [OF assms]
  show "length (view (c_poke a pg c)) = length ((view c)[nat pn := pg])"
    by (simp add: e)
  fix p assume "p < length (view (c_poke a pg c))"
  then have p: "p < length (c_disk c)"
    by (simp add: e)
  from coherentD(3) [OF assms(1-3)] assms(4) have pn: "0 \<le> pn"
    by simp
  show "view (c_poke a pg c) ! p = (view c)[nat pn := pg] ! p"
  proof (cases "slot_for c (int p)")
    case None
    with pins_slot(2) [OF assms(1-4)] pn have "p \<noteq> nat pn"
      by (cases "p = nat pn") auto
    with None p show ?thesis
      by (simp add: view_nth e sf)
  next
    case (Some b)
    with assms(1) have b: "b < length (c_slots c)" "fst (c_slots c ! b) = int p"
      by (simp_all add: slot_for_Some)
    with assms(3) pn have "a = b \<longleftrightarrow> nat pn = p"
      using slots_unique [OF assms(1) b(1) assms(2), of pn] by auto
    with Some p b(1) cache_invD(1) [OF assms(1)] show ?thesis
      by (auto simp: view_nth e sf nth_list_update_if)
  qed
qed

lemma c_release_fields:
  assumes "c_slots c ! a = (pn, fx, dirty)"
  shows "c_slots (c_release a c) = (c_slots c)[a := (pn, fx - 1, dirty)]"
    "c_bufs (c_release a c) = c_bufs c"
    "c_disk (c_release a c) = (if dirty then (c_disk c)[nat pn := c_bufs c ! a] else c_disk c)"
    "length (c_disk (c_release a c)) = length (c_disk c)"
  using assms by (simp_all add: c_release_def)

lemma c_release_other:
  assumes "cache_inv c" and "a < length (c_slots c)" and "c_slots c ! a = (pn, fx, dirty)"
    and "pn \<noteq> - 1" and "b < length (c_slots c)" and "fst (c_slots c ! b) = q" and "q \<noteq> - 1"
    and "b \<noteq> a"
  shows "c_disk (c_release a c) ! nat q = c_disk c ! nat q"
proof -
  from assms(3,6-8) slots_unique [OF assms(1,5,2), of q] have "q \<noteq> pn"
    by auto
  moreover from cache_invD(3) [OF assms(1,5)] assms(6,7) have "0 \<le> q"
    by (auto simp: coherent_def split: prod.splits)
  moreover from coherentD(3) [OF assms(1-3)] assms(4) have "0 \<le> pn"
    by simp
  ultimately show ?thesis
    by (simp add: c_release_fields(3) [OF assms(3)])
qed

lemma c_release:
  assumes "cache_inv c" and "a < length (c_slots c)" and "c_slots c ! a = (pn, fx, dirty)"
    and "pn \<noteq> - 1" and "0 < fx"
  shows "cache_inv (c_release a c)" "pins (c_release a c) = (pins c)(pn := pins c pn - 1)"
    "Suc (busy (c_release a c)) = busy c" "slot_for (c_release a c) = slot_for c"
proof -
  note e = c_release_fields [OF assms(3)]
  note u = slots_update [OF assms(1-3) e(1)]
  from u(1) show "slot_for (c_release a c) = slot_for c"
    by simp
  show inv: "cache_inv (c_release a c)"
  proof (rule cache_inv_update [OF assms(1-3) e(1)])
    fix b assume b: "b < length (c_slots c)" "coherent c b"
    show "coherent (c_release a c) b"
    proof (cases "b = a")
      case True
      with b assms(3-5) show ?thesis
        by (auto simp: coherent_def e(1-3))
    next
      case False
      with b c_release_other [OF assms(1-4) b(1) refl _ False] show ?thesis
        by (auto simp: coherent_def e(1,2,4) split: prod.splits)
    qed
  next
    from cache_invD(2) [OF assms(1)] coherentD(1) [OF assms(1-3)]
    show "list_all (\<lambda>b. length b = PAGE_SIZE) (c_disk (c_release a c))"
      by (auto simp: e(3) list_all_iff dest: set_update_subset_insert [THEN subsetD])
  qed (simp add: e(2))
  from assms(5) u(3) show "Suc (busy (c_release a c)) = busy c"
    by (simp add: nat_diff_distrib)
  from u(2) [OF inv assms(4)] pins_slot(1) [OF assms(1-4)]
  show "pins (c_release a c) = (pins c)(pn := pins c pn - 1)"
    by simp
qed

lemma c_release_view:
  assumes "cache_inv c" and "a < length (c_slots c)" and "c_slots c ! a = (pn, fx, dirty)"
    and "pn \<noteq> - 1" and "0 < fx"
  shows "view (c_release a c) = view c"
proof (rule nth_equalityI)
  note e = c_release_fields [OF assms(3)]
  show "length (view (c_release a c)) = length (view c)"
    by (simp add: e(4))
  fix p assume "p < length (view (c_release a c))"
  then have p: "p < length (c_disk c)"
    by (simp add: e(4))
  from coherentD(3) [OF assms(1-3)] assms(4) have "0 \<le> pn"
    by simp
  with pins_slot(2) [OF assms(1-4)] have "slot_for c (int p) = None \<Longrightarrow> p \<noteq> nat pn"
    by (cases "p = nat pn") auto
  with p show "view (c_release a c) ! p = view c ! p"
    by (cases "slot_for c (int p)") (simp_all add: view_nth e c_release(4) [OF assms])
qed

lemma option_eq_Some: "(\<And>b. x = Some b \<longleftrightarrow> y = Some b) \<Longrightarrow> x = y"
  by (cases x; cases y) auto

lemma c_load_fields:
  assumes "c_slots c ! a = (old, fx, dirty)"
  shows "c_slots (c_load a pn c) = (c_slots c)[a := (pn, fx + 1, dirty)]"
    "c_bufs (c_load a pn c) = (c_bufs c)[a := c_disk c ! nat pn]" "c_disk (c_load a pn c) = c_disk c"
  using assms by (simp_all add: c_load_def)

lemma c_load_inv:
  assumes "cache_inv c" and "a < length (c_slots c)" and "c_slots c ! a = (old, 0, dirty)"
    and "slot_for c pn = None" and "0 \<le> pn" and "nat pn < length (c_disk c)"
  shows "cache_inv (c_load a pn c)"
proof (rule cache_invI)
  let ?c = "c_load a pn c"
  note e = c_load_fields [OF assms(3), of pn, simplified]
  from assms(1) show "length (c_bufs ?c) = length (c_slots ?c)"
    "list_all (\<lambda>b. length b = PAGE_SIZE) (c_disk ?c)"
    by (simp_all add: cache_invD e)
  fix b assume b: "b < length (c_slots ?c)"
  from cache_invD(2) [OF assms(1)] assms(6) have "length (c_disk c ! nat pn) = PAGE_SIZE"
    by (simp add: list_all_length)
  with assms(2,5,6) cache_invD(1) [OF assms(1)] have "coherent ?c a"
    by (simp add: coherent_def e)
  moreover have "coherent ?c b" if "b \<noteq> a"
  proof -
    obtain q k t where sb: "c_slots c ! b = (q, k, t)"
      by (cases "c_slots c ! b")
    from b have "b < length (c_slots c)"
      by (simp add: e)
    from coherentD [OF assms(1) this sb] that sb show ?thesis
      by (auto simp: coherent_def e)
  qed
  ultimately show "coherent ?c b"
    by (cases "b = a") simp_all
next
  let ?c = "c_load a pn c"
  note e = c_load_fields [OF assms(3), of pn, simplified]
  from assms(4) have fresh: "b < length (c_slots c) \<Longrightarrow> fst (c_slots c ! b) \<noteq> pn" for b
    by (simp add: slot_for_None)
  fix b b' assume "b < length (c_slots ?c)" "b' < length (c_slots ?c)"
    "fst (c_slots ?c ! b) = fst (c_slots ?c ! b')" "fst (c_slots ?c ! b) \<noteq> - 1"
  with fresh [of b] fresh [of b'] slots_unique [OF assms(1), of b b'] show "b = b'"
    by (auto simp: e nth_list_update_if split: if_splits)
qed

lemma c_load_slots:
  assumes "cache_inv c" and "a < length (c_slots c)" and "c_slots c ! a = (old, 0, dirty)"
    and "slot_for c pn = None" and "0 \<le> pn" and "nat pn < length (c_disk c)"
  shows "slot_for (c_load a pn c) pn = Some a"
    and "old \<noteq> - 1 \<Longrightarrow> slot_for (c_load a pn c) old = None"
    and "q \<noteq> - 1 \<Longrightarrow> q \<noteq> pn \<Longrightarrow> q \<noteq> old \<Longrightarrow> slot_for (c_load a pn c) q = slot_for c q"
proof -
  let ?c = "c_load a pn c"
  note e = c_load_fields [OF assms(3), of pn, simplified]
  note inv = c_load_inv [OF assms]
  from assms(4) have fresh: "b < length (c_slots c) \<Longrightarrow> fst (c_slots c ! b) \<noteq> pn" for b
    by (simp add: slot_for_None)
  from assms(2,5) show "slot_for ?c pn = Some a"
    by (simp add: slot_for_Some [OF inv] e)
  show "slot_for ?c old = None" if "old \<noteq> - 1"
  proof -
    have "fst (c_slots ?c ! b) \<noteq> old" if b: "b < length (c_slots c)" for b
    proof (cases "b = a")
      case True
      with fresh [of a] assms(2,3) show ?thesis
        by (simp add: e)
    next
      case False
      with slots_unique [OF assms(1) b assms(2), of old] assms(3) \<open>old \<noteq> - 1\<close> show ?thesis
        by (auto simp: e)
    qed
    then show ?thesis
      by (simp add: slot_for_None e)
  qed
  show "slot_for ?c q = slot_for c q" if "q \<noteq> - 1" "q \<noteq> pn" "q \<noteq> old"
  proof (rule option_eq_Some)
    fix b
    from that assms(3) have "fst (c_slots ?c ! b) = q \<longleftrightarrow> fst (c_slots c ! b) = q"
      if "b < length (c_slots c)"
      using that by (cases "b = a") (simp_all add: e)
    with that(1) show "slot_for ?c q = Some b \<longleftrightarrow> slot_for c q = Some b"
      by (auto simp: slot_for_Some [OF inv] slot_for_Some [OF assms(1)] e(1))
  qed
qed

lemma c_load_unpinned:
  assumes "cache_inv c" and "a < length (c_slots c)" and "c_slots c ! a = (old, 0, dirty)"
    and "slot_for c pn = None"
  shows "pins c old = 0" "pins c pn = 0"
proof -
  show "pins c old = 0"
    using pins_slot(1) [OF assms(1-3)] pins_negative [OF assms(1), of old]
      coherentD(3) [OF assms(1-3)]
    by (cases "old = - 1") simp_all
  from assms(4) show "pins c pn = 0"
    by (simp add: pins_def)
qed

lemma c_load_pins:
  assumes "cache_inv c" and "a < length (c_slots c)" and "c_slots c ! a = (old, 0, dirty)"
    and "slot_for c pn = None" and "0 \<le> pn" and "nat pn < length (c_disk c)"
  shows "pins (c_load a pn c) = (pins c)(pn := pins c pn + 1)"
proof (rule ext)
  let ?c = "c_load a pn c"
  note e = c_load_fields [OF assms(3), of pn, simplified]
  note s = c_load_slots [OF assms]
  note z = c_load_unpinned [OF assms(1-4)]
  fix q
  consider "q = pn" | "q < 0" | "q \<noteq> pn" "q = old" "0 \<le> q" | "q \<noteq> pn" "q \<noteq> old" "0 \<le> q"
    by linarith
  then show "pins ?c q = ((pins c)(pn := pins c pn + 1)) q"
  proof cases
    case 1
    with s(1) assms(2) z(2) show ?thesis
      by (simp add: pins_def e)
  next
    case 2
    with assms(5) pins_negative [OF c_load_inv [OF assms] 2] pins_negative [OF assms(1) 2]
    show ?thesis
      by simp
  next
    case 3
    with s(2) z(1) show ?thesis
      by (simp add: pins_def)
  next
    case 4
    with s(3) [of q] have sf: "slot_for ?c q = slot_for c q"
      by simp
    have "c_slots ?c ! b = c_slots c ! b" if "slot_for c q = Some b" for b
      using that 4 assms(3) by (cases "b = a") (auto simp: e slot_for_Some [OF assms(1)])
    with 4 show ?thesis
      by (cases "slot_for c q") (simp_all add: pins_def sf)
  qed
qed

lemma c_load_view:
  assumes "cache_inv c" and "a < length (c_slots c)" and "c_slots c ! a = (old, 0, dirty)"
    and "slot_for c pn = None" and "0 \<le> pn" and "nat pn < length (c_disk c)"
  shows "view (c_load a pn c) = view c"
proof (rule nth_equalityI)
  let ?c = "c_load a pn c"
  note e = c_load_fields [OF assms(3), of pn, simplified]
  note s = c_load_slots [OF assms]
  show "length (view ?c) = length (view c)"
    by (simp add: e)
  fix q assume "q < length (view ?c)"
  then have q: "q < length (c_disk c)"
    by (simp add: e)
  consider "int q = pn" | "int q \<noteq> pn" "int q = old" | "int q \<noteq> pn" "int q \<noteq> old"
    by linarith
  then show "view ?c ! q = view c ! q"
  proof cases
    case 1
    then have "nat pn = q"
      by auto
    with 1 s(1) assms(2,4) q cache_invD(1) [OF assms(1)] show ?thesis
      by (simp add: view_nth e)
  next
    case 2
    then have "nat old = q"
      by auto
    with 2 s(2) pins_slot(2) [OF assms(1-3)] coherentD(6) [OF assms(1-3)] q show ?thesis
      by (auto simp: view_nth e)
  next
    case 3
    with s(3) [of "int q"] have sf: "slot_for ?c (int q) = slot_for c (int q)"
      by simp
    have "c_bufs ?c ! b = c_bufs c ! b" if "slot_for c (int q) = Some b" for b
      using that 3 assms(3) by (cases "b = a") (auto simp: e slot_for_Some [OF assms(1)])
    with q show ?thesis
      by (cases "slot_for c (int q)") (simp_all add: view_nth sf e(3))
  qed
qed

lemma c_load:
  assumes "cache_inv c" and "a < length (c_slots c)" and "c_slots c ! a = (old, 0, dirty)"
    and "slot_for c pn = None" and "0 \<le> pn" and "nat pn < length (c_disk c)"
  shows "busy (c_load a pn c) = Suc (busy c)"
    and "0 < pins c p \<Longrightarrow> slot_for (c_load a pn c) p = slot_for c p"
proof -
  from busy_update [OF assms(2,3), of pn 1 dirty] show "busy (c_load a pn c) = Suc (busy c)"
    by (simp add: busy_def c_load_fields [OF assms(3), of pn, simplified])
  assume "0 < pins c p"
  with c_load_unpinned [OF assms(1-4)] pins_negative [OF assms(1), of p]
  have "p \<noteq> - 1" "p \<noteq> pn" "p \<noteq> old"
    by auto
  then show "slot_for (c_load a pn c) p = slot_for c p"
    by (rule c_load_slots(3) [OF assms])
qed

lemma c_append_fields:
  "c_slots (c_append c) = c_slots c" "c_bufs (c_append c) = c_bufs c"
  "c_disk (c_append c) = c_disk c @ [emptyPage]"
  by (simp_all add: c_append_def)

lemma c_append:
  assumes "cache_inv c"
  shows "cache_inv (c_append c)" "pins (c_append c) = pins c" "busy (c_append c) = busy c"
    "slot_for (c_append c) = slot_for c"
proof -
  note e = c_append_fields [of c]
  show sf: "slot_for (c_append c) = slot_for c"
    by (rule slot_for_cong) (simp add: e)
  then show "pins (c_append c) = pins c"
    by (simp add: pins_def fun_eq_iff e cong: option.case_cong)
  show "busy (c_append c) = busy c"
    by (simp add: busy_def e)
  show "cache_inv (c_append c)"
  proof (rule cache_invI)
    fix b assume "b < length (c_slots (c_append c))"
    with cache_invD(3) [OF assms, of b] show "coherent (c_append c) b"
      by (auto simp: coherent_def e nth_append split: prod.splits)
  next
    fix b b' assume "b < length (c_slots (c_append c))" "b' < length (c_slots (c_append c))"
      "fst (c_slots (c_append c) ! b) = fst (c_slots (c_append c) ! b')"
      "fst (c_slots (c_append c) ! b) \<noteq> - 1"
    with slots_unique [OF assms, of b b'] show "b = b'"
      by (simp add: e)
  qed (use assms in \<open>simp_all add: cache_invD e\<close>)
qed

lemma c_append_view:
  assumes "cache_inv c"
  shows "view (c_append c) = view c @ [emptyPage]"
proof (rule nth_equalityI)
  note e = c_append_fields [of c]
  note sf = c_append(4) [OF assms]
  have new: "slot_for c (int (length (c_disk c))) = None"
  proof (rule ccontr)
    assume "slot_for c (int (length (c_disk c))) \<noteq> None"
    then obtain b where "slot_for c (int (length (c_disk c))) = Some b"
      by auto
    with assms have b: "b < length (c_slots c)" "fst (c_slots c ! b) = int (length (c_disk c))"
      by (simp_all add: slot_for_Some)
    with view_slot(1) [OF assms b] show False
      by simp
  qed
  show "length (view (c_append c)) = length (view c @ [emptyPage])"
    by (simp add: e)
  fix q assume "q < length (view (c_append c))"
  then consider "q < length (c_disk c)" | "q = length (c_disk c)"
    by (auto simp: e less_Suc_eq)
  then show "view (c_append c) ! q = (view c @ [emptyPage]) ! q"
  proof cases
    case 1
    then show ?thesis
      by (simp add: view_nth e sf nth_append cong: option.case_cong)
  next
    case 2
    with new show ?thesis
      by (simp add: view_nth e sf nth_append)
  qed
qed

end
