(* ===== verification/Spec2Isabelle.thy ===== *)
theory Spec2Isabelle
  imports DB_Prelude Storage_Mgr Buffer_Mgr Frame_List Buffer_Pool Pool_Flush Pool_Contract
    Record_Codec Record_Mgr Record_Page Schema_Page
    Page_Cache
begin

text \<open>
  \<^bold>\<open>A verification development for the lightweight database engine.\<close>

  The engine is three C files stacked on each other. \<^verbatim>\<open>storage_mgr.c\<close> keeps
  page files: a header of two integers followed by pages of 4096 bytes, read
  and written one page at a time through a file handle. \<^verbatim>\<open>buffer_mgr.c\<close>
  caches pages of one file in a fixed number of frames, linked in a doubly
  linked list, and replaces them by FIFO, LRU or CLOCK. \<^verbatim>\<open>record_mgr.c\<close>
  stores fixed-size records in the pages of a table file that it reaches
  through a buffer pool. Each layer calls only the one below it.

  \<^bold>\<open>The theories.\<close>

  \<^descr>[\<open>DB_Prelude\<close>] Bytes and pages, the return codes of \<^verbatim>\<open>dberror.h\<close>, the
  encoding of pointer arguments (\<open>None\<close> is \<^verbatim>\<open>NULL\<close>, a callee returns the new
  contents of what it was given the address of), and \<open>put_block\<close> and
  \<open>get_block\<close>, what one \<^verbatim>\<open>fseek\<close> followed by \<^verbatim>\<open>fwrite\<close> or \<^verbatim>\<open>fread\<close> of a page
  does to the list of pages of a file.

  \<^descr>[\<open>Storage_Mgr\<close>] \<^verbatim>\<open>storage_mgr.c\<close>, every function as one definition with
  the guards of the code in their order. The state \<open>storage\<close> holds the two
  global integers of the file and the file system as a map from names to
  \<open>page_file\<close> (the header integers and the list of pages); the stream in a
  handle's \<^verbatim>\<open>mgmtInfo\<close> is the name of the file. \<^verbatim>\<open>fopen\<close> for writing fails
  on the names in \<open>unwritable\<close>, \<^verbatim>\<open>fseek\<close> fails on a removed file and on a
  negative offset, and \<^verbatim>\<open>fclose(NULL)\<close> takes the failure branch. The loop of
  \<^verbatim>\<open>ensureCapacity\<close> is a \<open>function\<close> that terminates by the number of
  pages still missing. The lemmas show that \<open>handle_ok\<close> (handle bound to an
  existing file whose header, page list and cached count agree) is kept,
  that \<open>writeBlock\<close> is \<open>put_block\<close> on the pages behind the handle, the
  round trip, growth, and the error branches.

  \<^descr>[\<open>Buffer_Mgr\<close>] \<^verbatim>\<open>buffer_mgr.c\<close>, every function as one definition. The
  frames live in an arena \<open>frames\<close>, a \<^verbatim>\<open>Frame*\<close> is an index into it and
  \<^verbatim>\<open>NULL\<close> is \<open>None\<close>; the page buffers live in a second arena \<open>bufs\<close> and
  \<^verbatim>\<open>page.data\<close> is an index into that, so that two handles on one buffer
  alias as they do in the code. Every operation is in the option monad:
  \<open>None\<close> is a run that dereferences a null or dangling pointer or walks
  forever, \<open>Some\<close> carries the return code and the state. Loops bounded by
  \<^verbatim>\<open>numPages\<close> recurse on that bound; the walk from the tail in \<^verbatim>\<open>pinPage\<close>
  has no bound in the code and gets as fuel one more than the number of
  frames, which is enough whenever the walk ends (\<open>findVictim_walk\<close>: on a
  list of \<open>n\<close> frames it stops after at most \<open>n\<close> steps) and is exhausted
  only on a cycle, where the code does not end either. Memory that the
  code reads before writing it (\<^verbatim>\<open>head\<close> in the first call of
  \<^verbatim>\<open>activateFrames\<close>) has no influence on the result there and is taken as
  zero; reading \<^verbatim>\<open>frame->next\<close> after \<^verbatim>\<open>free(frame)\<close> in
  \<^verbatim>\<open>shutdownBufferPool\<close> returns what was stored.

  \<^descr>[\<open>Frame_List\<close>] The frame list as a predicate on the arena: \<open>links\<close>,
  \<open>frame_list\<close>, \<open>frame_list_strict\<close>. The lemmas compute the page search
  and the victim search over such a list and show that relinking a frame at
  the head (\<open>moveToHead\<close>, the code repeated in the hit and in the miss
  branch of \<^verbatim>\<open>pinPage\<close>) yields the order \<open>v # remove1 v xs\<close> for every frame
  but the head, and does not return for the head.

  \<^descr>[\<open>Buffer_Pool\<close>] The well-formedness \<open>pool_ok\<close> of a FIFO or LRU pool,
  the functions \<open>load_page\<close>, \<open>hit_page\<close>, \<open>release_page\<close>, \<open>dirty_page\<close> that
  say what an operation does to everything but the links, and the lemmas
  that run \<^verbatim>\<open>initBufferPool\<close>, \<^verbatim>\<open>pinPage\<close>, \<^verbatim>\<open>unpinPage\<close>, \<^verbatim>\<open>markDirty\<close>,
  \<^verbatim>\<open>forcePage\<close> and the four reports on a well-formed pool.

  \<^descr>[\<open>Pool_Flush\<close>] \<open>flush_frames\<close>, the loop of \<^verbatim>\<open>forceFlushPool\<close> over the
  list of frame addresses, with \<open>write_back\<close> (what one flushed frame does
  to the pages of the file) and \<open>flushed\<close> (what it does to the frame). The
  lemmas show that \<^verbatim>\<open>forceFlushPool\<close> computes \<open>flush_frames\<close> on a
  well-formed pool, that a second flush is the identity, and run the two
  loops of \<^verbatim>\<open>shutdownBufferPool\<close> with and without a pinned frame.

  \<^descr>[\<open>Pool_Contract\<close>] The theorems on the buffer pool, each applied to a
  pool of three frames: creation, page fault (effect, invariant, choice of
  the victim, bytes read), hit under FIFO and LRU, unpinning, marking,
  forcing, flushing, shutting down, the reports, and the inputs on which
  \<^verbatim>\<open>pinPage\<close> does not return or returns stale bytes.

  \<^descr>[\<open>Spec2Isabelle\<close>] This theory: what holds across the buffer pool and
  the page file below it (a flushed page is read back from the file as the
  frame held it).

  \<^bold>\<open>Integers.\<close> Page numbers, counters and pin counts are C \<^verbatim>\<open>int\<close>s and are
  modelled as \<open>int\<close>. No theorem depends on wrap-around: a file of \<open>2\<^sup>3\<^sup>1\<close>
  pages or as many pins of one page are outside every hypothesis that bounds
  a page number by the page count of a file that exists.

  \<^bold>\<open>Not modelled.\<close> \<^verbatim>\<open>record_mgr.c\<close> (tables, records, the free-page list,
  scans, attributes) is not modelled yet. The CLOCK branch of \<^verbatim>\<open>pinPage\<close>
  (\<open>pinPage_clock\<close>, \<open>clockSweep\<close>) is defined in \<open>Buffer_Mgr\<close> and has no
  theorems yet; \<open>pool_ok\<close> describes the list of a FIFO or LRU pool, not the
  ring that \<^verbatim>\<open>initBufferPool\<close> closes for CLOCK. The C library is not
  modelled beyond its effect on page files; \<^verbatim>\<open>free\<close> is a no-op on the
  arenas until \<^verbatim>\<open>shutdownBufferPool\<close> empties them.
\<close>

section \<open>Buffer pool over page files\<close>

text \<open>
  C9 (roundtrip). Durability of a flush, across the two layers. On a
  well-formed pool over a well-formed handle, in which the dirty unpinned
  frames hold pairwise different page numbers, none negative, and buffers of
  a full page: after \<^verbatim>\<open>forceFlushPool\<close>, \<^verbatim>\<open>readBlock\<close> of the page number of any
  such frame through the pool's file handle returns \<open>RC_OK\<close> and exactly the
  bytes of that frame's buffer.
\<close>

theorem forceFlushPool_durable:
  assumes ok: "pool_ok b xs" and h: "handle_ok st (fHandle (mgmtData b))"
    and sz: "list_all (\<lambda>a. flushable (frames (mgmtData b)) a \<longrightarrow>
            0 \<le> pageNum (page (frames (mgmtData b) ! a)) \<and>
            length (bufs (mgmtData b) ! a) = PAGE_SIZE) xs"
    and di: "distinct (map (\<lambda>a. pageNum (page (frames (mgmtData b) ! a)))
               (filter (flushable (frames (mgmtData b))) xs))"
    and a: "a \<in> set xs" "flushable (frames (mgmtData b)) a"
  shows "case forceFlushPool (Some b) st of
           Some (rc, Some b', st') \<Rightarrow>
             fst (readBlock (pageNum (page (frames (mgmtData b) ! a)))
                    (Some (fHandle (mgmtData b'))) (Some buf) st') = RC_OK \<and>
             snd (snd (readBlock (pageNum (page (frames (mgmtData b) ! a)))
                    (Some (fHandle (mgmtData b'))) (Some buf) st')) = Some (bufs (mgmtData b) ! a)
         | _ \<Rightarrow> False"
proof -
  let ?md = "mgmtData b" and ?md' = "fst (flush_frames xs (mgmtData b) st)"
  let ?st' = "snd (flush_frames xs (mgmtData b) st)"
  let ?p = "pageNum (page (frames ?md ! a))"
  from ok have d: "distinct xs"
    by (simp add: pool_ok_def frame_list_def)
  from sz have sz': "\<forall>a \<in> set xs. flushable (frames ?md) a \<longrightarrow>
      0 \<le> pageNum (page (frames ?md ! a)) \<and> length (bufs ?md ! a) = PAGE_SIZE"
    by (simp add: list_all_iff)
  note disk = flush_frames_disk [OF h d sz']
  from sz' a foldl_write_back_nth [OF di, of a "pages_of st (fHandle ?md)"]
  have n: "nat ?p < length (pages_of ?st' (fHandle ?md'))"
    "pages_of ?st' (fHandle ?md') ! nat ?p = bufs ?md ! a" "0 \<le> ?p"
    by (auto simp: disk)
  from disk have "totalNumPages (fHandle ?md') = int (length (pages_of ?st' (fHandle ?md')))"
    by (auto elim: handle_okE)
  with n disk readBlock_ok [of ?st' "fHandle ?md'" ?p buf] show ?thesis
    by (simp add: forceFlushPool_eq [OF ok])
qed

theorem forceFlushPool_durable_witness:
  "pool_ok (pool_mid RS_FIFO) [2, 1, 0] \<and> handle_ok disk1 (fHandle (mgmtData (pool_mid RS_FIFO))) \<and>
   list_all (\<lambda>a. flushable (frames (mgmtData (pool_mid RS_FIFO))) a \<longrightarrow>
            0 \<le> pageNum (page (frames (mgmtData (pool_mid RS_FIFO)) ! a)) \<and>
            length (bufs (mgmtData (pool_mid RS_FIFO)) ! a) = PAGE_SIZE) [2, 1, 0] \<and>
   distinct (map (\<lambda>a. pageNum (page (frames (mgmtData (pool_mid RS_FIFO)) ! a)))
               (filter (flushable (frames (mgmtData (pool_mid RS_FIFO)))) [2, 1, 0])) \<and>
   (1 :: nat) \<in> set [2, 1, 0] \<and> flushable (frames (mgmtData (pool_mid RS_FIFO))) 1 \<and>
   (case forceFlushPool (Some (pool_mid RS_FIFO)) disk1 of
           Some (rc, Some b', st') \<Rightarrow>
             fst (readBlock (pageNum (page (frames (mgmtData (pool_mid RS_FIFO)) ! 1)))
                    (Some (fHandle (mgmtData b'))) (Some emptyPage) st') = RC_OK \<and>
             snd (snd (readBlock (pageNum (page (frames (mgmtData (pool_mid RS_FIFO)) ! 1)))
                    (Some (fHandle (mgmtData b'))) (Some emptyPage) st')) =
               Some (bufs (mgmtData (pool_mid RS_FIFO)) ! 1)
         | _ \<Rightarrow> False)"
  using forceFlushPool_durable [where b = "pool_mid RS_FIFO" and xs = "[2, 1, 0]" and st = disk1
      and a = 1 and buf = emptyPage]
  by simp

end
